(* ===== verification/Prelude.thy ===== *)
theory Prelude
  imports Main "HOL-Library.Sublist" "HOL-Library.Word"
begin

text \<open>
  Shared vocabulary of the development: the collections the component theories fill, the
  generic facts on lists and prefixes they use, and the Go string functions of package
  \<open>strings\<close> that the sources call.  A Go \<open>string\<close> is a sequence of bytes; it is modelled
  as a HOL \<open>string\<close>, a list of 8-bit characters, so that \<open>len\<close> counts bytes.
\<close>

named_theorems path_simps \<open>facts on cleaned paths and their components\<close>
named_theorems io_rules \<open>rules of the program logic for file-system code\<close>

unbundle bit_operations_syntax

type_synonym uint32 = "32 word"

text \<open>
  Go's \<open>int64\<close> (and \<open>int\<close>, and \<open>time.Duration\<close> in nanoseconds) is an \<open>int\<close> whose
  arithmetic results are reduced to 64-bit two's complement by \<open>i64\<close>.
\<close>

definition i64 :: "int \<Rightarrow> int" where
  "i64 x = (x + 2 ^ 63) mod 2 ^ 64 - 2 ^ 63"

lemma i64_id: "- (2 ^ 63) \<le> x \<Longrightarrow> x < 2 ^ 63 \<Longrightarrow> i64 x = x"
  by (simp add: i64_def)

lemma i64_range: "- (2 ^ 63) \<le> i64 x" "i64 x < 2 ^ 63"
  by (simp_all add: i64_def)

definition millisecond :: int where
  "millisecond = 1000000"

definition second :: int where
  "second = 1000000000"

section \<open>Package strings\<close>

definition HasPrefix :: "string \<Rightarrow> string \<Rightarrow> bool" where
  "HasPrefix s p = prefix p s"

definition HasSuffix :: "string \<Rightarrow> string \<Rightarrow> bool" where
  "HasSuffix s p = suffix p s"

definition TrimPrefix :: "string \<Rightarrow> string \<Rightarrow> string" where
  "TrimPrefix s p = (if HasPrefix s p then drop (length p) s else s)"

definition TrimSuffix :: "string \<Rightarrow> string \<Rightarrow> string" where
  "TrimSuffix s p = (if HasSuffix s p then take (length s - length p) s else s)"

text \<open>\<open>strings.Split\<close> with a one-byte separator: always at least one element.\<close>

fun Split :: "char \<Rightarrow> string \<Rightarrow> string list" where
  "Split d [] = [[]]"
| "Split d (c # cs) =
     (if c = d then [] # Split d cs
      else (case Split d cs of [] \<Rightarrow> [[c]] | w # ws \<Rightarrow> (c # w) # ws))"

text \<open>\<open>strings.Join\<close>.\<close>

fun join_with :: "string \<Rightarrow> string list \<Rightarrow> string" where
  "join_with sep [] = []"
| "join_with sep [w] = w"
| "join_with sep (w # v # ws) = w @ sep @ join_with sep (v # ws)"

text \<open>\<open>strings.Cut\<close> with a one-byte separator.\<close>

definition Cut :: "string \<Rightarrow> char \<Rightarrow> (string \<times> string) option" where
  "Cut s d = (if d \<in> set s then Some (takeWhile (\<lambda>c. c \<noteq> d) s, tl (dropWhile (\<lambda>c. c \<noteq> d) s))
              else None)"

text \<open>\<open>strings.ReplaceAll\<close> of one byte by another, and \<open>strings.ContainsRune\<close> for a byte.\<close>

definition ReplaceAll :: "char \<Rightarrow> char \<Rightarrow> string \<Rightarrow> string" where
  "ReplaceAll a b s = map (\<lambda>c. if c = a then b else c) s"

definition ContainsRune :: "string \<Rightarrow> char \<Rightarrow> bool" where
  "ContainsRune s c = (c \<in> set s)"

text \<open>The helper \<open>firstNonEmpty\<close>, declared in the manager and in the server.\<close>

fun firstNonEmpty :: "string list \<Rightarrow> string" where
  "firstNonEmpty [] = ''''"
| "firstNonEmpty (v # vs) = (if v \<noteq> '''' then v else firstNonEmpty vs)"

section \<open>Facts on strings\<close>

lemma Split_not_Nil [simp]: "Split d s \<noteq> []"
  by (cases s) (auto split: list.splits)

lemma Split_no_sep: "w \<in> set (Split d s) \<Longrightarrow> d \<notin> set w"
proof (induction s arbitrary: w)
  case (Cons c cs)
  then show ?case by (cases "Split d cs") (auto split: if_splits)
qed simp

lemma join_with_Cons: "ws \<noteq> [] \<Longrightarrow> join_with sep (w # ws) = w @ sep @ join_with sep ws"
  by (cases ws) auto

lemma join_Split: "join_with [d] (Split d s) = s"
proof (induction s)
  case (Cons c cs)
  show ?case
  proof (cases "Split d cs")
    case (Cons w ws)
    with Cons.IH show ?thesis by (cases ws) (auto simp: join_with_Cons)
  qed simp
qed simp

lemma Split_word: "d \<notin> set w \<Longrightarrow> Split d w = [w]"
  by (induction w) auto

lemma Split_append_sep: "Split d (a @ d # b) = Split d a @ Split d b"
proof (induction a)
  case (Cons c a)
  then show ?case by (cases "Split d a") auto
qed simp

lemma Split_join:
  "ws \<noteq> [] \<Longrightarrow> (\<And>w. w \<in> set ws \<Longrightarrow> d \<notin> set w) \<Longrightarrow> Split d (join_with [d] ws) = ws"
proof (induction ws)
  case (Cons w ws)
  show ?case
  proof (cases "ws = []")
    case True
    with Cons.prems show ?thesis by (simp add: Split_word)
  next
    case False
    with Cons show ?thesis by (simp add: join_with_Cons Split_append_sep Split_word)
  qed
qed simp

lemma join_with_append:
  "us \<noteq> [] \<Longrightarrow> ws \<noteq> [] \<Longrightarrow> join_with sep (us @ ws) = join_with sep us @ sep @ join_with sep ws"
proof (induction us)
  case (Cons u us)
  then show ?case by (cases us) (auto simp: join_with_Cons)
qed simp

lemma join_with_eq_Nil: "join_with [d] ws = [] \<longleftrightarrow> ws = [] \<or> ws = [[]]"
  by (cases ws rule: remdups_adj.cases) auto

lemma TrimPrefix_append [simp]: "TrimPrefix (p @ s) p = s"
  by (simp add: TrimPrefix_def HasPrefix_def)

lemma TrimPrefix_other: "\<not> prefix p s \<Longrightarrow> TrimPrefix s p = s"
  by (simp add: TrimPrefix_def HasPrefix_def)

lemma firstNonEmpty_nonempty: "firstNonEmpty vs = '''' \<longleftrightarrow> (\<forall>v \<in> set vs. v = '''')"
  by (induction vs) auto

lemma Cut_first:
  "d \<notin> set a \<Longrightarrow> Cut (a @ d # b) d = Some (a, b)"
proof -
  assume "d \<notin> set a"
  then have "takeWhile (\<lambda>c. c \<noteq> d) (a @ d # b) = a" and "dropWhile (\<lambda>c. c \<noteq> d) (a @ d # b) = d # b"
    by (induction a) auto
  then show ?thesis by (simp add: Cut_def)
qed

lemma Cut_None [simp]: "d \<notin> set s \<Longrightarrow> Cut s d = None"
  by (simp add: Cut_def)

lemma set_ReplaceAll: "a \<noteq> b \<Longrightarrow> a \<notin> set (ReplaceAll a b s)"
  by (auto simp: ReplaceAll_def)

lemma ReplaceAll_id: "a \<notin> set s \<Longrightarrow> ReplaceAll a b s = s"
  unfolding ReplaceAll_def by (rule map_idI) auto

lemma take_take_append: "take n (take n xs @ ys) = take n (xs @ ys)"
  by (cases "n \<le> length xs") auto

text \<open>Decimal numbers.\<close>

definition digit_char :: "nat \<Rightarrow> char" where
  "digit_char n = char_of (48 + n)"

fun itoa :: "nat \<Rightarrow> string" where
  "itoa n = (if n < 10 then [digit_char n] else itoa (n div 10) @ [digit_char (n mod 10)])"

declare itoa.simps [simp del]

definition is_digit :: "char \<Rightarrow> bool" where
  "is_digit c = (c \<in> set ''0123456789'')"

lemma digit_char_digit: "n < 10 \<Longrightarrow> is_digit (digit_char n)"
proof -
  assume "n < 10"
  moreover have "\<forall>k<10. is_digit (digit_char k)" unfolding is_digit_def digit_char_def by code_simp
  ultimately show ?thesis by blast
qed

lemma itoa_digits: "list_all is_digit (itoa n)"
proof (induction n rule: less_induct)
  case (less n)
  then show ?case by (subst itoa.simps) (auto simp: digit_char_digit)
qed

end
