(* ===== verification/GoPath.thy ===== *)
theory GoPath
  imports Prelude
begin

text \<open>
  The lexical path functions of Go's \<open>path\<close> and \<open>path/filepath\<close> packages on Unix, which
  every component uses: \<open>Clean\<close>, \<open>Join\<close>, \<open>Dir\<close>, \<open>Base\<close>, \<open>Rel\<close>, \<open>IsAbs\<close>, \<open>Ext\<close>.  A path
  is a string; its meaning is whether it is rooted and the list of its lexical components
  (\<open>comps\<close>), with \<open>.\<close> and empty elements dropped and \<open>..\<close> resolved against the element
  before it.  The lemmas reduce each function to list operations on components, which is
  how the containment checks of the layer appliers, the agent and the server are proved.
\<close>

section \<open>Definitions\<close>

abbreviation (input) slash :: char where "slash \<equiv> CHR ''/''"

definition rooted :: "string \<Rightarrow> bool" where
  "rooted s = (s \<noteq> [] \<and> hd s = slash)"

text \<open>The element loop of \<open>Clean\<close>; the stack holds the elements kept so far, last first.\<close>

fun clean_stack :: "bool \<Rightarrow> string list \<Rightarrow> string list \<Rightarrow> string list" where
  "clean_stack r st [] = rev st"
| "clean_stack r st (c # cs) =
     (if c = '''' \<or> c = ''.'' then clean_stack r st cs
      else if c = ''..'' then
        (case st of
           [] \<Rightarrow> clean_stack r (if r then [] else [''..'']) cs
         | x # st' \<Rightarrow> clean_stack r (if x = ''..'' then ''..'' # st else st') cs)
      else clean_stack r (c # st) cs)"

definition comps :: "string \<Rightarrow> string list" where
  "comps s = clean_stack (rooted s) [] (Split slash s)"

definition render :: "bool \<Rightarrow> string list \<Rightarrow> string" where
  "render r cs = (if r then slash # join_with ''/'' cs
                  else if cs = [] then ''.'' else join_with ''/'' cs)"

definition Clean :: "string \<Rightarrow> string" where
  "Clean s = render (rooted s) (comps s)"

definition IsAbs :: "string \<Rightarrow> bool" where
  "IsAbs s = rooted s"

definition Join :: "string list \<Rightarrow> string" where
  "Join es = (case dropWhile (\<lambda>e. e = '''') es of
                [] \<Rightarrow> ''''
              | e # es' \<Rightarrow> Clean (join_with ''/'' (e # es')))"

text \<open>The part of a path up to and including its last slash, and the part after it.\<close>

definition dir_part :: "string \<Rightarrow> string" where
  "dir_part s = rev (dropWhile (\<lambda>c. c \<noteq> slash) (rev s))"

definition base_part :: "string \<Rightarrow> string" where
  "base_part s = rev (takeWhile (\<lambda>c. c \<noteq> slash) (rev s))"

definition Dir :: "string \<Rightarrow> string" where
  "Dir s = Clean (dir_part s)"

definition Base :: "string \<Rightarrow> string" where
  "Base s = (if s = '''' then ''.''
             else let t = rev (dropWhile (\<lambda>c. c = slash) (rev s)) in
               if t = '''' then ''/'' else base_part t)"

text \<open>\<open>filepath.Ext\<close>: the suffix from the last dot of the final element.\<close>

definition Ext :: "string \<Rightarrow> string" where
  "Ext s = (let b = base_part s in
     if CHR ''.'' \<in> set b
     then CHR ''.'' # rev (takeWhile (\<lambda>c. c \<noteq> CHR ''.'') (rev b)) else '''')"

text \<open>
  \<open>filepath.Rel\<close> walks the two cleaned paths element by element to the first difference.
  \<open>None\<close> is its error: one path is rooted and the other is not, or the first differing
  element of the base is \<open>..\<close>.
\<close>

fun strip_common :: "'a list \<Rightarrow> 'a list \<Rightarrow> 'a list \<times> 'a list" where
  "strip_common (b # bs) (t # ts) = (if b = t then strip_common bs ts else (b # bs, t # ts))"
| "strip_common bs ts = (bs, ts)"

definition elems :: "string \<Rightarrow> string list" where
  "elems s = (let u = (if rooted s then tl s else s) in if u = '''' then [] else Split slash u)"

definition Rel :: "string \<Rightarrow> string \<Rightarrow> string option" where
  "Rel base targ =
     (let b = Clean base; t = Clean targ in
      if t = b then Some ''.''
      else if rooted b \<noteq> rooted t then None
      else (case strip_common (elems (if b = ''.'' then '''' else b)) (elems t) of
              (bs, ts) \<Rightarrow>
                if bs \<noteq> [] \<and> ts \<noteq> [] \<and> hd bs = ''..'' then None
                else Some (join_with ''/'' (replicate (length bs) ''..'' @ ts))))"

section \<open>Normal component lists\<close>

text \<open>A single ordinary path element, as found in a directory.\<close>

definition plain :: "string \<Rightarrow> bool" where
  "plain c = (c \<noteq> '''' \<and> c \<noteq> ''.'' \<and> c \<noteq> ''..'' \<and> slash \<notin> set c)"

definition normal :: "bool \<Rightarrow> string list \<Rightarrow> bool" where
  "normal r cs = (\<exists>n cs'. cs = replicate n ''..'' @ cs' \<and> list_all plain cs' \<and> (r \<longrightarrow> n = 0))"

lemma plain_no_slash [simp]: "plain c \<Longrightarrow> slash \<notin> set c"
  and plain_not_dotdot: "plain c \<Longrightarrow> c \<noteq> ''..''"
  and plain_not_dot: "plain c \<Longrightarrow> c \<noteq> ''.''"
  and plain_not_Nil: "plain c \<Longrightarrow> c \<noteq> ''''"
  by (auto simp: plain_def)

lemma clean_stack_plain [path_simps]:
  "list_all plain cs \<Longrightarrow> clean_stack r st (cs @ ds) = clean_stack r (rev cs @ st) ds"
  by (induction cs arbitrary: st) (auto simp: plain_def)

lemma clean_stack_plain_all:
  "list_all plain cs \<Longrightarrow> clean_stack r st cs = rev st @ cs"
  using clean_stack_plain [of cs r st "[]"] by simp

lemma clean_stack_dotdots:
  "\<not> r \<Longrightarrow> clean_stack r (replicate m ''..'') (replicate n ''..'' @ cs)
     = clean_stack r (replicate (m + n) ''..'') cs"
proof (induction n arbitrary: m)
  case (Suc n)
  have "clean_stack r (replicate m ''..'') (replicate (Suc n) ''..'' @ cs)
      = clean_stack r (replicate (Suc m) ''..'') (replicate n ''..'' @ cs)"
    using \<open>\<not> r\<close> by (cases m) auto
  also have "\<dots> = clean_stack r (replicate (m + Suc n) ''..'') cs"
    using Suc.IH [of "Suc m"] \<open>\<not> r\<close> by (simp del: replicate_Suc)
  finally show ?case .
qed simp

lemma clean_stack_normal_fixed: "normal r cs \<Longrightarrow> clean_stack r [] cs = cs"
proof -
  assume "normal r cs"
  then obtain n cs' where cs: "cs = replicate n ''..'' @ cs'" "list_all plain cs'" "r \<longrightarrow> n = 0"
    by (auto simp: normal_def)
  show ?thesis
  proof (cases r)
    case True
    with cs show ?thesis by (simp add: clean_stack_plain_all)
  next
    case False
    with cs clean_stack_dotdots [of r 0 n cs'] show ?thesis
      by (simp add: clean_stack_plain_all)
  qed
qed

text \<open>What the stack looks like while \<open>Clean\<close> runs: ordinary elements on top of \<open>..\<close>s.\<close>

definition stack_ok :: "bool \<Rightarrow> string list \<Rightarrow> bool" where
  "stack_ok r st = normal r (rev st)"

lemma stack_ok_Nil [simp]: "stack_ok r []"
  by (auto simp: stack_ok_def normal_def)

lemma stack_ok_push: "stack_ok r st \<Longrightarrow> plain c \<Longrightarrow> stack_ok r (c # st)"
proof -
  assume "stack_ok r st" and c: "plain c"
  then obtain n cs where "rev st = replicate n ''..'' @ cs" "list_all plain cs" "r \<longrightarrow> n = 0"
    by (auto simp: stack_ok_def normal_def)
  with c have "rev (c # st) = replicate n ''..'' @ (cs @ [c])" "list_all plain (cs @ [c])" "r \<longrightarrow> n = 0"
    by simp_all
  then show ?thesis unfolding stack_ok_def normal_def by blast
qed

lemma stack_ok_cases:
  assumes "stack_ok r (x # st)"
  shows "(x = ''..'' \<longrightarrow> \<not> r \<and> (\<exists>n. st = replicate n ''..'')) \<and> stack_ok r st"
proof -
  from assms obtain n cs where s: "rev st @ [x] = replicate n ''..'' @ cs" "list_all plain cs"
    "r \<longrightarrow> n = 0" by (auto simp: stack_ok_def normal_def)
  show ?thesis
  proof (cases cs rule: rev_cases)
    case Nil
    with s obtain m where m: "n = Suc m" by (cases n) auto
    with Nil s have "rev st @ [x] = replicate m ''..'' @ [''..'']"
      by (simp add: replicate_append_same)
    then have x: "x = ''..''" and "rev st = replicate m ''..''" by auto
    then have st: "st = replicate m ''..''" by (metis rev_replicate rev_swap)
    with s m x show ?thesis
      by (auto simp: stack_ok_def normal_def intro!: exI [of _ m] exI [of _ "[]"])
  next
    case (snoc ds d)
    with s have "x = d" "rev st = replicate n ''..'' @ ds" "plain d" "list_all plain ds" by auto
    with s show ?thesis by (auto simp: stack_ok_def normal_def plain_def)
  qed
qed

lemma stack_ok_dotdots: "\<not> r \<Longrightarrow> stack_ok r (replicate n ''..'')"
  by (auto simp: stack_ok_def normal_def intro!: exI [of _ n] exI [of _ "[]"])

lemma clean_stack_normal:
  "stack_ok r st \<Longrightarrow> (\<And>c. c \<in> set cs \<Longrightarrow> slash \<notin> set c) \<Longrightarrow> normal r (clean_stack r st cs)"
proof (induction cs arbitrary: st)
  case Nil
  then show ?case by (simp add: stack_ok_def)
next
  case (Cons c cs)
  consider "c = '''' \<or> c = ''.''" | "c = ''..''" | "plain c"
    using Cons.prems(2) by (auto simp: plain_def)
  then show ?case
  proof cases
    case 1
    then show ?thesis using Cons by auto
  next
    case 2
    have "stack_ok r (case st of [] \<Rightarrow> (if r then [] else [''..''])
        | x # st' \<Rightarrow> (if x = ''..'' then ''..'' # st else st'))"
    proof (cases st)
      case Nil
      then show ?thesis using stack_ok_dotdots [of r 1] by simp
    next
      case (Cons x st')
      have s: "stack_ok r (x # st')" using Cons.prems(1) Cons by simp
      show ?thesis
      proof (cases "x = ''..''")
        case True
        with stack_ok_cases [OF s] obtain n where "\<not> r" "st' = replicate n ''..''" by auto
        with stack_ok_dotdots [of r "Suc (Suc n)"] True Cons show ?thesis by simp
      next
        case False
        with stack_ok_cases [OF s] Cons show ?thesis by simp
      qed
    qed
    with Cons 2 show ?thesis by (cases st) auto
  next
    case 3
    then have "clean_stack r st (c # cs) = clean_stack r (c # st) cs" by (auto simp: plain_def)
    with Cons 3 show ?thesis by (simp add: stack_ok_push)
  qed
qed

lemma comps_normal [path_simps]: "normal (rooted s) (comps s)"
  unfolding comps_def by (rule clean_stack_normal) (auto dest: Split_no_sep)

lemma normal_elem: "normal r cs \<Longrightarrow> c \<in> set cs \<Longrightarrow> c = ''..'' \<or> plain c"
proof -
  assume "normal r cs" and c: "c \<in> set cs"
  then obtain n ds where "cs = replicate n ''..'' @ ds" and ds: "list_all plain ds"
    unfolding normal_def by blast
  with c have "c \<in> set (replicate n ''..'') \<or> c \<in> set ds" by simp
  with ds show ?thesis by (auto simp: list_all_iff)
qed

lemma normal_no_slash: "normal r cs \<Longrightarrow> c \<in> set cs \<Longrightarrow> slash \<notin> set c"
  using normal_elem [of r cs c] by fastforce

lemma normal_nonempty: "normal r cs \<Longrightarrow> c \<in> set cs \<Longrightarrow> c \<noteq> '''' \<and> c \<noteq> ''.''"
  using normal_elem [of r cs c] by (fastforce simp: plain_def)

lemma normal_rooted: "normal True cs \<longleftrightarrow> list_all plain cs"
  by (auto simp: normal_def)

lemma plain_normal: "list_all plain cs \<Longrightarrow> normal r cs"
  unfolding normal_def by (rule exI [of _ 0]) auto

lemma comps_rooted_plain: "rooted s \<Longrightarrow> list_all plain (comps s)"
  using comps_normal [of s] by (simp add: normal_rooted)

section \<open>Rendering and components\<close>

lemma rooted_simps [simp]: "rooted (slash # s)" "\<not> rooted ''''" "\<not> rooted ''.''"
  by (simp_all add: rooted_def)

lemma rooted_append: "a \<noteq> [] \<Longrightarrow> rooted (a @ b) = rooted a"
  by (cases a) (auto simp: rooted_def)

lemma rooted_join: "normal False cs \<Longrightarrow> \<not> rooted (join_with ''/'' cs)"
proof (cases cs)
  case (Cons c ds)
  assume n: "normal False cs"
  with Cons have "c \<noteq> ''''" "slash \<notin> set c"
    using normal_nonempty [OF n] normal_no_slash [OF n] by auto
  then have "c \<noteq> []" and "hd c \<noteq> slash" by (auto dest: hd_in_set)
  with Cons show ?thesis by (cases ds) (auto simp: rooted_def)
qed simp

lemma rooted_render [simp]: "normal r cs \<Longrightarrow> rooted (render r cs) = r"
  using rooted_join [of cs] by (cases r) (auto simp: render_def)

lemma Split_join_normal: "normal r cs \<Longrightarrow> cs \<noteq> [] \<Longrightarrow> Split slash (join_with ''/'' cs) = cs"
  by (rule Split_join) (auto dest: normal_no_slash)

lemma comps_render [path_simps]:
  assumes n: "normal r cs"
  shows "comps (render r cs) = cs"
proof (cases "cs = []")
  case True
  then show ?thesis by (cases r) (auto simp: comps_def render_def)
next
  case False
  have "clean_stack r [] cs = cs" using n by (rule clean_stack_normal_fixed)
  with n False rooted_join [of cs] show ?thesis
    by (cases r) (auto simp: comps_def render_def Split_join_normal)
qed

lemma rooted_Clean [simp]: "rooted (Clean s) = rooted s"
  by (simp add: Clean_def comps_normal)

lemma comps_Clean [simp, path_simps]: "comps (Clean s) = comps s"
  by (simp add: Clean_def comps_normal comps_render)

lemma Clean_idem [simp, path_simps]: "Clean (Clean s) = Clean s"
proof -
  have "Clean (Clean s) = render (rooted s) (comps s)" by (simp add: Clean_def [of "Clean s"])
  then show ?thesis by (simp add: Clean_def)
qed

lemma Clean_eq_iff: "Clean s = Clean t \<longleftrightarrow> rooted s = rooted t \<and> comps s = comps t"
proof
  assume "Clean s = Clean t"
  then have "rooted (Clean s) = rooted (Clean t)" "comps (Clean s) = comps (Clean t)" by simp_all
  then show "rooted s = rooted t \<and> comps s = comps t" by simp
qed (simp add: Clean_def)

text \<open>A path that \<open>Clean\<close> leaves alone is determined by its components.\<close>

definition cleaned :: "string \<Rightarrow> bool" where
  "cleaned s = (Clean s = s)"

lemma cleaned_Clean [simp]: "cleaned (Clean s)"
  by (simp add: cleaned_def)

lemma cleaned_render: "cleaned s \<Longrightarrow> s = render (rooted s) (comps s)"
  by (simp add: cleaned_def Clean_def)

lemma render_cleaned: "normal r cs \<Longrightarrow> cleaned (render r cs)"
  by (simp add: cleaned_def Clean_def comps_render)

lemma cleaned_eqI:
  assumes "cleaned s" "cleaned t" "rooted s = rooted t" "comps s = comps t"
  shows "s = t"
proof -
  have "s = render (rooted s) (comps s)" using assms(1) by (rule cleaned_render)
  also have "\<dots> = render (rooted t) (comps t)" using assms(3,4) by simp
  also have "\<dots> = t" using cleaned_render [OF assms(2)] by (rule sym)
  finally show ?thesis .
qed

lemma render_inject:
  "normal r cs \<Longrightarrow> normal r ds \<Longrightarrow> render r cs = render r ds \<longleftrightarrow> cs = ds"
  by (metis comps_render)

lemma cleaned_nonempty: "cleaned s \<Longrightarrow> s \<noteq> ''''"
  by (auto simp: cleaned_def Clean_def comps_def render_def)

section \<open>Join, Dir and Base on components\<close>

lemma clean_stack_append:
  "clean_stack r st (xs @ ys) = clean_stack r (rev (clean_stack r st xs)) ys"
  by (induction r st xs rule: clean_stack.induct) (auto split: list.splits)

text \<open>
  A relative path whose elements resolve to ordinary components never climbs above its
  start, so appending it to any stack only pushes those components.
\<close>

lemma clean_stack_bottom_dotdot:
  "st \<noteq> [] \<Longrightarrow> last st = ''..'' \<Longrightarrow>
     clean_stack False st ys \<noteq> [] \<and> hd (clean_stack False st ys) = ''..''"
proof (induction ys arbitrary: st)
  case Nil
  then show ?case by (simp add: hd_rev)
next
  case (Cons y ys)
  obtain x st' where st: "st = x # st'" using Cons.prems(1) by (cases st) auto
  show ?case
  proof (cases "y = ''..'' \<and> x \<noteq> ''..''")
    case True
    with st Cons.prems have "st' \<noteq> []" "last st' = ''..''" by (auto split: if_splits)
    with Cons.IH [of st'] True st show ?thesis by simp
  next
    case False
    with Cons.IH [of st] Cons.IH [of "y # st"] Cons.prems st show ?thesis
      by (auto split: if_splits)
  qed
qed

lemma clean_stack_shift:
  assumes "''..'' \<notin> set (clean_stack False st ys)" and "''..'' \<notin> set st"
  shows "clean_stack r (st @ rev us) ys = us @ clean_stack False st ys"
  using assms
proof (induction ys arbitrary: st)
  case (Cons y ys)
  show ?case
  proof (cases "y = ''..''")
    case True
    show ?thesis
    proof (cases st)
      case Nil
      with True clean_stack_bottom_dotdot [of "[''..'']" ys] Cons.prems(1)
      have False by (cases "clean_stack False [''..''] ys") auto
      then show ?thesis ..
    next
      case (Cons x st')
      with True Cons.prems Cons.IH [of st'] show ?thesis by auto
    qed
  next
    case False
    with Cons.IH [of st] Cons.IH [of "y # st"] Cons.prems show ?thesis by auto
  qed
qed simp

lemma comps_append_slash:
  "a \<noteq> '''' \<Longrightarrow> comps (a @ slash # b) = clean_stack (rooted a) (rev (comps a)) (Split slash b)"
  by (simp add: comps_def rooted_append Split_append_sep clean_stack_append)

lemma comps_under:
  assumes "a \<noteq> ''''" "\<not> rooted b" "''..'' \<notin> set (comps b)"
  shows "comps (a @ slash # b) = comps a @ comps b"
  using clean_stack_shift [of "[]" "Split slash b" "rooted a" "comps a"] assms
  by (simp add: comps_append_slash comps_def [of b])

lemma plain_not_rooted: "plain c \<Longrightarrow> \<not> rooted c"
  by (auto simp: plain_def rooted_def dest: hd_in_set)

lemma comps_plain_list:
  "list_all plain cs \<Longrightarrow> cs \<noteq> [] \<Longrightarrow> comps (join_with ''/'' cs) = cs"
proof -
  assume cs: "list_all plain cs" "cs \<noteq> []"
  then have "normal False cs" by (simp add: plain_normal)
  from comps_render [OF this] cs show ?thesis by (simp add: render_def)
qed

lemma not_rooted_plain_list: "list_all plain cs \<Longrightarrow> \<not> rooted (join_with ''/'' cs)"
  by (rule rooted_join) (rule plain_normal)

lemma plain_no_dotdot: "list_all plain cs \<Longrightarrow> ''..'' \<notin> set cs"
  by (auto simp: list_all_iff plain_def)

lemma Join_Clean: "d \<noteq> '''' \<Longrightarrow> Join (d # es) = Clean (join_with ''/'' (d # es))"
  by (simp add: Join_def)

lemma Join_under:
  assumes "d \<noteq> ''''" "\<not> rooted b" "''..'' \<notin> set (comps b)"
  shows "rooted (Join [d, b]) = rooted d" "comps (Join [d, b]) = comps d @ comps b"
    "cleaned (Join [d, b])"
  using assms by (simp_all add: Join_Clean comps_under rooted_append)

lemma Join_plain [path_simps]:
  assumes "d \<noteq> ''''" "list_all plain es"
  shows "rooted (Join (d # es)) = rooted d" "comps (Join (d # es)) = comps d @ es"
    "cleaned (Join (d # es))"
proof -
  have "comps (join_with ''/'' (d # es)) = comps d @ es"
  proof (cases "es = []")
    case False
    with assms show ?thesis
      by (simp add: join_with_Cons comps_under not_rooted_plain_list comps_plain_list plain_no_dotdot)
  qed simp
  moreover have "rooted (join_with ''/'' (d # es)) = rooted d"
    using assms(1) by (cases "es = []") (simp_all add: join_with_Cons rooted_append)
  ultimately show "rooted (Join (d # es)) = rooted d" "comps (Join (d # es)) = comps d @ es"
    "cleaned (Join (d # es))"
    using assms(1) by (simp_all add: Join_Clean)
qed

lemma dir_part_slash: "slash \<notin> set c \<Longrightarrow> dir_part (a @ slash # c) = a @ [slash]"
proof -
  assume "slash \<notin> set c"
  then have "dropWhile (\<lambda>x. x \<noteq> slash) (rev c @ slash # rev a) = slash # rev a"
    by (subst dropWhile_append2) auto
  then show ?thesis by (simp add: dir_part_def)
qed

lemma dir_part_none: "slash \<notin> set c \<Longrightarrow> dir_part c = ''''"
  by (auto simp: dir_part_def)

lemma base_part_slash: "slash \<notin> set c \<Longrightarrow> base_part (a @ slash # c) = c"
proof -
  assume "slash \<notin> set c"
  then have "takeWhile (\<lambda>x. x \<noteq> slash) (rev c @ slash # rev a) = rev c"
    by (subst takeWhile_append2) auto
  then show ?thesis by (simp add: base_part_def)
qed

lemma base_part_none: "slash \<notin> set c \<Longrightarrow> base_part c = c"
proof -
  assume "slash \<notin> set c"
  then have eq: "takeWhile (\<lambda>x. x \<noteq> slash) (rev c) = rev c" by (subst takeWhile_eq_all_conv) auto
  show ?thesis unfolding base_part_def eq by simp
qed

text \<open>A cleaned path with a last component is that component after a slash, or alone.\<close>

lemma render_snoc:
  "render r (cs @ [c]) =
     (if cs = [] then (if r then slash # c else c) else render r cs @ slash # c)"
  by (auto simp: render_def join_with_append)

lemma comps_trailing_slash: "a \<noteq> '''' \<Longrightarrow> comps (a @ [slash]) = comps a"
  by (simp add: comps_append_slash)

lemma Dir_render:
  assumes n: "normal r cs"
  shows "rooted (Dir (render r cs)) = r" "comps (Dir (render r cs)) = butlast cs"
proof -
  have "rooted (dir_part (render r cs)) = r \<and> comps (dir_part (render r cs)) = butlast cs"
  proof (cases cs rule: rev_cases)
    case Nil
    then show ?thesis
      by (cases r) (auto simp: render_def dir_part_def comps_def rooted_def)
  next
    case (snoc ds c)
    then have c: "slash \<notin> set c" using normal_no_slash [OF n] by simp
    have nd: "normal r ds"
      using n snoc stack_ok_cases [of r c "rev ds"] by (simp add: stack_ok_def)
    show ?thesis
    proof (cases "ds = []")
      case True
      with snoc c dir_part_slash [of c "''''"] show ?thesis
        by (cases r) (auto simp: render_def dir_part_none comps_def rooted_def)
    next
      case False
      have "render r ds \<noteq> ''''" using render_cleaned [OF nd] by (rule cleaned_nonempty)
      with snoc c False nd show ?thesis
        by (simp add: render_snoc dir_part_slash rooted_append comps_trailing_slash comps_render)
    qed
  qed
  then show "rooted (Dir (render r cs)) = r" "comps (Dir (render r cs)) = butlast cs"
    by (simp_all add: Dir_def)
qed

lemma Dir_cleaned [path_simps]:
  assumes "cleaned s"
  shows "rooted (Dir s) = rooted s" "comps (Dir s) = butlast (comps s)" "cleaned (Dir s)"
proof -
  have "s = render (rooted s) (comps s)" using assms by (rule cleaned_render)
  then show "rooted (Dir s) = rooted s" "comps (Dir s) = butlast (comps s)"
    using Dir_render [OF comps_normal [of s]] by simp_all
  show "cleaned (Dir s)" by (simp add: Dir_def)
qed

lemma Base_cleaned [path_simps]:
  assumes "cleaned s" "comps s \<noteq> []"
  shows "Base s = last (comps s)"
proof -
  have s: "s = render (rooted s) (comps s)" using assms(1) by (rule cleaned_render)
  have n: "normal (rooted s) (comps s)" by (rule comps_normal)
  obtain ds c where cs: "comps s = ds @ [c]" using assms(2) by (cases "comps s" rule: rev_cases) auto
  then have c: "slash \<notin> set c" "c \<noteq> ''''"
    using normal_no_slash [OF n] normal_nonempty [OF n] by auto
  then have "last c \<noteq> slash" by (auto dest: last_in_set)
  have "\<exists>a. s = a @ slash # c \<or> s = c"
    using s cs by (metis append_Nil render_snoc)
  then obtain a where a: "s = a @ slash # c \<or> s = c" by blast
  have strip: "dropWhile (\<lambda>x. x = slash) (rev s) = rev s"
    using a c \<open>last c \<noteq> slash\<close> by (cases c rule: rev_cases) auto
  have "s \<noteq> ''''" using assms(1) by (rule cleaned_nonempty)
  with strip a c cs show ?thesis
    by (auto simp: Base_def base_part_slash base_part_none)
qed

section \<open>Rel on components\<close>

lemma strip_common_spec:
  "strip_common bs ts = (bs', ts') \<Longrightarrow>
     \<exists>us. bs = us @ bs' \<and> ts = us @ ts' \<and> (bs' \<noteq> [] \<and> ts' \<noteq> [] \<longrightarrow> hd bs' \<noteq> hd ts')"
proof (induction bs ts rule: strip_common.induct)
  case (1 b bs t ts)
  show ?case
  proof (cases "b = t")
    case True
    with 1 obtain us where "bs = us @ bs'" "ts = us @ ts'"
      "bs' \<noteq> [] \<and> ts' \<noteq> [] \<longrightarrow> hd bs' \<noteq> hd ts'" by auto
    with True show ?thesis by (intro exI [of _ "b # us"]) simp
  next
    case False
    with 1 show ?thesis by auto
  qed
qed auto

lemma strip_common_prefix:
  assumes "strip_common bs ts = (bs', ts')"
  shows "bs' = [] \<longleftrightarrow> prefix bs ts"
proof -
  obtain us where us: "bs = us @ bs'" "ts = us @ ts'"
    "bs' \<noteq> [] \<and> ts' \<noteq> [] \<longrightarrow> hd bs' \<noteq> hd ts'" using strip_common_spec [OF assms] by blast
  then show ?thesis by (cases bs'; cases ts') auto
qed

lemma strip_common_append: "strip_common bs (bs @ ts) = ([], ts)"
  by (induction bs) auto

lemma elems_render: "normal r cs \<Longrightarrow> r \<or> cs \<noteq> [] \<Longrightarrow> elems (render r cs) = cs"
proof -
  assume n: "normal r cs" and ne: "r \<or> cs \<noteq> []"
  have "join_with ''/'' cs = '''' \<longleftrightarrow> cs = []"
    using normal_nonempty [OF n, of "''''"] by (auto simp: join_with_eq_Nil)
  moreover have "cs \<noteq> [] \<Longrightarrow> Split slash (join_with ''/'' cs) = cs"
    using n by (rule Split_join_normal)
  ultimately show ?thesis using n ne rooted_render [OF n]
    by (cases "cs = []") (auto simp: elems_def render_def Let_def)
qed

lemma elems_Clean: "rooted s \<or> comps s \<noteq> [] \<Longrightarrow> elems (Clean s) = comps s"
  unfolding Clean_def by (rule elems_render [OF comps_normal])

definition escapes :: "string \<Rightarrow> bool" where
  "escapes rel = (rel = ''..'' \<or> HasPrefix rel ''../'')"

lemma join_starts_dotdot:
  assumes "\<And>c. c \<in> set cs \<Longrightarrow> slash \<notin> set c"
  shows "escapes (join_with ''/'' cs) \<longleftrightarrow> cs \<noteq> [] \<and> hd cs = ''..''"
proof (cases cs)
  case (Cons c ds)
  show ?thesis
  proof (cases "ds = []")
    case True
    with Cons assms show ?thesis by (auto simp: escapes_def HasPrefix_def prefix_def)
  next
    case False
    have "HasPrefix (c @ slash # u) ''../'' \<longleftrightarrow> c = ''..''" for u
    proof
      assume "HasPrefix (c @ slash # u) ''../''"
      then obtain v where v: "c @ slash # u = ''..'' @ slash # v" by (auto simp: HasPrefix_def prefix_def)
      have "slash \<notin> set c" using Cons assms by simp
      then have "takeWhile (\<lambda>x. x \<noteq> slash) (c @ slash # u) = c" by (subst takeWhile_append2) auto
      with v show "c = ''..''" by simp
    qed (simp add: HasPrefix_def)
    moreover have "c @ slash # u \<noteq> ''..''" for u
    proof
      assume "c @ slash # u = ''..''"
      then have "slash \<in> set ''..''" by (metis in_set_conv_decomp)
      then show False by simp
    qed
    ultimately show ?thesis using Cons False by (simp add: escapes_def join_with_Cons)
  qed
qed (simp add: escapes_def HasPrefix_def)

text \<open>
  \<open>Rel\<close> between two rooted paths succeeds, and its result starts with \<open>..\<close> exactly when
  the target does not lie at or below the base.
\<close>

lemma Rel_rooted:
  assumes "rooted b" "rooted t"
  shows "\<exists>rel. Rel b t = Some rel \<and> (escapes rel \<longleftrightarrow> \<not> prefix (comps b) (comps t))"
proof (cases "Clean t = Clean b")
  case True
  then have "comps t = comps b" by (simp add: Clean_eq_iff)
  with True show ?thesis by (simp add: Rel_def escapes_def HasPrefix_def)
next
  case False
  obtain bs ts where st: "strip_common (comps b) (comps t) = (bs, ts)" by fastforce
  obtain us where us: "comps b = us @ bs" "comps t = us @ ts" using strip_common_spec [OF st] by blast
  have pl: "list_all plain (comps b)" "list_all plain (comps t)"
    using assms by (simp_all add: comps_rooted_plain)
  with us have bs: "list_all plain bs" and ts: "list_all plain ts" by simp_all
  have "Clean b \<noteq> ''.''" using assms(1) by (metis rooted_Clean rooted_simps(3))
  moreover have "\<not> (bs \<noteq> [] \<and> ts \<noteq> [] \<and> hd bs = ''..'')"
    using bs by (cases bs) (auto simp: plain_def)
  ultimately have rel: "Rel b t = Some (join_with ''/'' (replicate (length bs) ''..'' @ ts))"
    using False assms st by (simp add: Rel_def elems_Clean)
  have "escapes (join_with ''/'' (replicate (length bs) ''..'' @ ts)) \<longleftrightarrow>
      replicate (length bs) ''..'' @ ts \<noteq> [] \<and> hd (replicate (length bs) ''..'' @ ts) = ''..''"
  proof (rule join_starts_dotdot)
    fix c assume "c \<in> set (replicate (length bs) ''..'' @ ts)"
    then have "c = ''..'' \<or> c \<in> set ts" by (auto split: if_splits)
    moreover have "c \<in> set ts \<Longrightarrow> plain c" using ts by (simp add: list_all_iff)
    ultimately show "slash \<notin> set c" by fastforce
  qed
  also have "\<dots> \<longleftrightarrow> bs \<noteq> []" using ts by (cases bs; cases ts) (auto simp: plain_def)
  also have "\<dots> \<longleftrightarrow> \<not> prefix (comps b) (comps t)" using strip_common_prefix [OF st] by simp
  finally show ?thesis using rel by blast
qed

text \<open>Below the base, \<open>Rel\<close> is the remaining components, and \<open>.\<close> when there are none.\<close>

lemma Rel_below:
  assumes "rooted t = rooted b" "comps t = comps b @ cs"
    and "rooted b \<or> comps b @ cs \<noteq> []"
  shows "Rel b t = Some (if cs = [] then ''.'' else join_with ''/'' cs)"
proof (cases "cs = []")
  case True
  with assms have "Clean t = Clean b" by (simp add: Clean_eq_iff)
  with True show ?thesis by (simp add: Rel_def)
next
  case False
  with assms have ne: "Clean t \<noteq> Clean b" by (simp add: Clean_eq_iff)
  have t: "elems (Clean t) = comps b @ cs" using assms by (simp add: elems_Clean)
  have b: "elems (if Clean b = ''.'' then '''' else Clean b) = comps b"
  proof (cases "Clean b = ''.''")
    case True
    have "comps b = comps (Clean b)" by simp
    also have "\<dots> = []" unfolding True by (simp add: comps_def)
    finally show ?thesis using True by (simp add: elems_def)
  next
    case nd: False
    then have "rooted b \<or> comps b \<noteq> []" by (auto simp: Clean_def render_def)
    with nd show ?thesis by (simp add: elems_Clean)
  qed
  show ?thesis using ne t b assms(1) False by (simp add: Rel_def strip_common_append)
qed

end
