(* ===== verification/PosixFS.thy ===== *)
theory PosixFS
  imports GoPath "HOL-Library.AList" "HOL-Library.List_Lexorder" "HOL-Library.Char_ord"
begin

text \<open>
  The operating-system state that the host daemon and the guest agent act on through Go's
  \<open>os\<close> and \<open>unix\<close> packages, and the calls the sources make.

  \<^item> A file system is an association list from physical paths (lists of components from
    the root) to entries: directories, symbolic links, and names of inodes.  Regular files
    are inodes, so that two hard links share their contents.
  \<^item> A call takes a path string and resolves it as the kernel does: component by component,
    through symbolic links, at most 40 of them (\<open>ELOOP\<close> after that).
  \<^item> Structural errors (missing parents, existing names, wrong kinds) are computed.  Every
    other reason for a call to fail (permissions, quota, I/O) is an arbitrary oracle
    \<open>fault\<close> that is asked at every call: the theorems hold for each of its answers.
  \<^item> A failing call has no effect; calls of other processes do not interleave.

  The second half is a small program logic: \<open>valid P m Q E\<close> says that running \<open>m\<close> from a
  state satisfying \<open>P\<close> ends in \<open>Q\<close> (with the result) or, on an error, in \<open>E\<close>; and
  \<open>confined w s s'\<close> says that nothing outside directory \<open>w\<close> differs between two states.
\<close>

section \<open>State\<close>

datatype errno = ENOENT | EEXIST | ENOTDIR | EISDIR | ELOOP | EPERM | EACCES | ENOTEMPTY
  | EINVAL | EBUSY | EAGAIN | ECHILD | EIO

record attr =
  perm :: uint32
  owner :: int
  grp :: int

datatype entry = DirE attr | LnkE string attr | RegE nat

record inode =
  contents :: string
  iattr :: attr
  mtime :: int

record os =
  ents :: "(string list \<times> entry) list"
  inodes :: "nat \<rightharpoonup> inode"
  next_ino :: nat
  cwd :: "string list"
  umask :: uint32
  ruid :: int
  rgid :: int
  euid :: int
  now :: int
  rand :: "nat \<Rightarrow> nat"
  tick :: nat
  fault :: "nat \<Rightarrow> errno option"

definition ent :: "os \<Rightarrow> string list \<Rightarrow> entry option" where
  "ent s p = map_of (ents s) p"

definition set_ent :: "string list \<Rightarrow> entry \<Rightarrow> os \<Rightarrow> os" where
  "set_ent p e s = s\<lparr>ents := AList.update p e (ents s)\<rparr>"

definition del_tree :: "string list \<Rightarrow> os \<Rightarrow> os" where
  "del_tree p s = s\<lparr>ents := filter (\<lambda>(q, e). \<not> prefix p q) (ents s)\<rparr>"

definition set_inode :: "nat \<Rightarrow> inode \<Rightarrow> os \<Rightarrow> os" where
  "set_inode i d s = s\<lparr>inodes := (inodes s)(i \<mapsto> d)\<rparr>"

fun is_dir :: "entry option \<Rightarrow> bool" where
  "is_dir (Some (DirE a)) = True"
| "is_dir _ = False"

fun is_lnk :: "entry option \<Rightarrow> bool" where
  "is_lnk (Some (LnkE t a)) = True"
| "is_lnk _ = False"

section \<open>Path resolution\<close>

definition pcomps :: "string \<Rightarrow> string list" where
  "pcomps p = filter (\<lambda>c. c \<noteq> '''') (Split slash p)"

text \<open>
  \<open>walk look follow n cur cs\<close>: the kernel's name lookup from directory \<open>cur\<close>, with \<open>n\<close>
  symbolic links left.  A missing last component resolves to the path where it would be
  created; \<open>follow\<close> says whether a symbolic link in last position is followed.
\<close>

function walk :: "(string list \<Rightarrow> entry option) \<Rightarrow> bool \<Rightarrow> nat \<Rightarrow> string list \<Rightarrow> string list
    \<Rightarrow> errno + string list" where
  "walk look follow n cur [] = Inr cur"
| "walk look follow n cur (c # cs) =
     (if c = ''.'' then walk look follow n cur cs
      else if c = ''..'' then walk look follow n (butlast cur) cs
      else (case look (cur @ [c]) of
              None \<Rightarrow> if cs = [] then Inr (cur @ [c]) else Inl ENOENT
            | Some (DirE a) \<Rightarrow> walk look follow n (cur @ [c]) cs
            | Some (RegE i) \<Rightarrow> if cs = [] then Inr (cur @ [c]) else Inl ENOTDIR
            | Some (LnkE t a) \<Rightarrow>
                if cs = [] \<and> \<not> follow then Inr (cur @ [c])
                else (case n of
                        0 \<Rightarrow> Inl ELOOP
                      | Suc m \<Rightarrow> walk look follow m (if rooted t then [] else cur) (pcomps t @ cs))))"
  by pat_completeness auto
termination
  by (relation "measures [\<lambda>(look, follow, n, cur, cs). n, \<lambda>(look, follow, n, cur, cs). length cs]") auto

declare walk.simps(2) [simp del]

definition max_symlinks :: nat where
  "max_symlinks = 40"

definition resolve :: "os \<Rightarrow> bool \<Rightarrow> string \<Rightarrow> errno + string list" where
  "resolve s follow p =
     (if p = '''' then Inl ENOENT
      else walk (ent s) follow max_symlinks (if rooted p then [] else cwd s) (pcomps p))"

section \<open>Programs over the state\<close>

type_synonym ('e, 'a) io = "os \<Rightarrow> ('e + 'a) \<times> os"

definition ret :: "'a \<Rightarrow> ('e, 'a) io" where
  "ret a s = (Inr a, s)"

definition throw :: "'e \<Rightarrow> ('e, 'a) io" where
  "throw e s = (Inl e, s)"

text \<open>\<open>if err != nil { return err }\<close>.\<close>

definition andThen :: "('e, 'a) io \<Rightarrow> ('a \<Rightarrow> ('e, 'b) io) \<Rightarrow> ('e, 'b) io" where
  "andThen m k s = (case m s of (Inl e, s') \<Rightarrow> (Inl e, s') | (Inr a, s') \<Rightarrow> k a s')"

text \<open>\<open>fmt.Errorf("...: %w", err)\<close>: the error is wrapped, the state kept.\<close>

definition wrap :: "('e \<Rightarrow> 'f) \<Rightarrow> ('e, 'a) io \<Rightarrow> ('f, 'a) io" where
  "wrap f m s = (case m s of (Inl e, s') \<Rightarrow> (Inl (f e), s') | (Inr a, s') \<Rightarrow> (Inr a, s'))"

text \<open>The error taken as a value, for code that inspects or drops it.\<close>

definition attempt :: "('e, 'a) io \<Rightarrow> ('f, 'e + 'a) io" where
  "attempt m s = (case m s of (r, s') \<Rightarrow> (Inr r, s'))"

definition reads :: "(os \<Rightarrow> 'a) \<Rightarrow> ('e, 'a) io" where
  "reads f s = (Inr (f s), s)"

text \<open>
  One system call.  \<open>ENOENT\<close> is always computed from the state: an oracle never hides an
  existing file.
\<close>

definition fault_errno :: "errno \<Rightarrow> errno" where
  "fault_errno e = (if e = ENOENT then EIO else e)"

definition sysop :: "(os \<Rightarrow> errno + 'a \<times> os) \<Rightarrow> (errno, 'a) io" where
  "sysop f s =
     (let s1 = s\<lparr>tick := Suc (tick s)\<rparr> in
      case fault s (tick s) of
        Some e \<Rightarrow> (Inl (fault_errno e), s1)
      | None \<Rightarrow> (case f s1 of Inl e \<Rightarrow> (Inl e, s1) | Inr (a, s2) \<Rightarrow> (Inr a, s2)))"

section \<open>System calls\<close>

definition Lstat :: "string \<Rightarrow> (errno, entry) io" where
  "Lstat p = sysop (\<lambda>s. case resolve s False p of Inl e \<Rightarrow> Inl e
     | Inr q \<Rightarrow> (case ent s q of None \<Rightarrow> Inl ENOENT | Some x \<Rightarrow> Inr (x, s)))"

definition Stat :: "string \<Rightarrow> (errno, entry) io" where
  "Stat p = sysop (\<lambda>s. case resolve s True p of Inl e \<Rightarrow> Inl e
     | Inr q \<Rightarrow> (case ent s q of None \<Rightarrow> Inl ENOENT | Some x \<Rightarrow> Inr (x, s)))"

definition new_attr :: "uint32 \<Rightarrow> os \<Rightarrow> attr" where
  "new_attr m s = \<lparr>perm = m AND NOT (umask s), owner = euid s, grp = rgid s\<rparr>"

definition Mkdir :: "string \<Rightarrow> uint32 \<Rightarrow> (errno, unit) io" where
  "Mkdir p m = sysop (\<lambda>s. case resolve s False p of Inl e \<Rightarrow> Inl e
     | Inr q \<Rightarrow> (case ent s q of
                   Some x \<Rightarrow> Inl EEXIST
                 | None \<Rightarrow> Inr ((), set_ent q (DirE (new_attr (m AND 511) s)) s)))"

definition new_file :: "string list \<Rightarrow> uint32 \<Rightarrow> os \<Rightarrow> nat \<times> os" where
  "new_file q m s =
     (let i = next_ino s in
      (i, (set_ent q (RegE i) (set_inode i \<lparr>contents = '''', iattr = new_attr m s, mtime = now s\<rparr> s))
            \<lparr>next_ino := Suc i\<rparr>))"

text \<open>\<open>open\<close> with \<open>O_WRONLY|O_CREAT|O_TRUNC|O_CLOEXEC|O_NOFOLLOW\<close>; the result is the inode.\<close>

definition OpenTruncNoFollow :: "string \<Rightarrow> uint32 \<Rightarrow> (errno, nat) io" where
  "OpenTruncNoFollow p m = sysop (\<lambda>s. case resolve s False p of Inl e \<Rightarrow> Inl e
     | Inr q \<Rightarrow> (case ent s q of
                   None \<Rightarrow> Inr (new_file q m s)
                 | Some (DirE a) \<Rightarrow> Inl EISDIR
                 | Some (LnkE t a) \<Rightarrow> Inl ELOOP
                 | Some (RegE i) \<Rightarrow> (case inodes s i of
                      None \<Rightarrow> Inl EIO
                    | Some d \<Rightarrow> Inr (i, set_inode i (d\<lparr>contents := '''', mtime := now s\<rparr>) s))))"

text \<open>\<open>write\<close> at the end of what was written so far, and \<open>close\<close>.\<close>

definition FWrite :: "nat \<Rightarrow> string \<Rightarrow> (errno, unit) io" where
  "FWrite i bs = sysop (\<lambda>s. case inodes s i of
       None \<Rightarrow> Inl EIO
     | Some d \<Rightarrow> Inr ((), set_inode i (d\<lparr>contents := contents d @ bs, mtime := now s\<rparr>) s))"

definition FClose :: "nat \<Rightarrow> (errno, unit) io" where
  "FClose i = sysop (\<lambda>s. Inr ((), s))"

definition upd_attr :: "string list \<Rightarrow> (attr \<Rightarrow> attr) \<Rightarrow> os \<Rightarrow> errno + os" where
  "upd_attr q f s = (case ent s q of
       None \<Rightarrow> Inl ENOENT
     | Some (DirE a) \<Rightarrow> Inr (set_ent q (DirE (f a)) s)
     | Some (LnkE t a) \<Rightarrow> Inr (set_ent q (LnkE t (f a)) s)
     | Some (RegE i) \<Rightarrow> (case inodes s i of None \<Rightarrow> Inl EIO
                         | Some d \<Rightarrow> Inr (set_inode i (d\<lparr>iattr := f (iattr d)\<rparr>) s)))"

definition chattr :: "bool \<Rightarrow> string \<Rightarrow> (attr \<Rightarrow> attr) \<Rightarrow> (errno, unit) io" where
  "chattr follow p f = sysop (\<lambda>s. case resolve s follow p of Inl e \<Rightarrow> Inl e
     | Inr q \<Rightarrow> (case upd_attr q f s of Inl e \<Rightarrow> Inl e | Inr s' \<Rightarrow> Inr ((), s')))"

definition Chmod :: "string \<Rightarrow> uint32 \<Rightarrow> (errno, unit) io" where
  "Chmod p m = chattr True p (\<lambda>a. a\<lparr>perm := m\<rparr>)"

definition own :: "int \<Rightarrow> int \<Rightarrow> attr \<Rightarrow> attr" where
  "own u g a = a\<lparr>owner := (if u = -1 then owner a else u), grp := (if g = -1 then grp a else g)\<rparr>"

definition Chown :: "string \<Rightarrow> int \<Rightarrow> int \<Rightarrow> (errno, unit) io" where
  "Chown p u g = chattr True p (own u g)"

definition Lchown :: "string \<Rightarrow> int \<Rightarrow> int \<Rightarrow> (errno, unit) io" where
  "Lchown p u g = chattr False p (own u g)"

definition Chtimes :: "string \<Rightarrow> int \<Rightarrow> (errno, unit) io" where
  "Chtimes p t = sysop (\<lambda>s. case resolve s True p of Inl e \<Rightarrow> Inl e
     | Inr q \<Rightarrow> (case ent s q of
                   None \<Rightarrow> Inl ENOENT
                 | Some (RegE i) \<Rightarrow> (case inodes s i of None \<Rightarrow> Inl EIO
                                     | Some d \<Rightarrow> Inr ((), set_inode i (d\<lparr>mtime := t\<rparr>) s))
                 | Some x \<Rightarrow> Inr ((), s)))"

definition Symlink :: "string \<Rightarrow> string \<Rightarrow> (errno, unit) io" where
  "Symlink t p = sysop (\<lambda>s. if t = '''' then Inl ENOENT else
     case resolve s False p of Inl e \<Rightarrow> Inl e
     | Inr q \<Rightarrow> (case ent s q of
                   Some x \<Rightarrow> Inl EEXIST
                 | None \<Rightarrow> Inr ((), set_ent q (LnkE t (new_attr 511 s)) s)))"

definition Link :: "string \<Rightarrow> string \<Rightarrow> (errno, unit) io" where
  "Link old p = sysop (\<lambda>s. case resolve s False old of Inl e \<Rightarrow> Inl e
     | Inr o1 \<Rightarrow> (case ent s o1 of
         None \<Rightarrow> Inl ENOENT
       | Some x \<Rightarrow> if is_dir (Some x) then Inl EPERM else
           (case resolve s False p of Inl e \<Rightarrow> Inl e
            | Inr q \<Rightarrow> (case ent s q of Some y \<Rightarrow> Inl EEXIST
                        | None \<Rightarrow> Inr ((), set_ent q x s)))))"

definition has_children :: "string list \<Rightarrow> os \<Rightarrow> bool" where
  "has_children q s = list_ex (\<lambda>(r, e). strict_prefix q r) (ents s)"

text \<open>\<open>os.Remove\<close>: \<open>unlink\<close>, then \<open>rmdir\<close>.\<close>

definition Remove :: "string \<Rightarrow> (errno, unit) io" where
  "Remove p = sysop (\<lambda>s. case resolve s False p of Inl e \<Rightarrow> Inl e
     | Inr q \<Rightarrow> (case ent s q of
         None \<Rightarrow> Inl ENOENT
       | Some x \<Rightarrow>
           if q = [] then Inl EBUSY
           else if is_dir (Some x) \<and> has_children q s then Inl ENOTEMPTY
           else Inr ((), del_tree q s)))"

text \<open>\<open>os.RemoveAll\<close>: a missing path is not an error, and the last component is not followed.\<close>

definition RemoveAll :: "string \<Rightarrow> (errno, unit) io" where
  "RemoveAll p = sysop (\<lambda>s. if p = '''' then Inr ((), s) else
     case resolve s False p of
       Inl e \<Rightarrow> if e = ENOENT then Inr ((), s) else Inl e
     | Inr q \<Rightarrow> if q = [] then Inl EBUSY else Inr ((), del_tree q s))"

definition child_names :: "string list \<Rightarrow> os \<Rightarrow> string list" where
  "child_names q s =
     sort (map (\<lambda>(r, e). last r) (filter (\<lambda>(r, e). r \<noteq> [] \<and> butlast r = q) (ents s)))"

definition ReadDir :: "string \<Rightarrow> (errno, (string \<times> entry) list) io" where
  "ReadDir p = sysop (\<lambda>s. case resolve s True p of Inl e \<Rightarrow> Inl e
     | Inr q \<Rightarrow> (case ent s q of
         None \<Rightarrow> Inl ENOENT
       | Some x \<Rightarrow> if is_dir (Some x)
                   then Inr (map (\<lambda>n. (n, the (ent s (q @ [n])))) (child_names q s), s)
                   else Inl ENOTDIR))"

definition ReadFile :: "string \<Rightarrow> (errno, string) io" where
  "ReadFile p = sysop (\<lambda>s. case resolve s True p of Inl e \<Rightarrow> Inl e
     | Inr q \<Rightarrow> (case ent s q of
         None \<Rightarrow> Inl ENOENT
       | Some (RegE i) \<Rightarrow> (case inodes s i of None \<Rightarrow> Inl EIO | Some d \<Rightarrow> Inr (contents d, s))
       | Some x \<Rightarrow> Inl EISDIR))"

text \<open>\<open>rename\<close>: the names below a renamed directory move with it.\<close>

definition move_key :: "string list \<Rightarrow> string list \<Rightarrow> string list \<Rightarrow> string list" where
  "move_key o1 q r = (if prefix o1 r then q @ drop (length o1) r else r)"

definition Rename :: "string \<Rightarrow> string \<Rightarrow> (errno, unit) io" where
  "Rename old p = sysop (\<lambda>s. case resolve s False old of Inl e \<Rightarrow> Inl e
     | Inr o1 \<Rightarrow> (case ent s o1 of
         None \<Rightarrow> Inl ENOENT
       | Some x \<Rightarrow> (case resolve s False p of Inl e \<Rightarrow> Inl e
         | Inr q \<Rightarrow>
             if q = o1 then Inr ((), s)
             else if o1 = [] \<or> q = [] then Inl EBUSY
             else if prefix o1 q then Inl EINVAL
             else if is_dir (ent s q) \<and> \<not> is_dir (Some x) then Inl EISDIR
             else if ent s q \<noteq> None \<and> \<not> is_dir (ent s q) \<and> is_dir (Some x) then Inl ENOTDIR
             else if is_dir (ent s q) \<and> has_children q s then Inl ENOTEMPTY
             else Inr ((), (del_tree q s)\<lparr>ents :=
                    map (\<lambda>(r, e). (move_key o1 q r, e)) (ents (del_tree q s))\<rparr>))))"

text \<open>
  \<open>open\<close> with \<open>O_CREATE|O_EXCL\<close>, and \<open>os.CreateTemp\<close>, which puts a random decimal number in the
  pattern and retries on a taken name.
\<close>

definition OpenExcl :: "string \<Rightarrow> uint32 \<Rightarrow> (errno, nat) io" where
  "OpenExcl p m = sysop (\<lambda>s. case resolve s False p of Inl e \<Rightarrow> Inl e
     | Inr q \<Rightarrow> (case ent s q of Some x \<Rightarrow> Inl EEXIST | None \<Rightarrow> Inr (new_file q m s)))"

fun CreateTemp_try :: "nat \<Rightarrow> string \<Rightarrow> string \<Rightarrow> string \<Rightarrow> (errno, string \<times> nat) io" where
  "CreateTemp_try 0 d pre suf = throw EEXIST"
| "CreateTemp_try (Suc n) d pre suf =
     andThen (reads (\<lambda>s. d @ slash # pre @ itoa (rand s (tick s)) @ suf)) (\<lambda>p.
     andThen (attempt (OpenExcl p 384)) (\<lambda>r.
       case r of
         Inr i \<Rightarrow> ret (p, i)
       | Inl e \<Rightarrow> if e = EEXIST then CreateTemp_try n d pre suf else throw e))"

definition CreateTemp :: "string \<Rightarrow> string \<Rightarrow> string \<Rightarrow> (errno, string \<times> nat) io" where
  "CreateTemp = CreateTemp_try 10000"

text \<open>
  \<open>os.MkdirAll\<close>: stop at a path that is a directory, otherwise make the parent first.  The
  recursion of the Go function is on the path with its last component cut off.
\<close>

definition unpcomps :: "bool \<Rightarrow> string list \<Rightarrow> string" where
  "unpcomps r cs = (if r then slash # join_with ''/'' cs else join_with ''/'' cs)"

function MkdirAll_rec :: "bool \<Rightarrow> string list \<Rightarrow> uint32 \<Rightarrow> (errno, unit) io" where
  "MkdirAll_rec r cs m =
     andThen (attempt (Stat (unpcomps r cs))) (\<lambda>st.
       case st of
         Inr x \<Rightarrow> if is_dir (Some x) then ret () else throw ENOTDIR
       | Inl e0 \<Rightarrow>
           andThen (if cs = [] \<or> (\<not> r \<and> butlast cs = []) then ret ()
                    else MkdirAll_rec r (butlast cs) m) (\<lambda>u.
           andThen (attempt (Mkdir (unpcomps r cs) m)) (\<lambda>mk.
             case mk of
               Inr u \<Rightarrow> ret ()
             | Inl e \<Rightarrow>
                 andThen (attempt (Lstat (unpcomps r cs))) (\<lambda>ls.
                   case ls of
                     Inr x \<Rightarrow> if is_dir (Some x) then ret () else throw e
                   | Inl e1 \<Rightarrow> throw e))))"
  by pat_completeness auto
termination
  by (relation "measure (\<lambda>(r, cs, m). length cs)") auto

declare MkdirAll_rec.simps [simp del]

definition MkdirAll :: "string \<Rightarrow> uint32 \<Rightarrow> (errno, unit) io" where
  "MkdirAll p = MkdirAll_rec (rooted p) (pcomps p)"

end
