(* ===== verification/PosixLogic.thy ===== *)
theory PosixLogic
  imports PosixFS
begin

text \<open>
  A program logic for the code that runs over \<open>PosixFS.os\<close>, the facts that reduce kernel
  path resolution to lexical components where no symbolic link is in the way, and the
  frame relation \<open>confined\<close>: what a program that stays inside a directory leaves unchanged.
\<close>

section \<open>Lookup of the primitive updates\<close>

lemma map_of_filter_key:
  "map_of (filter (\<lambda>(q, e). P q) xs) k = (if P k then map_of xs k else None)"
  by (induction xs) auto

lemma ent_set_ent [simp]: "ent (set_ent p e s) = (ent s)(p \<mapsto> e)"
  by (simp add: fun_eq_iff ent_def set_ent_def update_conv')

lemma ent_del_tree [simp]: "ent (del_tree p s) q = (if prefix p q then None else ent s q)"
  by (simp add: ent_def del_tree_def map_of_filter_key)

lemma ent_set_inode [simp]: "ent (set_inode i d s) = ent s"
  by (simp add: ent_def set_inode_def fun_eq_iff)

lemma ent_tick [simp]: "ent (s\<lparr>tick := t\<rparr>) = ent s"
  and ent_next [simp]: "ent (s\<lparr>next_ino := n\<rparr>) = ent s"
  by (simp_all add: ent_def fun_eq_iff)

lemma inodes_simps [simp]:
  "inodes (set_ent p e s) = inodes s" "inodes (del_tree p s) = inodes s"
  "inodes (set_inode i d s) = (inodes s)(i \<mapsto> d)"
  "next_ino (set_ent p e s) = next_ino s" "next_ino (del_tree p s) = next_ino s"
  "next_ino (set_inode i d s) = next_ino s"
  by (simp_all add: set_ent_def del_tree_def set_inode_def)

lemma resolve_tick [simp]: "resolve (s\<lparr>tick := t\<rparr>) f p = resolve s f p"
  by (simp add: resolve_def)

section \<open>Partial correctness with an error postcondition\<close>

definition valid :: "(os \<Rightarrow> bool) \<Rightarrow> ('e, 'a) io \<Rightarrow> ('a \<Rightarrow> os \<Rightarrow> bool) \<Rightarrow> (os \<Rightarrow> bool) \<Rightarrow> bool" where
  "valid P m Q E =
     (\<forall>s. P s \<longrightarrow> (case m s of (Inr a, s') \<Rightarrow> Q a s' | (Inl e, s') \<Rightarrow> E s'))"

lemma validI:
  "(\<And>s a s'. P s \<Longrightarrow> m s = (Inr a, s') \<Longrightarrow> Q a s') \<Longrightarrow>
   (\<And>s e s'. P s \<Longrightarrow> m s = (Inl e, s') \<Longrightarrow> E s') \<Longrightarrow> valid P m Q E"
  unfolding valid_def by (auto split: prod.splits sum.splits)

lemma valid_Inr: "valid P m Q E \<Longrightarrow> P s \<Longrightarrow> m s = (Inr a, s') \<Longrightarrow> Q a s'"
  and valid_Inl: "valid P m Q E \<Longrightarrow> P s \<Longrightarrow> m s = (Inl e, s') \<Longrightarrow> E s'"
  unfolding valid_def by (fastforce split: prod.splits)+

lemma andThen_ret: "andThen (ret a) k = k a"
  by (simp add: fun_eq_iff andThen_def ret_def)

lemma valid_conseq:
  "valid P m Q E \<Longrightarrow> (\<And>s. P' s \<Longrightarrow> P s) \<Longrightarrow> (\<And>a s. Q a s \<Longrightarrow> Q' a s) \<Longrightarrow> (\<And>s. E s \<Longrightarrow> E' s)
    \<Longrightarrow> valid P' m Q' E'"
  unfolding valid_def by (fastforce split: prod.splits sum.splits)

lemma valid_pre: "valid P m Q E \<Longrightarrow> (\<And>s. P' s \<Longrightarrow> P s) \<Longrightarrow> valid P' m Q E"
  by (rule valid_conseq)

lemma valid_ret [io_rules]: "(\<And>s. P s \<Longrightarrow> Q a s) \<Longrightarrow> valid P (ret a) Q E"
  by (simp add: valid_def ret_def)

lemma valid_throw [io_rules]: "(\<And>s. P s \<Longrightarrow> E s) \<Longrightarrow> valid P (throw e) Q E"
  by (simp add: valid_def throw_def)

lemma valid_andThen [io_rules]:
  "valid P m Q E \<Longrightarrow> (\<And>a. valid (Q a) (k a) R E) \<Longrightarrow> valid P (andThen m k) R E"
  unfolding valid_def andThen_def by (fastforce split: prod.splits sum.splits)

lemma valid_wrap [io_rules]: "valid P m Q E \<Longrightarrow> valid P (wrap f m) Q E"
  unfolding valid_def wrap_def by (fastforce split: prod.splits sum.splits)

lemma valid_attempt [io_rules]:
  "valid P m (\<lambda>a. Q (Inr a)) (\<lambda>s. \<forall>e. Q (Inl e) s) \<Longrightarrow> valid P (attempt m) Q E"
  unfolding valid_def attempt_def by (fastforce split: prod.splits sum.splits)

lemma valid_reads [io_rules]: "(\<And>s. P s \<Longrightarrow> Q (f s) s) \<Longrightarrow> valid P (reads f) Q E"
  by (simp add: valid_def reads_def)

lemma valid_if [io_rules]:
  "(b \<Longrightarrow> valid P m Q E) \<Longrightarrow> (\<not> b \<Longrightarrow> valid P n Q E) \<Longrightarrow> valid P (if b then m else n) Q E"
  by simp

lemma valid_sum [io_rules]:
  "(\<And>a. r = Inl a \<Longrightarrow> valid P (m a) Q E) \<Longrightarrow> (\<And>b. r = Inr b \<Longrightarrow> valid P (n b) Q E)
    \<Longrightarrow> valid P (case r of Inl a \<Rightarrow> m a | Inr b \<Rightarrow> n b) Q E"
  by (cases r) auto

lemma valid_option [io_rules]:
  "(r = None \<Longrightarrow> valid P m Q E) \<Longrightarrow> (\<And>b. r = Some b \<Longrightarrow> valid P (n b) Q E)
    \<Longrightarrow> valid P (case r of None \<Rightarrow> m | Some b \<Rightarrow> n b) Q E"
  by (cases r) auto

lemma valid_prod [io_rules]:
  "(\<And>a b. r = (a, b) \<Longrightarrow> valid P (m a b) Q E) \<Longrightarrow> valid P (case r of (a, b) \<Rightarrow> m a b) Q E"
  by (cases r) auto

lemma valid_sysop:
  assumes "\<And>s. P s \<Longrightarrow> E (s\<lparr>tick := Suc (tick s)\<rparr>)"
    and "\<And>s a s'. P s \<Longrightarrow> f (s\<lparr>tick := Suc (tick s)\<rparr>) = Inr (a, s') \<Longrightarrow> Q a s'"
  shows "valid P (sysop f) Q E"
  using assms unfolding valid_def sysop_def Let_def
  by (fastforce split: option.splits sum.splits prod.splits)

text \<open>A condition that does not look at the call counter.\<close>

definition stable :: "(os \<Rightarrow> bool) \<Rightarrow> bool" where
  "stable P = (\<forall>s t. P (s\<lparr>tick := t\<rparr>) = P s)"

lemma stable_tick: "stable P \<Longrightarrow> P s \<Longrightarrow> P (s\<lparr>tick := t\<rparr>)"
  by (simp add: stable_def)

lemma stable_conj [intro]: "stable P \<Longrightarrow> stable Q \<Longrightarrow> stable (\<lambda>s. P s \<and> Q s)"
  by (simp add: stable_def)

section \<open>Resolution without symbolic links\<close>

text \<open>\<open>real_dir look p\<close>: every prefix of \<open>p\<close> is a directory, none a symbolic link.\<close>

definition real_dir :: "(string list \<Rightarrow> entry option) \<Rightarrow> string list \<Rightarrow> bool" where
  "real_dir look p = list_all (\<lambda>q. is_dir (look q)) (prefixes p)"

lemma real_dir_iff: "real_dir look p \<longleftrightarrow> (\<forall>q. prefix q p \<longrightarrow> is_dir (look q))"
  by (auto simp: real_dir_def list_all_iff in_set_prefixes)

lemma real_dir_prefix: "real_dir look p \<Longrightarrow> prefix q p \<Longrightarrow> real_dir look q"
  by (auto simp: real_dir_iff intro: prefix_order.trans)

lemma real_dir_snoc: "real_dir look (p @ [c]) \<longleftrightarrow> real_dir look p \<and> is_dir (look (p @ [c]))"
  by (auto simp: real_dir_iff)

lemma is_dir_not_lnk: "is_dir x \<Longrightarrow> \<not> is_lnk x"
  by (cases x rule: is_dir.cases) auto

lemma walk_dirs:
  "list_all plain ds \<Longrightarrow> (\<And>q. prefix q ds \<Longrightarrow> q \<noteq> [] \<Longrightarrow> is_dir (look (cur @ q))) \<Longrightarrow>
     walk look f n cur (ds @ cs) = walk look f n (cur @ ds) cs"
proof (induction ds arbitrary: cur)
  case (Cons d ds)
  have "is_dir (look (cur @ [d]))" using Cons.prems(2) [of "[d]"] by simp
  then obtain a where a: "look (cur @ [d]) = Some (DirE a)"
    by (cases "look (cur @ [d])" rule: is_dir.cases) auto
  have "is_dir (look ((cur @ [d]) @ q))" if "prefix q ds" "q \<noteq> []" for q
    using Cons.prems(2) [of "d # q"] that by simp
  with Cons a show ?case by (simp add: walk.simps(2) plain_not_dot plain_not_dotdot)
qed simp

lemma walk_last:
  "plain c \<Longrightarrow> is_lnk (look (cur @ [c])) \<longrightarrow> \<not> f \<Longrightarrow> walk look f n cur [c] = Inr (cur @ [c])"
  by (cases "look (cur @ [c])" rule: is_lnk.cases)
    (auto simp: walk.simps(2) plain_not_dot plain_not_dotdot split: option.splits entry.splits)

lemma pcomps_render: "list_all plain cs \<Longrightarrow> pcomps (render True cs) = cs"
proof (cases "cs = []")
  case False
  assume cs: "list_all plain cs"
  then have "Split slash (join_with ''/'' cs) = cs"
    using False by (intro Split_join_normal [of True]) (auto simp: normal_rooted)
  moreover have "filter (\<lambda>c. c \<noteq> '''') cs = cs"
    using cs by (induction cs) (auto simp: plain_not_Nil)
  ultimately show ?thesis by (simp add: pcomps_def render_def)
qed (simp add: pcomps_def render_def)

lemma pcomps_cleaned: "cleaned p \<Longrightarrow> rooted p \<Longrightarrow> pcomps p = comps p"
  using pcomps_render [OF comps_rooted_plain [of p]] cleaned_render [of p] by simp

lemma resolve_real:
  assumes p: "cleaned p" "rooted p" and d: "real_dir (ent s) (butlast (comps p))"
    and l: "is_lnk (ent s (comps p)) \<longrightarrow> \<not> f"
  shows "resolve s f p = Inr (comps p)"
proof -
  have pl: "list_all plain (comps p)" using p(2) by (rule comps_rooted_plain)
  have "p \<noteq> ''''" using p(1) by (rule cleaned_nonempty)
  then have r: "resolve s f p = walk (ent s) f max_symlinks [] (comps p)"
    using p by (simp add: resolve_def pcomps_cleaned)
  show ?thesis
  proof (cases "comps p" rule: rev_cases)
    case (snoc ds c)
    with pl d l r walk_dirs [of ds "ent s" "[]" f max_symlinks "[c]"] show ?thesis
      by (simp add: real_dir_iff walk_last)
  qed (simp add: r)
qed

text \<open>\<open>solid look p\<close>: every prefix of \<open>p\<close> exists and none is a symbolic link.\<close>

fun is_solid :: "entry option \<Rightarrow> bool" where
  "is_solid (Some (LnkE t a)) = False"
| "is_solid (Some x) = True"
| "is_solid None = False"

definition solid :: "(string list \<Rightarrow> entry option) \<Rightarrow> string list \<Rightarrow> bool" where
  "solid look p = list_all (\<lambda>q. is_solid (look q)) (prefixes p)"

lemma is_solid_iff: "is_solid x \<longleftrightarrow> x \<noteq> None \<and> \<not> is_lnk x"
  by (cases x rule: is_solid.cases) auto

lemma is_dir_solid: "is_dir x \<Longrightarrow> is_solid x"
  by (cases x rule: is_dir.cases) auto

lemma solid_iff: "solid look p \<longleftrightarrow> (\<forall>q. prefix q p \<longrightarrow> is_solid (look q))"
  by (auto simp: solid_def list_all_iff in_set_prefixes)

lemma solid_prefix: "solid look p \<Longrightarrow> prefix q p \<Longrightarrow> solid look q"
  by (auto simp: solid_iff intro: prefix_order.trans)

lemma solid_snoc: "solid look (p @ [c]) \<longleftrightarrow> solid look p \<and> is_solid (look (p @ [c]))"
  by (auto simp: solid_iff)

lemma real_dir_solid: "real_dir look p \<Longrightarrow> solid look p"
  by (simp add: real_dir_iff solid_iff is_dir_solid)

text \<open>\<open>nolinks look p\<close>: no prefix of \<open>p\<close> is a symbolic link; some may be missing.\<close>

definition nolinks :: "(string list \<Rightarrow> entry option) \<Rightarrow> string list \<Rightarrow> bool" where
  "nolinks look p = list_all (\<lambda>q. \<not> is_lnk (look q)) (prefixes p)"

lemma nolinks_iff: "nolinks look p \<longleftrightarrow> (\<forall>q. prefix q p \<longrightarrow> \<not> is_lnk (look q))"
  by (auto simp: nolinks_def list_all_iff in_set_prefixes)

lemma nolinks_prefix: "nolinks look p \<Longrightarrow> prefix q p \<Longrightarrow> nolinks look q"
  by (auto simp: nolinks_iff intro: prefix_order.trans)

lemma nolinks_snoc: "nolinks look (p @ [c]) \<longleftrightarrow> nolinks look p \<and> \<not> is_lnk (look (p @ [c]))"
  by (auto simp: nolinks_iff)

lemma solid_nolinks: "solid look p \<Longrightarrow> nolinks look p"
  by (simp add: solid_iff nolinks_iff is_solid_iff)

text \<open>Along a path with no symbolic link, a walk fails or ends at the path itself.\<close>

lemma walk_nolink:
  assumes "list_all plain cs" "walk look f n cur cs = Inr q"
    and "\<And>d. strict_prefix d cs \<Longrightarrow> d \<noteq> [] \<Longrightarrow> \<not> is_lnk (look (cur @ d))"
    and "is_lnk (look (cur @ cs)) \<longrightarrow> \<not> f"
  shows "q = cur @ cs"
  using assms
proof (induction cs arbitrary: cur)
  case (Cons c cs)
  have c: "c \<noteq> ''.''" "c \<noteq> ''..''" using Cons.prems(1) by (auto dest: plain_not_dot plain_not_dotdot)
  show ?case
  proof (cases "cs = []")
    case True
    with Cons.prems(1,2,4) walk_last [of c look cur f n] show ?thesis by simp
  next
    case False
    then have "strict_prefix [c] (c # cs)" by (simp add: strict_prefix_def)
    then have "\<not> is_lnk (look (cur @ [c]))" using Cons.prems(3) by blast
    with Cons.prems(2) False c have "walk look f n (cur @ [c]) cs = Inr q"
      by (cases "look (cur @ [c])" rule: is_lnk.cases) (auto simp: walk.simps(2) split: if_splits)
    moreover have "\<not> is_lnk (look ((cur @ [c]) @ d))" if "strict_prefix d cs" "d \<noteq> []" for d
      using Cons.prems(3) [of "c # d"] that by (simp add: strict_prefix_def)
    ultimately show ?thesis using Cons.IH [of "cur @ [c]"] Cons.prems(1,4) by simp
  qed
qed simp

lemma strict_prefix_butlast: "strict_prefix d cs \<Longrightarrow> prefix d (butlast cs)"
  by (cases cs rule: rev_cases) (auto simp: strict_prefix_def)

lemma resolve_nolinks:
  assumes p: "cleaned p" "rooted p" and d: "nolinks (ent s) (butlast (comps p))"
    and l: "is_lnk (ent s (comps p)) \<longrightarrow> \<not> f" and q: "resolve s f p = Inr q"
  shows "q = comps p"
proof -
  have "p \<noteq> ''''" using p(1) by (rule cleaned_nonempty)
  then have "walk (ent s) f max_symlinks [] (comps p) = Inr q"
    using p q by (simp add: resolve_def pcomps_cleaned)
  moreover have "\<not> is_lnk (ent s ([] @ d))" if "strict_prefix d (comps p)" for d
    using d strict_prefix_butlast [OF that] by (simp add: nolinks_iff)
  ultimately show ?thesis
    using walk_nolink [of "comps p" "ent s" f max_symlinks "[]" q] comps_rooted_plain [OF p(2)] l by simp
qed

section \<open>Staying inside a directory\<close>

text \<open>The inodes that have a name at or below \<open>w\<close>.\<close>

definition inos :: "string list \<Rightarrow> os \<Rightarrow> nat set" where
  "inos w s = {i. \<exists>p. prefix w p \<and> ent s p = Some (RegE i)}"

definition bounded :: "os \<Rightarrow> bool" where
  "bounded s = (\<forall>p i. ent s p = Some (RegE i) \<longrightarrow> i < next_ino s)"

text \<open>
  Every name outside \<open>w\<close> is as before, and so is every inode that had no name inside \<open>w\<close>;
  inside \<open>w\<close> there are no names of such inodes afterwards either.
\<close>

definition confined :: "string list \<Rightarrow> os \<Rightarrow> os \<Rightarrow> bool" where
  "confined w s s' =
     ((\<forall>p. \<not> prefix w p \<longrightarrow> ent s' p = ent s p) \<and>
      (\<forall>i < next_ino s. i \<notin> inos w s \<longrightarrow> inodes s' i = inodes s i) \<and>
      inos w s' \<subseteq> inos w s \<union> {next_ino s..} \<and> next_ino s \<le> next_ino s')"

lemma confined_refl [simp]: "confined w s s"
  by (simp add: confined_def)

lemma confined_trans: "confined w s s' \<Longrightarrow> confined w s' s'' \<Longrightarrow> confined w s s''"
proof -
  assume a: "confined w s s'" and b: "confined w s' s''"
  have out: "ent s'' p = ent s p" if "\<not> prefix w p" for p
    using a b that by (simp add: confined_def)
  have sub: "inos w s' \<subseteq> inos w s \<union> {next_ino s..}" "inos w s'' \<subseteq> inos w s' \<union> {next_ino s'..}"
    and le: "next_ino s \<le> next_ino s'" "next_ino s' \<le> next_ino s''"
    using a b by (simp_all add: confined_def)
  have ino: "inodes s'' i = inodes s i" if i: "i < next_ino s" "i \<notin> inos w s" for i
  proof -
    have "i \<notin> inos w s'" and "i < next_ino s'" using i sub(1) le(1) by auto
    with a b i show ?thesis by (simp add: confined_def)
  qed
  have "inos w s'' \<subseteq> inos w s \<union> {next_ino s..}" and "next_ino s \<le> next_ino s''"
    using sub le by auto
  with out ino show ?thesis by (simp add: confined_def)
qed

lemma inos_tick [simp]: "inos w (s\<lparr>tick := t\<rparr>) = inos w s"
  by (simp add: inos_def)

lemma confined_tick [simp]:
  "confined w s (s'\<lparr>tick := t\<rparr>) = confined w s s'" "confined w (s\<lparr>tick := t\<rparr>) s' = confined w s s'"
  by (simp_all add: confined_def)

lemma bounded_tick [simp]: "bounded (s\<lparr>tick := t\<rparr>) = bounded s"
  by (simp add: bounded_def)

section \<open>What one call can change\<close>

text \<open>
  A call that touches only the entry at \<open>q\<close>, its inode, or a fresh inode; the flag says
  whether it may make a symbolic link there.
\<close>

definition gentle :: "bool \<Rightarrow> string list \<Rightarrow> os \<Rightarrow> os \<Rightarrow> bool" where
  "gentle l q s s' =
     ((l \<or> (ent s q \<noteq> None \<longrightarrow> ent s' q \<noteq> None) \<and> (is_lnk (ent s' q) \<longrightarrow> is_lnk (ent s q))) \<and>
      (\<forall>p. p \<noteq> q \<longrightarrow> ent s' p = ent s p) \<and> (is_dir (ent s q) \<longrightarrow> is_dir (ent s' q)) \<and>
      (\<forall>i. ent s' q = Some (RegE i) \<longrightarrow>
             ent s q = Some (RegE i) \<or> i = next_ino s \<and> next_ino s' = Suc i) \<and>
      (\<forall>i. inodes s' i \<noteq> inodes s i \<longrightarrow> ent s q = Some (RegE i) \<or> i = next_ino s) \<and>
      next_ino s \<le> next_ino s')"

lemma gentle_tick [simp]:
  "gentle l q s (s'\<lparr>tick := t\<rparr>) = gentle l q s s'" "gentle l q (s\<lparr>tick := t\<rparr>) s' = gentle l q s s'"
  by (simp_all add: gentle_def)

lemma gentle_confined:
  assumes g: "gentle l q s s'" and w: "prefix w q"
  shows "confined w s s'"
proof -
  have ent: "ent s' p = ent s p" if "p \<noteq> q" for p using g that by (simp add: gentle_def)
  have out: "ent s' p = ent s p" if "\<not> prefix w p" for p
    by (rule ent) (use w that in auto)
  have ino: "inodes s' i = inodes s i" if "i < next_ino s" "i \<notin> inos w s" for i
  proof (rule ccontr)
    assume "inodes s' i \<noteq> inodes s i"
    then have "ent s q = Some (RegE i) \<or> i = next_ino s" using g unfolding gentle_def by blast
    with that w show False by (auto simp: inos_def)
  qed
  have "inos w s' \<subseteq> inos w s \<union> {next_ino s..}"
  proof
    fix i assume "i \<in> inos w s'"
    then obtain p where p: "prefix w p" "ent s' p = Some (RegE i)" by (auto simp: inos_def)
    show "i \<in> inos w s \<union> {next_ino s..}"
    proof (cases "p = q")
      case True
      with p g have "ent s q = Some (RegE i) \<or> i = next_ino s" unfolding gentle_def by blast
      with w show ?thesis by (auto simp: inos_def)
    next
      case False
      with p ent show ?thesis by (auto simp: inos_def)
    qed
  qed
  moreover have "next_ino s \<le> next_ino s'" using g by (simp add: gentle_def)
  ultimately show ?thesis using out ino by (simp add: confined_def)
qed

lemma gentle_bounded:
  assumes "gentle l q s s'" "bounded s"
  shows "bounded s'"
  unfolding bounded_def
proof (intro allI impI)
  fix p i assume e: "ent s' p = Some (RegE i)"
  have "next_ino s \<le> next_ino s'" using assms(1) by (simp add: gentle_def)
  moreover have "ent s p = Some (RegE i) \<or> i = next_ino s \<and> next_ino s' = Suc i"
    using assms(1) e unfolding gentle_def by metis
  ultimately show "i < next_ino s'" using assms(2) unfolding bounded_def by fastforce
qed

lemma gentle_real: "gentle l q s s' \<Longrightarrow> real_dir (ent s) d \<Longrightarrow> real_dir (ent s') d"
  unfolding gentle_def real_dir_iff by metis

lemma gentle_solid: "gentle False q s s' \<Longrightarrow> solid (ent s) d \<Longrightarrow> solid (ent s') d"
  unfolding gentle_def solid_iff is_solid_iff by metis

lemma gentle_nolinks: "gentle False q s s' \<Longrightarrow> nolinks (ent s) d \<Longrightarrow> nolinks (ent s') d"
  unfolding gentle_def nolinks_iff by metis

lemma gentle_weaken: "gentle l q s s' \<Longrightarrow> gentle True q s s'"
  by (auto simp: gentle_def)

text \<open>\<open>grown\<close>: directories were made where nothing was, and nothing else happened.\<close>

definition grown :: "os \<Rightarrow> os \<Rightarrow> bool" where
  "grown s s' =
     ((\<forall>p. ent s' p = ent s p \<or> ent s p = None \<and> is_dir (ent s' p)) \<and>
      inodes s' = inodes s \<and> next_ino s' = next_ino s)"

lemma grown_refl [simp]: "grown s s"
  by (simp add: grown_def)

lemma grown_trans: "grown s s' \<Longrightarrow> grown s' s'' \<Longrightarrow> grown s s''"
  unfolding grown_def by metis

lemma grown_tick [simp]:
  "grown s (s'\<lparr>tick := t\<rparr>) = grown s s'" "grown (s\<lparr>tick := t\<rparr>) s' = grown s s'"
  by (simp_all add: grown_def)

lemma grown_real: "grown s s' \<Longrightarrow> real_dir (ent s) d \<Longrightarrow> real_dir (ent s') d"
  unfolding grown_def real_dir_iff by (metis is_dir.simps(2))

lemma grown_solid: "grown s s' \<Longrightarrow> solid (ent s) d \<Longrightarrow> solid (ent s') d"
  unfolding grown_def solid_iff is_solid_iff by (metis is_dir_not_lnk is_dir.simps(2))

lemma grown_bounded: "grown s s' \<Longrightarrow> bounded s \<Longrightarrow> bounded s'"
  unfolding grown_def bounded_def by (metis is_dir.simps(4))

section \<open>The system calls\<close>

definition readonly :: "('e, 'a) io \<Rightarrow> bool" where
  "readonly m = (\<forall>s r s'. m s = (r, s') \<longrightarrow> (\<exists>t. s' = s\<lparr>tick := t\<rparr>))"

definition touches :: "bool \<Rightarrow> bool \<Rightarrow> string \<Rightarrow> ('e, 'a) io \<Rightarrow> bool" where
  "touches l f p m =
     (\<forall>s r s'. m s = (r, s') \<longrightarrow>
        (\<exists>t. s' = s\<lparr>tick := t\<rparr>) \<or> (\<exists>q. resolve s f p = Inr q \<and> gentle l q s s'))"

lemma readonly_sysop:
  "(\<And>s a s'. f s = Inr (a, s') \<Longrightarrow> s' = s) \<Longrightarrow> readonly (sysop f)"
  unfolding readonly_def sysop_def Let_def
  by (fastforce split: option.splits sum.splits prod.splits)

lemma same_tick: "\<exists>t. s = s\<lparr>tick := t\<rparr>" for s :: os
  by (rule exI [of _ "tick s"]) simp

lemma readonly_ret: "readonly (ret a)"
  and readonly_throw: "readonly (throw e)"
  by (auto simp: readonly_def ret_def throw_def same_tick)

lemma readonly_andThen: "readonly m \<Longrightarrow> (\<And>a. readonly (k a)) \<Longrightarrow> readonly (andThen m k)"
  unfolding readonly_def andThen_def by (fastforce split: prod.splits sum.splits)

lemma readonly_wrap: "readonly m \<Longrightarrow> readonly (wrap f m)"
  unfolding readonly_def wrap_def by (fastforce split: prod.splits sum.splits)

lemma valid_frame:
  assumes "valid P m Q E" "readonly m" "stable R"
  shows "valid (\<lambda>s. P s \<and> R s) m (\<lambda>a s. Q a s \<and> R s) E"
proof (rule validI)
  fix s a s' assume p: "P s \<and> R s" and m: "m s = (Inr a, s')"
  obtain t where "s' = s\<lparr>tick := t\<rparr>" using assms(2) m unfolding readonly_def by blast
  with p m assms(1,3) show "Q a s' \<and> R s'" by (auto dest: valid_Inr stable_tick)
qed (use assms(1) in \<open>auto dest: valid_Inl\<close>)

lemma touches_sysop:
  assumes "\<And>s a s'. g s = Inr (a, s') \<Longrightarrow> \<exists>q. resolve s f p = Inr q \<and> gentle l q s s'"
  shows "touches l f p (sysop g)"
  unfolding touches_def
proof (intro allI impI)
  fix s r s' assume "sysop g s = (r, s')"
  then have "s' = s\<lparr>tick := Suc (tick s)\<rparr> \<or> (\<exists>a. g (s\<lparr>tick := Suc (tick s)\<rparr>) = Inr (a, s'))"
    by (auto simp: sysop_def Let_def split: option.splits sum.splits prod.splits)
  then show "(\<exists>t. s' = s\<lparr>tick := t\<rparr>) \<or> (\<exists>q. resolve s f p = Inr q \<and> gentle l q s s')"
    using assms [of "s\<lparr>tick := Suc (tick s)\<rparr>"] by auto
qed

lemma readonly_Lstat [io_rules]: "readonly (Lstat p)"
  and readonly_Stat [io_rules]: "readonly (Stat p)"
  and readonly_ReadDir [io_rules]: "readonly (ReadDir p)"
  and readonly_ReadFile [io_rules]: "readonly (ReadFile p)"
  and readonly_FClose [io_rules]: "readonly (FClose i)"
  unfolding Lstat_def Stat_def ReadDir_def ReadFile_def FClose_def
  by (rule readonly_sysop; auto split: sum.splits option.splits entry.splits if_splits)+

lemma gentle_new_dir: "ent s q = None \<Longrightarrow> gentle l q s (set_ent q (DirE a) s)"
  and gentle_new_lnk: "ent s q = None \<Longrightarrow> gentle True q s (set_ent q (LnkE t a) s)"
  and gentle_new_file: "ent s q = None \<Longrightarrow> gentle l q s (snd (new_file q m s))"
  and gentle_set_inode: "ent s q = Some (RegE i) \<Longrightarrow> gentle l q s (set_inode i d s)"
  by (auto simp: gentle_def new_file_def Let_def)

lemma gentle_upd_attr: "upd_attr q f s = Inr s' \<Longrightarrow> gentle l q s s'"
  by (auto simp: upd_attr_def gentle_def split: option.splits entry.splits if_splits)

lemmas gentle_intros = gentle_new_dir gentle_new_lnk gentle_new_file gentle_set_inode gentle_upd_attr

lemma touches_Mkdir [io_rules]: "touches l False p (Mkdir p m)"
  unfolding Mkdir_def
  by (rule touches_sysop) (auto split: sum.splits option.splits intro: gentle_intros)

lemma new_file_snd: "new_file q m s = (i, s') \<Longrightarrow> s' = snd (new_file q m s)"
  by simp

lemma touches_OpenTruncNoFollow [io_rules]: "touches l False p (OpenTruncNoFollow p m)"
  unfolding OpenTruncNoFollow_def
  by (rule touches_sysop)
    (auto split: sum.splits option.splits entry.splits intro: gentle_intros dest!: new_file_snd)

lemma touches_OpenExcl [io_rules]: "touches l False p (OpenExcl p m)"
  unfolding OpenExcl_def
  by (rule touches_sysop)
    (auto split: sum.splits option.splits entry.splits intro: gentle_intros dest!: new_file_snd)

lemma touches_chattr [io_rules]: "touches l f p (chattr f p g)"
  unfolding chattr_def
  by (rule touches_sysop) (auto split: sum.splits intro: gentle_intros)

lemma touches_chown [io_rules]:
  "touches l True p (Chmod p m)" "touches l True p (Chown p u g)" "touches l False p (Lchown p u g)"
  unfolding Chmod_def Chown_def Lchown_def by (rule touches_chattr)+

lemma touches_Chtimes [io_rules]: "touches l True p (Chtimes p t)"
  unfolding Chtimes_def
  by (rule touches_sysop)
    (auto split: sum.splits option.splits entry.splits if_splits simp: gentle_def)

lemma touches_Symlink [io_rules]: "touches True False p (Symlink t p)"
  unfolding Symlink_def
  by (rule touches_sysop)
    (auto split: sum.splits option.splits entry.splits if_splits intro: gentle_intros)

section \<open>Rules for the calls\<close>

lemma valid_readonly:
  "readonly m \<Longrightarrow> stable P \<Longrightarrow> valid P m (\<lambda>_. P) P"
  by (rule validI; unfold readonly_def; fastforce simp: stable_def)

lemma valid_Lstat:
  assumes "stable P"
  shows "valid P (Lstat p)
    (\<lambda>x s. P s \<and> (\<exists>q. resolve s False p = Inr q \<and> ent s q = Some x)) P"
  unfolding Lstat_def
  by (rule valid_sysop) (use assms in \<open>auto simp: stable_def split: sum.splits option.splits\<close>)

lemma valid_Stat:
  assumes "stable P"
  shows "valid P (Stat p)
    (\<lambda>x s. P s \<and> (\<exists>q. resolve s True p = Inr q \<and> ent s q = Some x)) P"
  unfolding Stat_def
  by (rule valid_sysop) (use assms in \<open>auto simp: stable_def split: sum.splits option.splits\<close>)

text \<open>The state of a program that works inside \<open>w\<close>, started in \<open>s0\<close>.\<close>

definition inside :: "string list \<Rightarrow> os \<Rightarrow> os \<Rightarrow> bool" where
  "inside w s0 s = (confined w s0 s \<and> bounded s \<and> solid (ent s) w)"

lemma stable_inside [simp, intro]: "stable (inside w s0)"
  by (simp add: stable_def inside_def)

lemma stable_ent [simp, intro]: "stable (\<lambda>s. F (ent s))"
  by (simp add: stable_def)

lemma inside_gentle: "inside w s0 s \<Longrightarrow> gentle False q s s' \<Longrightarrow> prefix w q \<Longrightarrow> inside w s0 s'"
  unfolding inside_def by (metis confined_trans gentle_confined gentle_bounded gentle_solid)

lemma valid_touches:
  assumes "touches False f p m"
  shows "valid (\<lambda>s. inside w s0 s \<and> (\<forall>q. resolve s f p = Inr q \<longrightarrow> prefix w q)) m
    (\<lambda>_. inside w s0) (inside w s0)"
proof -
  have "inside w s0 s'"
    if "inside w s0 s" "\<forall>q. resolve s f p = Inr q \<longrightarrow> prefix w q" "m s = (r, s')" for s r s'
    using assms that stable_tick [OF stable_inside] inside_gentle unfolding touches_def by metis
  then show ?thesis by (intro validI) auto
qed

text \<open>A target at or below \<open>w\<close> with no symbolic link on the way to it.\<close>

definition reachable_in :: "string list \<Rightarrow> string \<Rightarrow> (string list \<Rightarrow> entry option) \<Rightarrow> bool" where
  "reachable_in w p look =
     (cleaned p \<and> rooted p \<and> prefix w (comps p) \<and> nolinks look (butlast (comps p)))"

lemma reachable_resolve:
  "reachable_in w p (ent s) \<Longrightarrow> is_lnk (ent s (comps p)) \<longrightarrow> \<not> f \<Longrightarrow> resolve s f p = Inr q \<Longrightarrow> q = comps p"
  unfolding reachable_in_def using resolve_nolinks [of p s f q] by blast

lemma reachable_gentle:
  "reachable_in w p (ent s) \<Longrightarrow> gentle False q s s' \<Longrightarrow> reachable_in w p (ent s')"
  unfolding reachable_in_def using gentle_nolinks by blast

lemma valid_touches_reachable:
  assumes "touches False f p m"
  shows "valid (\<lambda>s. inside w s0 s \<and> reachable_in w p (ent s) \<and> (is_lnk (ent s (comps p)) \<longrightarrow> \<not> f)) m
    (\<lambda>_ s. inside w s0 s \<and> reachable_in w p (ent s)) (\<lambda>s. inside w s0 s \<and> reachable_in w p (ent s))"
proof -
  have "inside w s0 s' \<and> reachable_in w p (ent s')"
    if "inside w s0 s" and r: "reachable_in w p (ent s)" "is_lnk (ent s (comps p)) \<longrightarrow> \<not> f"
      and "m s = (r, s')" for s r s'
  proof -
    have q: "q = comps p" if "resolve s f p = Inr q" for q using r that by (rule reachable_resolve)
    have w: "prefix w (comps p)" using r by (simp add: reachable_in_def)
    from \<open>m s = (r, s')\<close> assms consider t where "s' = s\<lparr>tick := t\<rparr>" | "gentle False (comps p) s s'"
      unfolding touches_def using q by metis
    then show ?thesis
    proof cases
      case 1
      then show ?thesis using that stable_tick [OF stable_inside] by simp
    next
      case 2
      then show ?thesis using that w inside_gentle reachable_gentle by blast
    qed
  qed
  then show ?thesis by (intro validI) blast+
qed

lemma valid_FWrite:
  "valid (\<lambda>s. inside w s0 s \<and> prefix w q \<and> ent s q = Some (RegE i)) (FWrite i bs)
    (\<lambda>_ s. inside w s0 s \<and> ent s q = Some (RegE i)) (inside w s0)"
  unfolding FWrite_def
proof (rule valid_sysop)
  fix s a s' assume p: "inside w s0 s \<and> prefix w q \<and> ent s q = Some (RegE i)"
    and "(case inodes (s\<lparr>tick := Suc (tick s)\<rparr>) i of None \<Rightarrow> Inl EIO
      | Some d \<Rightarrow> Inr ((), set_inode i (d\<lparr>contents := contents d @ bs, mtime := now (s\<lparr>tick := Suc (tick s)\<rparr>)\<rparr>)
          (s\<lparr>tick := Suc (tick s)\<rparr>))) = Inr (a, s')"
  then obtain d where "s' = set_inode i d (s\<lparr>tick := Suc (tick s)\<rparr>)"
    by (auto split: option.splits)
  moreover have "gentle False q s (set_inode i d (s\<lparr>tick := Suc (tick s)\<rparr>))"
    using p gentle_set_inode [of "s\<lparr>tick := Suc (tick s)\<rparr>" q i False d] by simp
  ultimately show "inside w s0 s' \<and> ent s' q = Some (RegE i)"
    using p inside_gentle by auto
qed (auto intro: stable_tick [OF stable_inside])

lemma OpenTruncNoFollow_result:
  assumes "\<And>q. resolve s False p = Inr q \<Longrightarrow> q = c" "OpenTruncNoFollow p m s = (Inr i, s')"
  shows "ent s' c = Some (RegE i)"
  using assms unfolding OpenTruncNoFollow_def sysop_def Let_def
  by (auto simp: new_file_def Let_def split: option.splits sum.splits prod.splits entry.splits)

lemma valid_OpenTruncNoFollow:
  "valid (\<lambda>s. inside w s0 s \<and> reachable_in w p (ent s)) (OpenTruncNoFollow p m)
    (\<lambda>i s. inside w s0 s \<and> reachable_in w p (ent s) \<and> ent s (comps p) = Some (RegE i)) (inside w s0)"
proof -
  have ok: "ent s' (comps p) = Some (RegE i)"
    if "reachable_in w p (ent s)" "OpenTruncNoFollow p m s = (Inr i, s')" for s i s'
    by (rule OpenTruncNoFollow_result [OF _ that(2)]) (auto intro: reachable_resolve [OF that(1)])
  have "valid (\<lambda>s. inside w s0 s \<and> reachable_in w p (ent s)) (OpenTruncNoFollow p m)
    (\<lambda>_ s. inside w s0 s \<and> reachable_in w p (ent s)) (inside w s0)"
    using valid_touches_reachable [OF touches_OpenTruncNoFollow] by (rule valid_conseq) auto
  then show ?thesis using ok by (intro validI) (auto dest: valid_Inr valid_Inl)
qed

section \<open>MkdirAll\<close>

lemma grown_new_dir: "ent s q = None \<Longrightarrow> grown s (set_ent q (DirE a) s)"
  by (auto simp: grown_def)

lemma valid_Mkdir_grown: "valid (grown s0) (Mkdir p m) (\<lambda>_. grown s0) (grown s0)"
  unfolding Mkdir_def
  by (rule valid_sysop)
    (auto split: sum.splits option.splits intro: grown_trans [OF _ grown_new_dir])

lemma stable_grown [simp, intro]: "stable (grown s0)"
  by (simp add: stable_def)

lemma valid_attempt_same: "valid P m (\<lambda>_. P) P \<Longrightarrow> valid P (attempt m) (\<lambda>_. P) E"
  by (rule valid_attempt) (simp add: valid_conseq)

text \<open>Whatever the path, \<open>MkdirAll\<close> only makes directories where there was nothing.\<close>

lemma valid_MkdirAll_grown: "valid (grown s0) (MkdirAll p m) (\<lambda>_. grown s0) (grown s0)"
proof -
  have "valid (grown s0) (MkdirAll_rec r cs m) (\<lambda>_. grown s0) (grown s0)" for r cs
  proof (induction "length cs" arbitrary: cs rule: less_induct)
    case less
    have rec: "cs \<noteq> [] \<Longrightarrow> valid (grown s0) (MkdirAll_rec r (butlast cs) m) (\<lambda>_. grown s0) (grown s0)"
      by (rule less) simp
    show ?case
      by (subst MkdirAll_rec.simps)
        (intro valid_andThen [where Q = "\<lambda>_. grown s0"] valid_attempt_same valid_if valid_sum
          valid_ret valid_throw valid_readonly readonly_Stat readonly_Lstat valid_Mkdir_grown
          stable_grown rec; simp)
  qed
  then show ?thesis by (simp add: MkdirAll_def)
qed

lemma unpcomps_render: "unpcomps True cs = render True cs"
  by (simp add: unpcomps_def render_def)

lemma render_rooted_facts:
  assumes "list_all plain cs"
  shows "cleaned (render True cs)" "rooted (render True cs)" "comps (render True cs) = cs"
  using assms by (simp_all add: normal_rooted render_cleaned comps_render)

lemma list_all_prefix: "list_all P xs \<Longrightarrow> prefix ys xs \<Longrightarrow> list_all P ys"
  by (auto simp: prefix_def)

text \<open>\<open>MkdirAll\<close> keeps what \<open>Mkdir\<close> keeps at every prefix of the path.\<close>

lemma valid_MkdirAll_prefixes:
  assumes p: "cleaned p" "rooted p" and st: "stable P"
    and mk: "\<And>cs. prefix cs (comps p) \<Longrightarrow> valid P (Mkdir (render True cs) m) (\<lambda>_. P) P"
  shows "valid P (MkdirAll p m) (\<lambda>_. P) P"
proof -
  have "valid P (MkdirAll_rec True cs m) (\<lambda>_. P) P" if "prefix cs (comps p)" for cs
    using that
  proof (induction "length cs" arbitrary: cs rule: less_induct)
    case less
    have "prefix (butlast cs) (comps p)"
      using less.prems by (meson prefixeq_butlast prefix_order.trans)
    then have rec: "valid P (MkdirAll_rec True (butlast cs) m) (\<lambda>_. P) P" if "cs \<noteq> []"
      using that by (intro less.hyps) auto
    have mk': "valid P (Mkdir (unpcomps True cs) m) (\<lambda>_. P) P"
      unfolding unpcomps_render using less.prems by (rule mk)
    show ?case
      by (subst MkdirAll_rec.simps)
        (intro valid_andThen [where Q = "\<lambda>_. P"] valid_attempt_same valid_if valid_sum
          valid_ret valid_throw valid_readonly readonly_Stat readonly_Lstat st rec mk'; simp)
  qed
  from this [of "comps p"] show ?thesis using p by (simp add: MkdirAll_def pcomps_cleaned)
qed

text \<open>On a solid path \<open>Mkdir\<close> does nothing: it can only report an error.\<close>

lemma solid_butlast: "solid look cs \<Longrightarrow> solid look (butlast cs)"
  by (cases cs rule: rev_cases) (auto simp: solid_snoc)

lemma nolinks_butlast: "nolinks look cs \<Longrightarrow> nolinks look (butlast cs)"
  by (cases cs rule: rev_cases) (auto simp: nolinks_snoc)

lemma valid_Mkdir_solid:
  assumes "stable P" "list_all plain cs" "\<And>s. P s \<Longrightarrow> solid (ent s) cs"
  shows "valid P (Mkdir (render True cs) m) (\<lambda>_. P) P"
  unfolding Mkdir_def
proof (rule valid_sysop)
  fix s a s' assume P: "P s" and e: "(case resolve (s\<lparr>tick := Suc (tick s)\<rparr>) False (render True cs) of
      Inl e \<Rightarrow> Inl e
    | Inr q \<Rightarrow> (case ent (s\<lparr>tick := Suc (tick s)\<rparr>) q of
        Some x \<Rightarrow> Inl EEXIST
      | None \<Rightarrow> Inr ((), set_ent q (DirE (new_attr (m AND 511) (s\<lparr>tick := Suc (tick s)\<rparr>)))
          (s\<lparr>tick := Suc (tick s)\<rparr>)))) = Inr (a, s')"
  then obtain q where q: "resolve s False (render True cs) = Inr q" "ent s q = None"
    by (auto split: sum.splits option.splits)
  have so: "solid (ent s) cs" using P assms(3) by blast
  then have "q = cs"
    using resolve_nolinks [of "render True cs" s False q] q render_rooted_facts [OF assms(2)]
    by (simp add: solid_nolinks solid_butlast)
  with q so show "P s'" by (auto simp: solid_iff is_solid_iff)
qed (use assms in \<open>auto intro: stable_tick\<close>)

text \<open>
  Inside \<open>w\<close>, a predicate that survives gentle calls at the prefixes of a path without
  symbolic links survives \<open>MkdirAll\<close> of the path.
\<close>

lemma valid_MkdirAll_inside:
  assumes p: "cleaned p" "rooted p" "prefix w (comps p) \<or> prefix (comps p) w" and st: "stable P"
    and ins: "\<And>s. P s \<Longrightarrow> solid (ent s) w" "\<And>s. P s \<Longrightarrow> nolinks (ent s) (butlast (comps p))"
    and keep: "\<And>s cs s'. P s \<Longrightarrow> prefix w cs \<Longrightarrow> prefix cs (comps p) \<Longrightarrow> gentle False cs s s'
      \<Longrightarrow> resolve s False (render True cs) = Inr cs \<Longrightarrow> P s'"
  shows "valid P (MkdirAll p m) (\<lambda>_. P) P"
proof (rule valid_MkdirAll_prefixes [OF p(1,2) st])
  fix cs assume pre: "prefix cs (comps p)"
  have pl: "list_all plain cs" using comps_rooted_plain [OF p(2)] pre by (rule list_all_prefix)
  show "valid P (Mkdir (render True cs) m) (\<lambda>_. P) P"
  proof (cases "prefix w cs")
    case False
    then have "prefix cs w" using pre p(3) by (meson prefix_order.trans prefix_same_cases)
    then show ?thesis
      using ins(1) by (intro valid_Mkdir_solid st pl) (auto intro: solid_prefix)
  next
    case True
    have "P s'" if "P s" and m: "Mkdir (render True cs) m s = (r, s')" for s r s'
    proof -
      have "nolinks (ent s) (butlast cs)"
      proof (cases "cs = comps p")
        case False
        then have "prefix cs (butlast (comps p))" using pre by (intro strict_prefix_butlast) auto
        then show ?thesis using ins(2) [OF \<open>P s\<close>] by (blast intro: nolinks_prefix nolinks_butlast)
      qed (use ins(2) [OF \<open>P s\<close>] in simp)
      then have q: "q = cs" if "resolve s False (render True cs) = Inr q" for q
        using resolve_nolinks [of "render True cs" s False q] render_rooted_facts [OF pl] that by simp
      from m touches_Mkdir [of False "render True cs" m] consider t where "s' = s\<lparr>tick := t\<rparr>"
        | "gentle False cs s s'" "resolve s False (render True cs) = Inr cs"
        unfolding touches_def using q by metis
      then show ?thesis using \<open>P s\<close> True pre st keep by cases (auto intro: stable_tick)
    qed
    then show ?thesis by (intro validI)
  qed
qed

lemma stable_reachable [simp, intro]: "stable (\<lambda>s. reachable_in w p (ent s))"
  by (simp add: stable_def)

text \<open>A reachable target that is itself not a symbolic link: calls that follow links are safe on it.\<close>

definition usable :: "string list \<Rightarrow> string \<Rightarrow> (string list \<Rightarrow> entry option) \<Rightarrow> bool" where
  "usable w p look = (reachable_in w p look \<and> \<not> is_lnk (look (comps p)))"

lemma stable_usable [simp, intro]: "stable (\<lambda>s. inside w s0 s \<and> usable w p (ent s))"
  by (auto simp: stable_def inside_def)

lemma valid_touches_usable:
  assumes "touches False f p m"
  shows "valid (\<lambda>s. inside w s0 s \<and> usable w p (ent s)) m
    (\<lambda>_ s. inside w s0 s \<and> usable w p (ent s)) (\<lambda>s. inside w s0 s \<and> usable w p (ent s))"
proof -
  have keep: "\<not> is_lnk (ent s' (comps p))"
    if u: "usable w p (ent s)" and m: "m s = (r, s')" for s r s'
  proof -
    have q: "q = comps p" if "resolve s f p = Inr q" for q
      using u that reachable_resolve [of w p s f q] by (simp add: usable_def)
    from m assms consider t where "s' = s\<lparr>tick := t\<rparr>" | "gentle False (comps p) s s'"
      unfolding touches_def using q by metis
    then show ?thesis using u by cases (auto simp: usable_def gentle_def)
  qed
  have "valid (\<lambda>s. inside w s0 s \<and> usable w p (ent s)) m
      (\<lambda>_ s. inside w s0 s \<and> reachable_in w p (ent s)) (\<lambda>s. inside w s0 s \<and> reachable_in w p (ent s))"
    by (rule valid_pre [OF valid_touches_reachable [OF assms]]) (simp add: usable_def)
  then show ?thesis using keep by (intro validI) (auto simp: usable_def dest: valid_Inr valid_Inl)
qed

lemma valid_MkdirAll_reachable:
  "valid (\<lambda>s. inside w s0 s \<and> reachable_in w p (ent s)) (MkdirAll p m)
     (\<lambda>_ s. inside w s0 s \<and> reachable_in w p (ent s))
     (\<lambda>s. inside w s0 s \<and> reachable_in w p (ent s))"
proof (cases "cleaned p \<and> rooted p \<and> prefix w (comps p)")
  case False
  then show ?thesis by (auto simp: valid_def reachable_in_def)
next
  case True
  then show ?thesis
    by (intro valid_MkdirAll_inside [where w = w])
      (auto intro: inside_gentle reachable_gentle, auto simp: inside_def reachable_in_def)
qed

lemma valid_MkdirAll_usable:
  "valid (\<lambda>s. inside w s0 s \<and> usable w p (ent s)) (MkdirAll p m)
    (\<lambda>_ s. inside w s0 s \<and> usable w p (ent s)) (\<lambda>s. inside w s0 s \<and> usable w p (ent s))"
proof (cases "cleaned p \<and> rooted p \<and> prefix w (comps p)")
  case False
  then show ?thesis by (auto simp: valid_def usable_def reachable_in_def)
next
  case True
  have lnk: "\<not> is_lnk (ent s' c)" if "\<not> is_lnk (ent s c)" "gentle False q s s'" for s s' q c
    using that by (cases "c = q") (auto simp: gentle_def)
  show ?thesis
    using True by (intro valid_MkdirAll_inside [where w = w])
      (auto simp: usable_def intro: inside_gentle reachable_gentle dest: lnk, auto simp: inside_def reachable_in_def)
qed

text \<open>Writing a file whose parents have been checked.\<close>

lemma valid_store_file:
  "valid (\<lambda>s. inside w s0 s \<and> reachable_in w p (ent s)) (OpenTruncNoFollow p m)
     (\<lambda>i s. inside w s0 s \<and> usable w p (ent s) \<and> prefix w (comps p) \<and> ent s (comps p) = Some (RegE i))
     (inside w s0)"
  by (rule valid_conseq [OF valid_OpenTruncNoFollow]) (auto simp: usable_def reachable_in_def)

lemma FWrite_ent: "FWrite i bs s = (r, s') \<Longrightarrow> ent s' = ent s"
  unfolding FWrite_def sysop_def Let_def by (auto split: option.splits sum.splits)

lemma valid_FWrite_usable:
  "valid (\<lambda>s. inside w s0 s \<and> usable w p (ent s) \<and> prefix w (comps p) \<and> ent s (comps p) = Some (RegE i))
     (FWrite i bs)
     (\<lambda>_ s. inside w s0 s \<and> usable w p (ent s)) (\<lambda>s. inside w s0 s \<and> usable w p (ent s))"
  (is "valid ?P _ _ _")
proof -
  have "valid ?P (FWrite i bs) (\<lambda>_. inside w s0) (inside w s0)"
    by (rule valid_conseq [OF valid_FWrite [where q = "comps p"]]) auto
  then show ?thesis
    using FWrite_ent by (intro validI) (fastforce dest: valid_Inr valid_Inl)+
qed

section \<open>The contents of files\<close>

definition file_at :: "string list \<Rightarrow> (inode \<Rightarrow> bool) \<Rightarrow> os \<Rightarrow> bool" where
  "file_at c Q s = (\<exists>i d. ent s c = Some (RegE i) \<and> inodes s i = Some d \<and> Q d)"

lemma stable_file_at [simp, intro]: "stable (file_at c Q)"
  by (simp add: stable_def file_at_def)

lemma OpenTruncNoFollow_empty:
  assumes "OpenTruncNoFollow p m s = (Inr i, s')"
  shows "\<exists>d. inodes s' i = Some d \<and> contents d = ''''"
  using assms unfolding OpenTruncNoFollow_def sysop_def Let_def
  by (auto simp: new_file_def Let_def split: option.splits sum.splits prod.splits entry.splits)

lemma FWrite_appends:
  assumes "FWrite i bs s = (Inr u, s')" "inodes s i = Some d"
  shows "\<exists>d'. inodes s' i = Some d' \<and> contents d' = contents d @ bs"
  using assms unfolding FWrite_def sysop_def Let_def
  by (auto split: option.splits sum.splits)

lemma chattr_file:
  assumes "chattr f p g s = (Inr u, s')" "\<And>q. resolve s f p = Inr q \<Longrightarrow> q = c" "file_at c Q s"
    and "\<And>d. Q d \<Longrightarrow> R (d\<lparr>iattr := g (iattr d)\<rparr>)"
  shows "file_at c R s'"
  using assms unfolding chattr_def sysop_def Let_def upd_attr_def file_at_def
  by (auto split: option.splits sum.splits prod.splits entry.splits)

lemma valid_chattr_file:
  assumes "\<And>d. Q d \<Longrightarrow> R (d\<lparr>iattr := g (iattr d)\<rparr>)"
  shows "valid (\<lambda>s. (inside w s0 s \<and> usable w p (ent s)) \<and> file_at (comps p) Q s) (chattr f p g)
    (\<lambda>_ s. (inside w s0 s \<and> usable w p (ent s)) \<and> file_at (comps p) R s) (\<lambda>_. True)"
proof -
  have "file_at (comps p) R s'"
    if "usable w p (ent s)" "file_at (comps p) Q s" "chattr f p g s = (Inr u, s')" for s u s'
    by (rule chattr_file [where R = R, OF that(3) _ that(2)])
      (use that(1) reachable_resolve [of w p s f] assms in \<open>auto simp: usable_def\<close>)
  moreover have "valid (\<lambda>s. inside w s0 s \<and> usable w p (ent s)) (chattr f p g)
      (\<lambda>_ s. inside w s0 s \<and> usable w p (ent s)) (\<lambda>s. inside w s0 s \<and> usable w p (ent s))"
    by (rule valid_touches_usable [OF touches_chattr])
  ultimately show ?thesis by (intro validI) (blast dest: valid_Inr)+
qed

end
