(* ===== verification/PathGuard.thy ===== *)
theory PathGuard
  imports PosixLogic
begin

text \<open>
  The shape invariant of a file system (\<open>tree\<close>) and the contract that the two path guards of
  the program share: the guest agent's \<open>ensureSafeParents\<close> and the layer applier's
  \<open>ensureNoSymlinkParents\<close>.  A guard only reads, and after it has accepted a target, no
  symbolic link is on the way from the directory it protects to that target.
\<close>

section \<open>Trees\<close>

text \<open>The root is a directory, and everything else lies in one.\<close>

definition tree :: "os \<Rightarrow> bool" where
  "tree s = (is_dir (ent s []) \<and> (\<forall>p c. ent s (p @ [c]) \<noteq> None \<longrightarrow> is_dir (ent s p)))"

lemma stable_tree [simp, intro]: "stable tree"
  by (simp add: stable_def tree_def)

lemma is_dir_some: "is_dir x \<Longrightarrow> x \<noteq> None"
  by (cases x) auto

lemma tree_parent: "tree s \<Longrightarrow> ent s p \<noteq> None \<Longrightarrow> is_dir (ent s (butlast p))"
  by (cases p rule: rev_cases) (auto simp: tree_def)

lemma tree_prefix: "tree s \<Longrightarrow> ent s p \<noteq> None \<Longrightarrow> strict_prefix q p \<Longrightarrow> is_dir (ent s q)"
proof (induction p rule: rev_induct)
  case (snoc c p)
  have d: "is_dir (ent s p)" using snoc.prems(1,2) by (auto simp: tree_def)
  then have "ent s p \<noteq> None" by (rule is_dir_some)
  with snoc d show ?case by (cases "q = p") (auto simp: strict_prefix_def)
qed simp

lemma tree_missing: "tree s \<Longrightarrow> ent s q = None \<Longrightarrow> prefix q p \<Longrightarrow> ent s p = None"
  using tree_prefix [of s p q] by (cases "p = q"; cases "ent s p") (auto simp: strict_prefix_def)

text \<open>The place a lookup ends at lies in a directory.\<close>

lemma walk_parent:
  "tree s \<Longrightarrow> is_dir (ent s cur) \<Longrightarrow> walk (ent s) f n cur cs = Inr q \<Longrightarrow> is_dir (ent s (butlast q))"
proof (induction "ent s" f n cur cs rule: walk.induct)
  case (1 f n cur)
  then show ?case using tree_parent [of s cur] is_dir_some by simp
next
  case (2 f n cur c cs)
  have up: "is_dir (ent s (butlast cur))" using tree_parent [OF "2.prems"(1) is_dir_some [OF "2.prems"(2)]] .
  show ?case
  proof (cases "c = ''.'' \<or> c = ''..''")
    case True
    then show ?thesis
      using "2.hyps"(1) "2.hyps"(2) "2.prems" up by (auto simp: walk.simps(2) split: if_splits)
  next
    case False
    then show ?thesis
    proof (cases "ent s (cur @ [c])")
      case None
      with False "2.prems" show ?thesis by (auto simp: walk.simps(2) split: if_splits)
    next
      case (Some x)
      show ?thesis
      proof (cases x)
        case (DirE a)
        with Some False "2.hyps"(3) "2.prems" show ?thesis by (auto simp: walk.simps(2))
      next
        case (RegE i)
        with Some False "2.prems" show ?thesis by (auto simp: walk.simps(2) split: if_splits)
      next
        case (LnkE t a)
        have root: "is_dir (ent s [])" using "2.prems"(1) by (simp add: tree_def)
        with Some False LnkE "2.hyps"(4) "2.prems" show ?thesis
          by (auto simp: walk.simps(2) split: if_splits nat.splits)
      qed
    qed
  qed
qed

lemma resolve_parent: "tree s \<Longrightarrow> rooted p \<Longrightarrow> resolve s f p = Inr q \<Longrightarrow> is_dir (ent s (butlast q))"
  using walk_parent [of s "[]" f max_symlinks "pcomps p" q]
  by (auto simp: resolve_def tree_def split: if_splits)

lemma gentle_tree:
  assumes "gentle l q s s'" "tree s" "is_dir (ent s (butlast q))"
  shows "tree s'"
  unfolding tree_def
proof (intro conjI allI impI)
  have same: "ent s' p = ent s p" if "p \<noteq> q" for p using assms(1) that by (simp add: gentle_def)
  have keep: "is_dir (ent s p) \<Longrightarrow> is_dir (ent s' p)" for p
    using assms(1) same by (cases "p = q") (auto simp: gentle_def)
  show "is_dir (ent s' [])" using assms(2) keep by (simp add: tree_def)
  fix p c assume e: "ent s' (p @ [c]) \<noteq> None"
  show "is_dir (ent s' p)"
  proof (cases "p @ [c] = q")
    case True
    then show ?thesis using assms(3) keep by auto
  next
    case False
    then have "is_dir (ent s p)" using e same [of "p @ [c]"] assms(2) unfolding tree_def by metis
    then show ?thesis by (rule keep)
  qed
qed

lemma valid_touches_tree:
  assumes "touches l f p m" "rooted p"
  shows "valid tree m (\<lambda>_. tree) tree"
proof -
  have "tree s'" if t: "tree s" and m: "m s = (r, s')" for s r s'
  proof -
    from m assms(1) consider t where "s' = s\<lparr>tick := t\<rparr>"
      | q where "resolve s f p = Inr q" "gentle l q s s'" unfolding touches_def by metis
    then show ?thesis
      using t resolve_parent [OF t assms(2)] gentle_tree by cases (auto intro: stable_tick)
  qed
  then show ?thesis by (intro validI)
qed

lemma del_tree_tree: "tree s \<Longrightarrow> q \<noteq> [] \<Longrightarrow> tree (del_tree q s)"
  by (auto simp: tree_def dest: append_prefixD)

lemma readonly_attempt: "readonly m \<Longrightarrow> readonly (attempt m)"
  unfolding readonly_def attempt_def by (fastforce split: prod.splits)

lemma readonly_ent: "readonly m \<Longrightarrow> m s = (r, s') \<Longrightarrow> ent s' = ent s"
  unfolding readonly_def by fastforce

lemma tree_ent: "ent s' = ent s \<Longrightarrow> tree s' = tree s"
  by (simp add: tree_def)

lemma grown_nolinks: "grown s s' \<Longrightarrow> nolinks (ent s) d \<Longrightarrow> nolinks (ent s') d"
  unfolding grown_def nolinks_iff by (metis is_dir_not_lnk)

lemma MkdirAll_nolinks: "MkdirAll p m s = (r, s') \<Longrightarrow> nolinks (ent s) d \<Longrightarrow> nolinks (ent s') d"
  using valid_Inr [OF valid_MkdirAll_grown grown_refl] valid_Inl [OF valid_MkdirAll_grown grown_refl]
  by (cases r) (blast intro: grown_nolinks)+

lemma set_ent_tree:
  assumes "tree s" "is_dir (ent s (butlast q))" "ent s q = None"
  shows "tree (set_ent q x s)"
proof -
  have "q \<noteq> []" using assms(1,3) by (auto simp: tree_def)
  moreover have "is_dir (ent (set_ent q x s) p)" if "ent (set_ent q x s) (p @ [c]) \<noteq> None" for p c
  proof -
    have "is_dir (ent s p)" using that assms by (cases "p @ [c] = q") (auto simp: tree_def)
    then show ?thesis using assms(3) by auto
  qed
  ultimately show ?thesis using assms(1) unfolding tree_def by simp
qed

lemma valid_conj:
  "valid P m Q E \<Longrightarrow> valid P' m Q' E' \<Longrightarrow>
     valid (\<lambda>s. P s \<and> P' s) m (\<lambda>a s. Q a s \<and> Q' a s) (\<lambda>s. E s \<and> E' s)"
  unfolding valid_def by (fastforce split: prod.splits sum.splits)

text \<open>No symbolic link at or below \<open>w\<close>.\<close>

definition linkfree :: "string list \<Rightarrow> os \<Rightarrow> bool" where
  "linkfree w s = (\<forall>p. prefix w p \<longrightarrow> \<not> is_lnk (ent s p))"

section \<open>The contract of a guard\<close>

locale parent_guard =
  fixes check :: "string \<Rightarrow> string \<Rightarrow> ('e, unit) io"
    and sound :: "os \<Rightarrow> bool"
  assumes sound_stable: "stable sound"
    and check_readonly: "readonly (check root t)"
    and check_nolinks: "cleaned root \<Longrightarrow> rooted root \<Longrightarrow> cleaned t \<Longrightarrow> rooted t \<Longrightarrow>
      prefix (comps root) (comps t) \<Longrightarrow> sound s \<Longrightarrow> solid (ent s) (comps root) \<Longrightarrow>
      check root t s = (Inr u, s') \<Longrightarrow> nolinks (ent s) (butlast (comps t))"
begin

lemma valid_check:
  assumes root: "cleaned root" "rooted root" and t: "cleaned t" "rooted t" "prefix (comps root) (comps t)"
  shows "valid (\<lambda>s. inside (comps root) s0 s \<and> sound s) (check root t)
    (\<lambda>_ s. (inside (comps root) s0 s \<and> sound s) \<and> reachable_in (comps root) t (ent s))
    (\<lambda>s. inside (comps root) s0 s \<and> sound s)"
proof -
  have st: "stable (\<lambda>s. inside (comps root) s0 s \<and> sound s)"
    using sound_stable by (rule stable_conj [OF stable_inside])
  have same: "ent s' = ent s" if c: "check root t s = (r, s')" for s s' r
  proof -
    obtain k where "s' = s\<lparr>tick := k\<rparr>" using c check_readonly [of root t] unfolding readonly_def by blast
    then show ?thesis by simp
  qed
  have reach: "reachable_in (comps root) t (ent s')"
    if "inside (comps root) s0 s \<and> sound s" "check root t s = (Inr u, s')" for s u s'
    using check_nolinks [OF root t] that same [OF that(2)] t by (simp add: reachable_in_def inside_def)
  show ?thesis
    using valid_readonly [OF check_readonly [of root t] st] reach
    by (intro validI) (blast dest: valid_Inr valid_Inl)+
qed

text \<open>A call that does not follow a link at the guarded target stays inside.\<close>

lemma guarded_touch:
  assumes "cleaned root" "rooted root" "cleaned t" "rooted t" "prefix (comps root) (comps t)"
    and "touches False False t m"
  shows "valid (\<lambda>s. inside (comps root) s0 s \<and> sound s) (andThen (check root t) (\<lambda>_. m))
    (\<lambda>_. inside (comps root) s0) (inside (comps root) s0)"
  by (rule valid_andThen [OF valid_conseq [OF valid_check [OF assms(1-5)]] valid_conseq [OF valid_touches_reachable [OF assms(6)]]])
    auto

end

end
