(* ===== verification/GoSha256.thy ===== *)
theory GoSha256
  imports Prelude
begin

text \<open>
  \<open>crypto/sha256\<close> and \<open>encoding/hex\<close> as the sources use them: \<open>Sum256\<close> of a byte string
  (FIPS 180-4) and the lower-case hexadecimal text of a byte string.  The facts that the
  stores rely on are the lengths and the alphabet of digests.
\<close>

section \<open>SHA-256\<close>

definition rotr :: "nat \<Rightarrow> uint32 \<Rightarrow> uint32" where
  "rotr n x = drop_bit n x OR push_bit (32 - n) x"

definition Ch :: "uint32 \<Rightarrow> uint32 \<Rightarrow> uint32 \<Rightarrow> uint32" where
  "Ch x y z = (x AND y) XOR (NOT x AND z)"

definition Maj :: "uint32 \<Rightarrow> uint32 \<Rightarrow> uint32 \<Rightarrow> uint32" where
  "Maj x y z = (x AND y) XOR (x AND z) XOR (y AND z)"

definition bigSigma0 :: "uint32 \<Rightarrow> uint32" where
  "bigSigma0 x = rotr 2 x XOR rotr 13 x XOR rotr 22 x"

definition bigSigma1 :: "uint32 \<Rightarrow> uint32" where
  "bigSigma1 x = rotr 6 x XOR rotr 11 x XOR rotr 25 x"

definition smallSigma0 :: "uint32 \<Rightarrow> uint32" where
  "smallSigma0 x = rotr 7 x XOR rotr 18 x XOR drop_bit 3 x"

definition smallSigma1 :: "uint32 \<Rightarrow> uint32" where
  "smallSigma1 x = rotr 17 x XOR rotr 19 x XOR drop_bit 10 x"

text \<open>
  The constants of the standard are computed as it defines them: the first 32 bits of the fractional
  parts of the cube roots (round constants) and square roots (initial state) of the first primes.
  \<open>root_bits k n b r\<close> extends \<open>r\<close> bit by bit to the largest number whose \<open>k\<close>-th power is at most
  \<open>n\<close>; \<open>word_of_int\<close> then drops the integral part.
\<close>

fun root_bits :: "nat \<Rightarrow> int \<Rightarrow> nat \<Rightarrow> int \<Rightarrow> int" where
  "root_bits k n 0 r = r"
| "root_bits k n (Suc b) r = root_bits k n b (if (r + 2 ^ b) ^ k \<le> n then r + 2 ^ b else r)"

definition is_prime :: "nat \<Rightarrow> bool" where
  "is_prime n = (1 < n \<and> list_all (\<lambda>d. n mod d \<noteq> 0) [2 ..< n])"

text \<open>The 64th prime is 311.\<close>

definition first_primes :: "nat list" where
  "first_primes = filter is_prime [2 ..< 312]"

definition root_fraction :: "nat \<Rightarrow> nat \<Rightarrow> uint32" where
  "root_fraction k p = word_of_int (root_bits k (int p * 2 ^ (32 * k)) 37 0)"

definition K256 :: "uint32 list" where
  "K256 = map (root_fraction 3) first_primes"

record hstate =
  ha :: uint32 hb :: uint32 hc :: uint32 hd' :: uint32
  he :: uint32 hf :: uint32 hg :: uint32 hh :: uint32

definition H0 :: hstate where
  "H0 = \<lparr>ha = root_fraction 2 2, hb = root_fraction 2 3, hc = root_fraction 2 5, hd' = root_fraction 2 7,
         he = root_fraction 2 11, hf = root_fraction 2 13, hg = root_fraction 2 17, hh = root_fraction 2 19\<rparr>"

definition sha_round :: "uint32 \<Rightarrow> uint32 \<Rightarrow> hstate \<Rightarrow> hstate" where
  "sha_round k w h =
     (let t1 = hh h + bigSigma1 (he h) + Ch (he h) (hf h) (hg h) + k + w;
          t2 = bigSigma0 (ha h) + Maj (ha h) (hb h) (hc h)
      in \<lparr>ha = t1 + t2, hb = ha h, hc = hb h, hd' = hc h,
          he = hd' h + t1, hf = he h, hg = hf h, hh = hg h\<rparr>)"

text \<open>The last sixteen schedule words, latest first, shifted by one.\<close>

definition next_word :: "uint32 list \<Rightarrow> uint32" where
  "next_word ws = smallSigma1 (ws ! 1) + ws ! 6 + smallSigma0 (ws ! 14) + ws ! 15"

fun schedule :: "nat \<Rightarrow> uint32 list \<Rightarrow> uint32 list" where
  "schedule 0 ws = ws"
| "schedule (Suc n) ws = schedule n (next_word ws # ws)"

definition be_word :: "char list \<Rightarrow> uint32" where
  "be_word bs = foldl (\<lambda>w b. push_bit 8 w OR word_of_int (of_char b)) 0 bs"

fun chunks :: "nat \<Rightarrow> 'a list \<Rightarrow> nat \<Rightarrow> 'a list list" where
  "chunks n xs 0 = []"
| "chunks n xs (Suc k) = take n xs # chunks n (drop n xs) k"

definition sha_block :: "hstate \<Rightarrow> char list \<Rightarrow> hstate" where
  "sha_block h block =
     (let ws = rev (schedule 48 (rev (map be_word (chunks 4 block 16))));
          h' = fold (\<lambda>(k, w). sha_round k w) (zip K256 ws) h
      in \<lparr>ha = ha h + ha h', hb = hb h + hb h', hc = hc h + hc h', hd' = hd' h + hd' h',
          he = he h + he h', hf = hf h + hf h', hg = hg h + hg h', hh = hh h + hh h'\<rparr>)"

definition int_byte :: "int \<Rightarrow> char" where
  "int_byte n = char_of (n mod 256)"

fun be_bytes :: "nat \<Rightarrow> int \<Rightarrow> char list" where
  "be_bytes 0 n = []"
| "be_bytes (Suc k) n = be_bytes k (n div 256) @ [int_byte n]"

definition sha_pad :: "char list \<Rightarrow> char list" where
  "sha_pad bs =
     bs @ int_byte 128 # replicate ((119 - length bs mod 64) mod 64) (int_byte 0)
        @ be_bytes 8 ((8 * int (length bs)) mod 2 ^ 64)"

definition Sum256 :: "string \<Rightarrow> string" where
  "Sum256 bs =
     (let p = sha_pad bs;
          h = foldl sha_block H0 (chunks 64 p (length p div 64))
      in concat (map (\<lambda>w. be_bytes 4 (uint w)) [ha h, hb h, hc h, hd' h, he h, hf h, hg h, hh h]))"

section \<open>Hexadecimal text\<close>

definition hex_digit :: "nat \<Rightarrow> char" where
  "hex_digit n = ''0123456789abcdef'' ! n"

definition hex_EncodeToString :: "string \<Rightarrow> string" where
  "hex_EncodeToString bs =
     concat (map (\<lambda>b. [hex_digit (of_char b div 16), hex_digit (of_char b mod 16)]) bs)"

definition is_hex :: "char \<Rightarrow> bool" where
  "is_hex c = (c \<in> set ''0123456789abcdef'')"

lemma be_bytes_length [simp]: "length (be_bytes k n) = k"
  by (induction k arbitrary: n) auto

lemma Sum256_length [simp]: "length (Sum256 bs) = 32"
  by (simp add: Sum256_def Let_def)

lemma sha_pad_length: "length (sha_pad bs) mod 64 = 0"
proof -
  have "(n + 1 + (119 - n mod 64) mod 64 + 8) mod 64 = 0" for n :: nat
  proof -
    have "n mod 64 < 64" by simp
    moreover have "\<forall>r<64. (r + (1 + (119 - r) mod 64 + 8)) mod 64 = (0::nat)" by code_simp
    ultimately have "(n mod 64 + (1 + (119 - n mod 64) mod 64 + 8)) mod 64 = 0" by blast
    then have "(n + (1 + (119 - n mod 64) mod 64 + 8)) mod 64 = 0" by (subst (asm) mod_add_left_eq)
    then show ?thesis by (simp only: add.assoc)
  qed
  from this [of "length bs"] show ?thesis by (simp add: sha_pad_def algebra_simps)
qed

lemma hex_length [simp]: "length (hex_EncodeToString bs) = 2 * length bs"
  by (induction bs) (simp_all add: hex_EncodeToString_def)

lemma hex_digit_is_hex: "n < 16 \<Longrightarrow> is_hex (hex_digit n)"
  unfolding is_hex_def hex_digit_def by (rule nth_mem) simp

lemma hex_is_hex: "list_all is_hex (hex_EncodeToString bs)"
proof (induction bs)
  case (Cons b bs)
  have "of_char b < (256 :: nat)" by (rule nat_of_char_less_256)
  then have "of_char b div 16 < (16 :: nat)" by (intro div_less_iff_less_mult [THEN iffD2]) simp_all
  then have "is_hex (hex_digit (of_char b div 16))" "is_hex (hex_digit (of_char b mod 16))"
    by (simp_all add: hex_digit_is_hex)
  with Cons show ?case by (simp add: hex_EncodeToString_def)
qed (simp add: hex_EncodeToString_def)

end
