(* ===== verification/LayerApplier.thy ===== *)
theory LayerApplier
  imports PathGuard GoSha256
begin

text \<open>
  Unpacking an OCI layer into a directory (\<open>internal/rootfsbuilder/layer.go\<close>), over the
  file-system model.  Decompression and the tar reader are parameters: \<open>gunzip\<close> gives the
  decompressed stream (\<open>None\<close> when the gzip header is bad), \<open>untar\<close> the entries of a stream
  and whether it ended with \<open>io.EOF\<close>.  A stream carries its bytes and whether reading it ends
  in an error instead of \<open>io.EOF\<close>.  A context is the set of call counts at which it is done.
\<close>

section \<open>Tar headers and modes\<close>

record tar_header =
  h_Name :: string
  h_Typeflag :: char
  h_Linkname :: string
  h_Size :: int
  h_Mode :: int
  h_Uid :: int
  h_Gid :: int
  h_ModTime :: "int option"

record stream =
  st_bytes :: string
  st_err :: bool

definition TypeReg :: char where "TypeReg = CHR ''0''"
definition TypeRegA :: char where "TypeRegA = CHR 0x00"
definition TypeLink :: char where "TypeLink = CHR ''1''"
definition TypeSymlink :: char where "TypeSymlink = CHR ''2''"
definition TypeChar :: char where "TypeChar = CHR ''3''"
definition TypeBlock :: char where "TypeBlock = CHR ''4''"
definition TypeDir :: char where "TypeDir = CHR ''5''"
definition TypeFifo :: char where "TypeFifo = CHR ''6''"
definition TypeXHeader :: char where "TypeXHeader = CHR ''x''"
definition TypeXGlobalHeader :: char where "TypeXGlobalHeader = CHR ''g''"
definition TypeGNULongName :: char where "TypeGNULongName = CHR ''L''"
definition TypeGNULongLink :: char where "TypeGNULongLink = CHR ''K''"

text \<open>\<open>header.FileInfo().Mode()\<close>: Go's mode word from the tar mode and the type flag.\<close>

definition tar_kind_bits :: "uint32 \<Rightarrow> uint32" where
  "tar_kind_bits m =
     (let k = m AND NOT 0xFFF in
      if k = 0x4000 then 2 ^ 31
      else if k = 0x1000 then 2 ^ 25
      else if k = 0xA000 then 2 ^ 27
      else if k = 0x6000 then 2 ^ 26
      else if k = 0x2000 then 2 ^ 26 OR 2 ^ 21
      else if k = 0xC000 then 2 ^ 24
      else 0)"

definition tar_flag_bits :: "char \<Rightarrow> uint32" where
  "tar_flag_bits t =
     (if t = TypeSymlink then 2 ^ 27
      else if t = TypeChar then 2 ^ 26 OR 2 ^ 21
      else if t = TypeBlock then 2 ^ 26
      else if t = TypeDir then 2 ^ 31
      else if t = TypeFifo then 2 ^ 25
      else 0)"

definition FileInfo_Mode :: "tar_header \<Rightarrow> uint32" where
  "FileInfo_Mode h =
     (let m = word_of_int (h_Mode h) in
      (m AND 511)
        OR (if m AND 0x800 \<noteq> 0 then 2 ^ 23 else 0)
        OR (if m AND 0x400 \<noteq> 0 then 2 ^ 22 else 0)
        OR (if m AND 0x200 \<noteq> 0 then 2 ^ 20 else 0)
        OR tar_kind_bits m OR tar_flag_bits (h_Typeflag h))"

definition safeFileMode :: "uint32 \<Rightarrow> uint32 \<Rightarrow> uint32" where
  "safeFileMode mode fallback =
     (let mode = (if mode = 0 then fallback else mode) in (mode AND 511) AND NOT 0xC00)"

section \<open>Errors\<close>

datatype layer_error =
    EmptyPath
  | AbsolutePath
  | PathTraversal
  | EscapesRoot
  | LayerRel
  | SymlinkParentOf string
  | OverwritesSymlink
  | HardlinkToSymlink
  | UnsafeSymlinkTarget layer_error
  | UnsafeHardlinkTarget layer_error
  | DeviceEntry
  | UnsupportedEntry char
  | LayerOs errno
  | StreamError
  | TarError
  | LayerCancelled
  | ApplyFailed string layer_error
  | DiffIDMismatch string string
  | RefuseRemoveRoot
  | FsNotExist
  | FsError
  | FsPanic

section \<open>Paths\<close>

definition cleanLayerPath :: "string \<Rightarrow> layer_error + string" where
  "cleanLayerPath name =
     (if name = '''' then Inl EmptyPath
      else if IsAbs name \<or> HasPrefix name ''/'' then Inl AbsolutePath
      else let clean = Clean name in
        if clean = ''.'' \<or> clean = ''..'' \<or> HasPrefix clean ''../'' then Inl PathTraversal
        else Inr clean)"

definition cleanLinkPath :: "string \<Rightarrow> layer_error + string" where
  "cleanLinkPath name = (if name = '''' then Inl EmptyPath else Inr (Clean name))"

definition safePath :: "string \<Rightarrow> string \<Rightarrow> layer_error + string" where
  "safePath Root name =
     (let root = Clean Root; target = Join [root, name] in
      case Rel root target of
        None \<Rightarrow> Inl LayerRel
      | Some rel \<Rightarrow>
          if rel = ''..'' \<or> HasPrefix rel ''../'' then Inl EscapesRoot else Inr target)"

text \<open>The loop of \<open>ensureNoSymlinkParents\<close>: it ends at the first missing element.\<close>

fun noSymlinkParts :: "string \<Rightarrow> string list \<Rightarrow> (layer_error, unit) io" where
  "noSymlinkParts current [] = ret ()"
| "noSymlinkParts current (part # parts) =
     (let current = Join [current, part] in
      andThen (attempt (Lstat current)) (\<lambda>info.
        case info of
          Inl e \<Rightarrow> if e = ENOENT then ret () else throw (LayerOs e)
        | Inr x \<Rightarrow> if is_lnk (Some x) then throw (SymlinkParentOf current)
                   else noSymlinkParts current parts))"

definition ensureNoSymlinkParents :: "string \<Rightarrow> string \<Rightarrow> (layer_error, unit) io" where
  "ensureNoSymlinkParents Root target =
     (let root = Clean Root; dir = Dir target in
      case Rel root dir of
        None \<Rightarrow> throw LayerRel
      | Some rel \<Rightarrow> if rel = ''.'' then ret () else noSymlinkParts root (Split slash rel))"

section \<open>Entries\<close>

fun removeEntries :: "string \<Rightarrow> string list \<Rightarrow> (layer_error, unit) io" where
  "removeEntries dir [] = ret ()"
| "removeEntries dir (name # names) =
     andThen (wrap LayerOs (RemoveAll (Join [dir, name]))) (\<lambda>_. removeEntries dir names)"

definition removeChildren :: "string \<Rightarrow> (layer_error, unit) io" where
  "removeChildren dir =
     andThen (attempt (ReadDir dir)) (\<lambda>r.
       case r of
         Inl e \<Rightarrow> if e = ENOENT then ret () else throw (LayerOs e)
       | Inr entries \<Rightarrow> removeEntries dir (map fst entries))"

definition applyMetadata :: "string \<Rightarrow> tar_header \<Rightarrow> bool \<Rightarrow> (layer_error, unit) io" where
  "applyMetadata target header symlink =
     (if symlink
      then andThen (attempt (Lchown target (h_Uid header) (h_Gid header))) (\<lambda>_. ret ())
      else
        andThen (wrap LayerOs (Chmod target (safeFileMode (FileInfo_Mode header) 420))) (\<lambda>_.
        andThen (attempt (Chown target (h_Uid header) (h_Gid header))) (\<lambda>r.
          if (case r of Inl e \<Rightarrow> e \<noteq> EPERM | Inr u \<Rightarrow> False)
          then throw (LayerOs (case r of Inl e \<Rightarrow> e | Inr u \<Rightarrow> EPERM))
          else wrap LayerOs (Chtimes target (case h_ModTime header of Some t \<Rightarrow> t | None \<Rightarrow> 0)))))"

definition mkdir :: "string \<Rightarrow> tar_header \<Rightarrow> (layer_error, unit) io" where
  "mkdir target header =
     andThen (wrap LayerOs (MkdirAll target (safeFileMode (FileInfo_Mode header) 493))) (\<lambda>_.
       applyMetadata target header True)"

text \<open>\<open>io.Copy\<close> into the open file: the bytes of the stream, then its error if it has one.\<close>

definition writeFile :: "string \<Rightarrow> string \<Rightarrow> tar_header \<Rightarrow> stream \<Rightarrow> (layer_error, unit) io" where
  "writeFile Root target header reader =
     andThen (wrap LayerOs (MkdirAll (Dir target) 493)) (\<lambda>_.
     andThen (ensureNoSymlinkParents Root target) (\<lambda>_.
     andThen (attempt (Lstat target)) (\<lambda>info.
       if (case info of Inr x \<Rightarrow> is_lnk (Some x) | Inl e \<Rightarrow> False) then throw OverwritesSymlink
       else
         andThen (wrap LayerOs (OpenTruncNoFollow target (safeFileMode (FileInfo_Mode header) 420))) (\<lambda>fd.
         andThen (attempt (FWrite fd (st_bytes reader))) (\<lambda>copyErr.
         andThen (attempt (FClose fd)) (\<lambda>closeErr.
           case copyErr of
             Inl e \<Rightarrow> throw (LayerOs e)
           | Inr u \<Rightarrow>
               if st_err reader then throw StreamError
               else (case closeErr of
                       Inl e \<Rightarrow> throw (LayerOs e)
                     | Inr u \<Rightarrow> applyMetadata target header False)))))))"

definition symlink :: "string \<Rightarrow> tar_header \<Rightarrow> (layer_error, unit) io" where
  "symlink target header =
     (case cleanLinkPath (h_Linkname header) of
        Inl e \<Rightarrow> throw (UnsafeSymlinkTarget e)
      | Inr l \<Rightarrow>
          andThen (wrap LayerOs (MkdirAll (Dir target) 493)) (\<lambda>_.
          andThen (wrap LayerOs (RemoveAll target)) (\<lambda>_.
          andThen (wrap LayerOs (Symlink (h_Linkname header) target)) (\<lambda>_.
            applyMetadata target header True))))"

definition hardlink :: "string \<Rightarrow> string \<Rightarrow> tar_header \<Rightarrow> (layer_error, unit) io" where
  "hardlink Root target header =
     (case cleanLayerPath (h_Linkname header) of
        Inl e \<Rightarrow> throw (UnsafeHardlinkTarget e)
      | Inr linkName \<Rightarrow>
        (case safePath Root linkName of
           Inl e \<Rightarrow> throw e
         | Inr linkTarget \<Rightarrow>
             andThen (ensureNoSymlinkParents Root target) (\<lambda>_.
             andThen (ensureNoSymlinkParents Root linkTarget) (\<lambda>_.
             andThen (wrap LayerOs (Lstat linkTarget)) (\<lambda>info.
               if is_lnk (Some info) then throw HardlinkToSymlink
               else
                 andThen (wrap LayerOs (MkdirAll (Dir target) 493)) (\<lambda>_.
                 andThen (wrap LayerOs (RemoveAll target)) (\<lambda>_.
                   wrap LayerOs (Link linkTarget target))))))))"

definition applyEntry :: "string \<Rightarrow> tar_header \<Rightarrow> stream \<Rightarrow> (layer_error, unit) io" where
  "applyEntry Root header reader =
     (case cleanLayerPath (h_Name header) of
        Inl e \<Rightarrow> throw e
      | Inr name \<Rightarrow>
          let base = Base name; dir = Dir name in
          if base = ''.wh..wh..opq'' then
            (case safePath Root dir of Inl e \<Rightarrow> throw e | Inr target \<Rightarrow> removeChildren target)
          else if HasPrefix base ''.wh.'' then
            (case safePath Root (Join [dir, TrimPrefix base ''.wh.'']) of
               Inl e \<Rightarrow> throw e
             | Inr target \<Rightarrow> wrap LayerOs (RemoveAll target))
          else
            (case safePath Root name of
               Inl e \<Rightarrow> throw e
             | Inr target \<Rightarrow>
                 andThen (ensureNoSymlinkParents Root target) (\<lambda>_.
                   let t = h_Typeflag header in
                   if t = TypeDir then mkdir target header
                   else if t = TypeReg \<or> t = TypeRegA then writeFile Root target header reader
                   else if t = TypeSymlink then symlink target header
                   else if t = TypeLink then hardlink Root target header
                   else if t \<in> {TypeXGlobalHeader, TypeXHeader, TypeGNULongName, TypeGNULongLink} then ret ()
                   else if t \<in> {TypeChar, TypeBlock, TypeFifo} then throw DeviceEntry
                   else throw (UnsupportedEntry t))))"

section \<open>Layers\<close>

type_synonym ctx = "nat \<Rightarrow> bool"

definition ctx_done :: "ctx \<Rightarrow> ('e, bool) io" where
  "ctx_done ctx = reads (\<lambda>s. ctx (tick s))"

definition layerReader :: "(string \<Rightarrow> stream option) \<Rightarrow> string \<Rightarrow> layer_error + stream" where
  "layerReader gunzip data =
     (if length data < 2 then Inl StreamError
      else if data ! 0 \<noteq> CHR 0x1F \<or> data ! 1 \<noteq> CHR 0x8B then Inr \<lparr>st_bytes = data, st_err = False\<rparr>
      else (case gunzip data of Some st \<Rightarrow> Inr st | None \<Rightarrow> Inl StreamError))"

fun applyEntries :: "ctx \<Rightarrow> string \<Rightarrow> (tar_header \<times> stream) list \<Rightarrow> bool \<Rightarrow> (layer_error, unit) io" where
  "applyEntries ctx Root [] eof =
     andThen (ctx_done ctx) (\<lambda>d. if d then throw LayerCancelled else if eof then ret () else throw TarError)"
| "applyEntries ctx Root ((header, body) # es) eof =
     andThen (ctx_done ctx) (\<lambda>d.
       if d then throw LayerCancelled
       else andThen (wrap (ApplyFailed (h_Name header)) (applyEntry Root header body)) (\<lambda>_.
              applyEntries ctx Root es eof))"

definition diffID :: "string \<Rightarrow> string" where
  "diffID bs = ''sha256:'' @ hex_EncodeToString (Sum256 bs)"

definition ApplyLayer :: "(string \<Rightarrow> stream option) \<Rightarrow> (stream \<Rightarrow> (tar_header \<times> stream) list \<times> bool)
    \<Rightarrow> ctx \<Rightarrow> string \<Rightarrow> string \<Rightarrow> string \<Rightarrow> (layer_error, unit) io" where
  "ApplyLayer gunzip untar ctx Root compressedLayerPath expectedDiffID =
     andThen (wrap LayerOs (ReadFile compressedLayerPath)) (\<lambda>data.
       case layerReader gunzip data of
         Inl e \<Rightarrow> throw e
       | Inr st \<Rightarrow> (case untar st of (es, eof) \<Rightarrow>
           andThen (applyEntries ctx Root es eof) (\<lambda>_.
             if st_err st then throw StreamError
             else if diffID (st_bytes st) \<noteq> expectedDiffID
             then throw (DiffIDMismatch (diffID (st_bytes st)) expectedDiffID)
             else ret ())))"

section \<open>Accepted names\<close>

lemma cleanLayerPath_facts:
  assumes "cleanLayerPath n = Inr name"
  shows "name = Clean n" "\<not> rooted name" "comps name \<noteq> []" "list_all plain (comps name)" "cleaned name"
proof -
  have nr: "\<not> rooted n" and name: "name = Clean n"
    and ne: "Clean n \<noteq> ''.''" "\<not> escapes (Clean n)"
    using assms by (auto simp: cleanLayerPath_def Let_def IsAbs_def escapes_def split: if_splits)
  have r: "Clean n = render False (comps n)" using nr by (simp add: Clean_def)
  then have c: "comps n \<noteq> []" using ne(1) by (auto simp: render_def)
  have nm: "normal False (comps n)" using comps_normal [of n] nr by simp
  have "\<not> escapes (join_with ''/'' (comps n))" using ne(2) r c by (simp add: render_def)
  then have "hd (comps n) \<noteq> ''..''"
    using join_starts_dotdot [of "comps n"] normal_no_slash [OF nm] c by blast
  with nm have pl: "list_all plain (comps n)"
    by (auto simp: normal_def hd_append split: if_splits)
  show "name = Clean n" "\<not> rooted name" "comps name \<noteq> []" "list_all plain (comps name)" "cleaned name"
    using name nr c pl by simp_all
qed

end
