(* ===== verification/LayerSafety.thy ===== *)
theory LayerSafety
  imports LayerApplier
begin

text \<open>
  What unpacking a layer into a directory can change: \<open>cleanLayerPath\<close> accepts relative names
  without a way up, \<open>ensureNoSymlinkParents\<close> meets the contract of a path guard on file systems
  that are trees, and every entry but a whiteout changes nothing outside the root directory.
\<close>

section \<open>Names\<close>

lemma layer_safePath:
  assumes "rooted root" "\<not> rooted name" "list_all plain (comps name)"
  shows "safePath root name = Inr t \<longleftrightarrow> t = Join [Clean root, name]"
    and "comps (Join [Clean root, name]) = comps root @ comps name"
    and "rooted (Join [Clean root, name])" and "cleaned (Join [Clean root, name])"
proof -
  have ne: "Clean root \<noteq> ''''" by (rule cleaned_nonempty) simp
  note j = Join_under [OF ne assms(2) plain_no_dotdot [OF assms(3)]]
  show c: "comps (Join [Clean root, name]) = comps root @ comps name"
    and r: "rooted (Join [Clean root, name])" and "cleaned (Join [Clean root, name])"
    using j assms(1) by simp_all
  obtain rel where "Rel (Clean root) (Join [Clean root, name]) = Some rel" "\<not> escapes rel"
    using Rel_rooted [of "Clean root" "Join [Clean root, name]"] assms(1) c r by auto
  then show "safePath root name = Inr t \<longleftrightarrow> t = Join [Clean root, name]"
    by (auto simp: safePath_def Let_def escapes_def)
qed

section \<open>The guard\<close>

lemma readonly_noSymlinkParts: "readonly (noSymlinkParts cur parts)"
proof (induction parts arbitrary: cur)
  case (Cons p ps)
  then show ?case
    by (auto simp: Let_def intro!: readonly_andThen readonly_attempt readonly_Lstat readonly_ret readonly_throw
        split: sum.split)
qed (simp add: readonly_ret)

lemma readonly_ensureNoSymlinkParents: "readonly (ensureNoSymlinkParents root t)"
  unfolding ensureNoSymlinkParents_def
  by (auto simp: Let_def intro: readonly_noSymlinkParts readonly_throw readonly_ret split: option.split)

text \<open>A missing component is the reason for \<open>ENOENT\<close>.\<close>

lemma walk_missing:
  assumes "list_all plain cs" "walk look f n cur cs = Inl ENOENT"
    and "\<And>d. prefix d cs \<Longrightarrow> d \<noteq> [] \<Longrightarrow> d \<noteq> cs \<Longrightarrow> \<not> is_lnk (look (cur @ d))" and "\<not> f"
  shows "\<exists>d. prefix d cs \<and> look (cur @ d) = None"
  using assms
proof (induction cs arbitrary: cur)
  case (Cons c cs)
  have c: "c \<noteq> ''.''" "c \<noteq> ''..''" using Cons.prems(1) by (auto dest: plain_not_dot plain_not_dotdot)
  show ?case
  proof (cases "look (cur @ [c])")
    case None
    then show ?thesis by (intro exI [of _ "[c]"]) simp
  next
    case (Some x)
    have "cs \<noteq> [] \<Longrightarrow> \<not> is_lnk (look (cur @ [c]))" using Cons.prems(3) [of "[c]"] by simp
    with Some c Cons.prems(2,4) have w: "walk look f n (cur @ [c]) cs = Inl ENOENT"
      by (cases x) (auto simp: walk.simps(2) split: if_splits)
    have nl: "\<not> is_lnk (look ((cur @ [c]) @ d))" if "prefix d cs" "d \<noteq> []" "d \<noteq> cs" for d
      using Cons.prems(3) [of "c # d"] that by simp
    obtain d where "prefix d cs" "look ((cur @ [c]) @ d) = None"
      using Cons.IH [OF _ w nl Cons.prems(4)] Cons.prems(1) by auto
    then show ?thesis by (intro exI [of _ "c # d"]) simp
  qed
qed simp

lemma resolve_missing:
  assumes p: "cleaned p" "rooted p" "nolinks (ent s) (butlast (comps p))"
    and r: "resolve s False p = Inl ENOENT" and t: "tree s"
  shows "ent s (comps p) = None"
proof -
  have "p \<noteq> ''''" using p(1) by (rule cleaned_nonempty)
  then have w: "walk (ent s) False max_symlinks [] (comps p) = Inl ENOENT"
    using p r by (simp add: resolve_def pcomps_cleaned)
  have nl: "\<not> is_lnk (ent s ([] @ d))" if "prefix d (comps p)" "d \<noteq> comps p" for d
    using p(3) strict_prefix_butlast [of d "comps p"] that by (simp add: nolinks_iff strict_prefix_def)
  obtain d where "prefix d (comps p)" "ent s ([] @ d) = None"
    using walk_missing [OF comps_rooted_plain [OF p(2)] w] nl by blast
  then show ?thesis using tree_missing [OF t, of d "comps p"] by simp
qed

lemma Lstat_cases:
  assumes p: "cleaned p" "rooted p" "nolinks (ent s) (butlast (comps p))" and t: "tree s"
    and l: "Lstat p s = (r, s')"
  shows "r = Inl ENOENT \<Longrightarrow> ent s (comps p) = None"
    and "r = Inr x \<Longrightarrow> ent s (comps p) = Some x"
proof -
  have q: "q = comps p" if "resolve s False p = Inr q" for q
    using resolve_nolinks [OF p _ that] by simp
  have "fault_errno e \<noteq> ENOENT" for e by (simp add: fault_errno_def)
  with l resolve_missing [OF p _ t] q show "r = Inl ENOENT \<Longrightarrow> ent s (comps p) = None"
    unfolding Lstat_def sysop_def Let_def
    by (auto split: option.splits sum.splits)
  from l q show "r = Inr x \<Longrightarrow> ent s (comps p) = Some x"
    unfolding Lstat_def sysop_def Let_def by (auto split: option.splits sum.splits)
qed

lemma noSymlinkParts_nolinks:
  assumes "cleaned cur" "rooted cur" "list_all plain parts" "tree s" "nolinks (ent s) (comps cur)"
    and "noSymlinkParts cur parts s = (Inr u, s')"
  shows "nolinks (ent s) (comps cur @ parts)"
  using assms
proof (induction parts arbitrary: cur s)
  case (Cons c cs)
  let ?p = "Join [cur, c]"
  have j: "cleaned ?p" "rooted ?p" "comps ?p = comps cur @ [c]"
    using Join_plain [of cur "[c]"] Cons.prems(1-3) cleaned_nonempty [of cur] by simp_all
  obtain r s1 where l: "Lstat ?p s = (r, s1)" by fastforce
  have e: "ent s1 = ent s" using readonly_ent [OF readonly_Lstat l] .
  note lc = Lstat_cases [OF j(1,2) _ Cons.prems(4) l, unfolded j(3), simplified, OF Cons.prems(5)]
  show ?case
  proof (cases r)
    case (Inl err)
    then have "err = ENOENT"
      using Cons.prems(6) l by (auto simp: Let_def andThen_def attempt_def throw_def split: if_splits)
    with Inl lc have none: "ent s (comps cur @ [c]) = None" by simp
    show ?thesis
      unfolding nolinks_iff
    proof (intro allI impI)
      fix q assume q: "prefix q (comps cur @ c # cs)"
      show "\<not> is_lnk (ent s q)"
      proof (cases "prefix q (comps cur)")
        case False
        then have "prefix (comps cur @ [c]) q"
          using q by (auto simp: prefix_append prefix_Cons)
        then show ?thesis using tree_missing [OF Cons.prems(4) none] by simp
      qed (use Cons.prems(5) in \<open>simp add: nolinks_iff\<close>)
    qed
  next
    case (Inr x)
    with Cons.prems(6) l have n: "\<not> is_lnk (Some x)" "noSymlinkParts ?p cs s1 = (Inr u, s')"
      by (auto simp: Let_def andThen_def attempt_def throw_def split: if_splits)
    have "nolinks (ent s1) (comps ?p @ cs)"
      by (rule Cons.IH [OF j(1,2) _ _ _ n(2)])
        (use Cons.prems n(1) lc Inr e j tree_ent [OF e] in \<open>auto simp: nolinks_snoc\<close>)
    then show ?thesis using e j by simp
  qed
qed simp

text \<open>On trees the layer applier's guard meets the contract that the agent's guard meets.\<close>

interpretation layer_guard: parent_guard ensureNoSymlinkParents tree
proof unfold_locales
  fix root t u and s s' :: os
  assume root: "cleaned root" "rooted root" and t: "cleaned t" "rooted t" "prefix (comps root) (comps t)"
    and tr: "tree s" and so: "solid (ent s) (comps root)"
    and c: "ensureNoSymlinkParents root t s = (Inr u, s')"
  have nr: "nolinks (ent s) (comps root)" using so by (rule solid_nolinks)
  show "nolinks (ent s) (butlast (comps t))"
  proof (cases "comps t = comps root")
    case True
    then show ?thesis using nr by (simp add: nolinks_butlast)
  next
    case False
    then obtain cs x where cs: "comps t = comps root @ cs @ [x]"
      using t(3) by (metis append_Nil2 prefixE rev_exhaust)
    have d: "rooted (Dir t)" "comps (Dir t) = comps root @ cs"
      using t cs Dir_cleaned [OF t(1)] by (simp_all add: butlast_append)
    have pl: "list_all plain cs" using comps_rooted_plain [OF t(2)] cs by simp
    have rc: "Clean root = root" using root(1) by (simp add: cleaned_def)
    have rel: "Rel root (Dir t) = Some (if cs = [] then ''.'' else join_with ''/'' cs)"
      using Rel_below [of "Dir t" root cs] d root by simp
    show ?thesis
    proof (cases "cs = []")
      case True
      then show ?thesis using nr cs by simp
    next
      case ne: False
      have "Split slash (join_with ''/'' cs) = cs"
        using pl ne by (intro Split_join_normal [of True]) (auto simp: normal_rooted)
      moreover have "join_with ''/'' cs \<noteq> ''.''"
        using comps_plain_list [OF pl ne] ne by (auto simp: comps_def)
      ultimately have "noSymlinkParts root cs s = (Inr u, s')"
        using c rel ne by (simp add: ensureNoSymlinkParents_def rc)
      from noSymlinkParts_nolinks [OF root pl tr nr this] show ?thesis using cs by (simp add: butlast_append)
    qed
  qed
qed (auto simp: readonly_ensureNoSymlinkParents)

section \<open>What unpacking keeps\<close>

text \<open>The invariant: inside the root directory, which is real, and still a tree.\<close>

definition unpacking :: "string list \<Rightarrow> os \<Rightarrow> os \<Rightarrow> bool" where
  "unpacking w s0 s = (inside w s0 s \<and> tree s)"

lemma stable_unpacking [simp, intro]: "stable (unpacking w s0)"
  unfolding unpacking_def by (intro stable_conj) auto

text \<open>A target strictly below the root directory.\<close>

definition below :: "string list \<Rightarrow> string \<Rightarrow> os \<Rightarrow> bool" where
  "below w t s = (reachable_in w t (ent s) \<and> comps t \<noteq> w)"

lemma stable_below1 [simp, intro]: "stable (below w t)"
  by (simp add: stable_def below_def)

lemma stable_below [simp, intro]: "stable (\<lambda>s. unpacking w s0 s \<and> below w t s)"
  by (auto simp: stable_def unpacking_def inside_def tree_def below_def)

lemma unpacking_gentle:
  assumes "unpacking w s0 s" "gentle False q s s'" "prefix w q" "is_dir (ent s (butlast q))"
  shows "unpacking w s0 s'"
  using assms inside_gentle gentle_tree by (auto simp: unpacking_def)

lemma below_gentle: "below w t s \<Longrightarrow> gentle False q s s' \<Longrightarrow> below w t s'"
  using reachable_gentle by (auto simp: below_def)

lemma valid_unpack_MkdirAll:
  assumes "cleaned p" "rooted p" "prefix w (comps p) \<or> prefix (comps p) w"
    and "\<And>s. below w t s \<Longrightarrow> nolinks (ent s) (butlast (comps p))"
  shows "valid (\<lambda>s. unpacking w s0 s \<and> below w t s) (MkdirAll p m)
    (\<lambda>_ s. unpacking w s0 s \<and> below w t s) (\<lambda>s. unpacking w s0 s \<and> below w t s)"
proof (rule valid_MkdirAll_inside [where w = w, OF assms(1,2,3)])
  fix s cs s' assume s: "unpacking w s0 s \<and> below w t s" and w: "prefix w cs" "prefix cs (comps p)"
    and g: "gentle False cs s s'" and r: "resolve s False (render True cs) = Inr cs"
  have "rooted (render True cs)" by (simp add: render_def rooted_def)
  then have "is_dir (ent s (butlast cs))" using s r resolve_parent by (auto simp: unpacking_def)
  then show "unpacking w s0 s' \<and> below w t s'" using s g w unpacking_gentle below_gentle by blast
next
  show "stable (\<lambda>s. unpacking w s0 s \<and> below w t s)" by (rule stable_below)
qed (use assms(4) in \<open>auto simp: unpacking_def inside_def\<close>)

lemma valid_unpack_parents:
  "valid (\<lambda>s. unpacking w s0 s \<and> below w t s) (MkdirAll (Dir t) m)
    (\<lambda>_ s. unpacking w s0 s \<and> below w t s) (\<lambda>s. unpacking w s0 s \<and> below w t s)"
proof (cases "cleaned t \<and> rooted t \<and> prefix w (comps t)")
  case False
  then show ?thesis by (auto simp: valid_def below_def reachable_in_def)
next
  case True
  then show ?thesis
    using Dir_cleaned [of t]
    by (intro valid_unpack_MkdirAll)
      (auto simp: below_def reachable_in_def prefix_snoc intro: nolinks_butlast,
       cases "comps t" rule: rev_cases, auto simp: prefix_snoc)
qed

lemma valid_unpack_mkdir:
  "valid (\<lambda>s. unpacking w s0 s \<and> below w t s) (MkdirAll t m)
    (\<lambda>_ s. unpacking w s0 s \<and> below w t s) (\<lambda>s. unpacking w s0 s \<and> below w t s)"
proof (cases "cleaned t \<and> rooted t \<and> prefix w (comps t)")
  case False
  then show ?thesis by (auto simp: valid_def below_def reachable_in_def)
next
  case True
  then show ?thesis by (intro valid_unpack_MkdirAll) (auto simp: below_def reachable_in_def)
qed

text \<open>Removal and links.\<close>

lemma del_tree_inside:
  assumes "inside w s0 s" "prefix w q" "q \<noteq> w"
  shows "inside w s0 (del_tree q s)"
proof -
  have sub: "inos w (del_tree q s) \<subseteq> inos w s" by (auto simp: inos_def split: if_splits)
  have "confined w s (del_tree q s)"
    using assms(2) sub by (auto simp: confined_def intro: prefix_order.trans)
  moreover have "solid (ent (del_tree q s)) w"
  proof -
    have "\<not> prefix q d" if "prefix d w" for d
      using that assms(2,3) by (meson prefix_order.antisym prefix_order.trans)
    then show ?thesis using assms(1) by (auto simp: inside_def solid_iff)
  qed
  moreover have "bounded (del_tree q s)"
    using assms(1) by (auto simp: inside_def bounded_def split: if_splits)
  ultimately show ?thesis using assms(1) by (auto simp: inside_def intro: confined_trans)
qed

lemma valid_RemoveAll:
  "valid (\<lambda>s. unpacking w s0 s \<and> below w t s) (RemoveAll t)
    (\<lambda>_ s. unpacking w s0 s \<and> below w t s) (\<lambda>s. unpacking w s0 s \<and> below w t s)"
  unfolding RemoveAll_def
proof (rule valid_sysop)
  fix s a s' assume s: "unpacking w s0 s \<and> below w t s"
    and e: "(if t = '''' then Inr ((), s\<lparr>tick := Suc (tick s)\<rparr>)
      else case resolve (s\<lparr>tick := Suc (tick s)\<rparr>) False t of
        Inl e \<Rightarrow> if e = ENOENT then Inr ((), s\<lparr>tick := Suc (tick s)\<rparr>) else Inl e
      | Inr q \<Rightarrow> if q = [] then Inl EBUSY else Inr ((), del_tree q (s\<lparr>tick := Suc (tick s)\<rparr>))) = Inr (a, s')"
  let ?s = "s\<lparr>tick := Suc (tick s)\<rparr>"
  have s1: "unpacking w s0 ?s \<and> below w t ?s"
    using s by (rule stable_tick [OF stable_below])
  have q: "q = comps t" if "resolve s False t = Inr q" for q
    using s that reachable_resolve [of w t s False q] by (simp add: below_def)
  consider "s' = ?s" | "comps t \<noteq> []" "s' = del_tree (comps t) ?s"
    using e q by (auto split: if_splits sum.splits)
  then show "unpacking w s0 s' \<and> below w t s'"
  proof cases
    case 2
    have w: "prefix w (comps t)" "comps t \<noteq> w" using s by (simp_all add: below_def reachable_in_def)
    then show ?thesis
      using s1 2 del_tree_inside [of w s0 ?s "comps t"] del_tree_tree [of ?s "comps t"]
      by (auto simp: unpacking_def below_def reachable_in_def nolinks_iff)
  qed (use s1 in simp)
qed (use stable_tick [OF stable_below] in blast)

lemma inside_gentle_below:
  assumes "inside w s0 s" "gentle l q s s'" "prefix w q" "q \<noteq> w"
  shows "inside w s0 s'"
proof -
  have "ent s' d = ent s d" if "prefix d w" for d
    using that assms(2,3,4) by (auto simp: gentle_def dest: prefix_order.antisym)
  then have "solid (ent s') w" using assms(1) by (simp add: inside_def solid_iff)
  then show ?thesis
    using assms gentle_confined gentle_bounded confined_trans unfolding inside_def by metis
qed

lemma valid_unpack_touch:
  assumes "touches l False t m"
  shows "valid (\<lambda>s. unpacking w s0 s \<and> below w t s) m
    (\<lambda>_ s. unpacking w s0 s \<and> below w t s) (\<lambda>s. unpacking w s0 s \<and> below w t s)"
proof -
  have "unpacking w s0 s' \<and> below w t s'"
    if s: "unpacking w s0 s \<and> below w t s" and m: "m s = (r, s')" for s r s'
  proof -
    have q: "q = comps t" if "resolve s False t = Inr q" for q
      using s that reachable_resolve [of w t s False q] by (simp add: below_def)
    from m assms consider k where "s' = s\<lparr>tick := k\<rparr>"
      | "gentle l (comps t) s s'" "resolve s False t = Inr (comps t)"
      unfolding touches_def using q by metis
    then show ?thesis
    proof cases
      case 1
      then show ?thesis using s stable_tick [OF stable_below] by blast
    next
      case 2
      have t: "rooted t" "prefix w (comps t)" "comps t \<noteq> w" using s by (simp_all add: below_def reachable_in_def)
      have "is_dir (ent s (butlast (comps t)))"
        using s 2(2) t(1) resolve_parent by (auto simp: unpacking_def)
      then have u: "unpacking w s0 s'"
        using s 2(1) t inside_gentle_below gentle_tree by (auto simp: unpacking_def)
      have "ent s' d = ent s d" if "prefix d (butlast (comps t))" for d
      proof -
        have "length (butlast (comps t)) < length (comps t) \<or> comps t = []"
          by (cases "comps t" rule: rev_cases) auto
        then have "d \<noteq> comps t" using that t by (auto dest: prefix_length_le)
        then show ?thesis using 2(1) by (simp add: gentle_def)
      qed
      then show ?thesis using u s by (auto simp: below_def reachable_in_def nolinks_iff)
    qed
  qed
  then show ?thesis by (intro validI)
qed

lemma valid_Link:
  "valid (\<lambda>s. (unpacking w s0 s \<and> below w t s) \<and> reachable_in w l (ent s)) (Link l t)
    (\<lambda>_. unpacking w s0) (unpacking w s0)"
  unfolding Link_def
proof (rule valid_sysop)
  fix s a s' assume s: "(unpacking w s0 s \<and> below w t s) \<and> reachable_in w l (ent s)"
  let ?s = "s\<lparr>tick := Suc (tick s)\<rparr>"
  assume e: "(case resolve ?s False l of Inl e \<Rightarrow> Inl e | Inr o1 \<Rightarrow> (case ent ?s o1 of None \<Rightarrow> Inl ENOENT
       | Some x \<Rightarrow> if is_dir (Some x) then Inl EPERM else (case resolve ?s False t of Inl e \<Rightarrow> Inl e
          | Inr q \<Rightarrow> (case ent ?s q of Some y \<Rightarrow> Inl EEXIST | None \<Rightarrow> Inr ((), set_ent q x ?s))))) = Inr (a, s')"
  have ql: "q = comps l" if "resolve s False l = Inr q" for q
    using s that reachable_resolve [of w l s False q] by simp
  have qt: "q = comps t" if "resolve s False t = Inr q" for q
    using s that reachable_resolve [of w t s False q] by (simp add: below_def)
  obtain o1 x0 q where "resolve s False l = Inr o1" "ent s o1 = Some x0" "\<not> is_dir (Some x0)"
    "resolve s False t = Inr q" "ent s q = None" "s' = set_ent q x0 ?s"
    using e by (auto split: sum.splits option.splits if_splits)
  then obtain x where x: "ent s (comps l) = Some x" "\<not> is_dir (Some x)" "ent s (comps t) = None"
    "resolve s False t = Inr (comps t)" "s' = set_ent (comps t) x ?s"
    using ql [of o1] qt [of q] by simp
  have t: "rooted t" "prefix w (comps t)" "comps t \<noteq> w" and l: "prefix w (comps l)"
    using s by (simp_all add: below_def reachable_in_def)
  have "is_dir (ent s (butlast (comps t)))" using s x(4) t(1) resolve_parent by (auto simp: unpacking_def)
  then have tr: "tree s'"
    using s x(3,5) set_ent_tree [of ?s "comps t" x] by (simp add: unpacking_def tree_def)
  have ino: "inos w s' \<subseteq> inos w s" using x l by (auto simp: inos_def split: if_splits)
  have "confined w s s'" using x t ino by (auto simp: confined_def)
  moreover have "bounded s'" using s x by (auto simp: unpacking_def inside_def bounded_def split: if_splits)
  moreover have "solid (ent s') w" using s x t by (auto simp: unpacking_def inside_def solid_iff dest: prefix_order.antisym)
  ultimately show "unpacking w s0 s'" using s tr by (auto simp: unpacking_def inside_def intro: confined_trans)
qed (use stable_tick [OF stable_unpacking] in blast)


section \<open>Entries\<close>

lemma valid_unpack_usable:
  assumes "touches False f t m"
  shows "valid (\<lambda>s. unpacking w s0 s \<and> usable w t (ent s)) m
    (\<lambda>_ s. unpacking w s0 s \<and> usable w t (ent s)) (\<lambda>s. unpacking w s0 s \<and> usable w t (ent s))"
proof (cases "rooted t")
  case True
  show ?thesis
    by (rule valid_conseq [OF valid_conj [OF valid_touches_usable [OF assms, of w s0] valid_touches_tree [OF assms True]]])
      (auto simp: unpacking_def)
qed (simp add: valid_def usable_def reachable_in_def)

lemma valid_unpack_open:
  "valid (\<lambda>s. unpacking w s0 s \<and> reachable_in w t (ent s)) (OpenTruncNoFollow t m)
    (\<lambda>i s. (unpacking w s0 s \<and> usable w t (ent s)) \<and> prefix w (comps t) \<and> ent s (comps t) = Some (RegE i))
    (unpacking w s0)"
proof (cases "rooted t")
  case True
  show ?thesis
    by (rule valid_conseq [OF valid_conj [OF valid_store_file [of w s0 t m]
            valid_touches_tree [OF touches_OpenTruncNoFollow [of False t m] True]]])
      (auto simp: unpacking_def)
qed (simp add: valid_def reachable_in_def)

lemma valid_unpack_write:
  "valid (\<lambda>s. (unpacking w s0 s \<and> usable w t (ent s)) \<and> prefix w (comps t) \<and> ent s (comps t) = Some (RegE i))
    (FWrite i bs) (\<lambda>_ s. unpacking w s0 s \<and> usable w t (ent s)) (\<lambda>s. unpacking w s0 s \<and> usable w t (ent s))"
proof -
  have tr: "valid tree (FWrite i bs) (\<lambda>_. tree) tree"
    by (rule validI) (use tree_ent FWrite_ent in blast)+
  show ?thesis
    by (rule valid_conseq [OF valid_conj [OF valid_FWrite_usable [of w s0 t i bs] tr]]) (auto simp: unpacking_def)
qed

lemma valid_unpack_meta_link:
  "valid (\<lambda>s. unpacking w s0 s \<and> below w t s) (applyMetadata t h True) (\<lambda>_. unpacking w s0) (unpacking w s0)"
  unfolding applyMetadata_def
  by (simp, rule valid_andThen [OF valid_attempt [OF valid_conseq
        [OF valid_unpack_touch [OF touches_chown(3) [of False]]]], where Q = "\<lambda>_. unpacking w s0"])
    (auto intro: valid_ret)

lemma valid_unpack_meta:
  "valid (\<lambda>s. unpacking w s0 s \<and> usable w t (ent s)) (applyMetadata t h False) (\<lambda>_. unpacking w s0) (unpacking w s0)"
proof -
  let ?U = "\<lambda>s. unpacking w s0 s \<and> usable w t (ent s)"
  have chmod: "valid ?U (wrap LayerOs (Chmod t m)) (\<lambda>_. ?U) (unpacking w s0)" for m
    by (rule valid_wrap [OF valid_conseq [OF valid_unpack_usable [OF touches_chown(1)]]]) auto
  have chown: "valid ?U (attempt (Chown t u g)) (\<lambda>_. ?U) (unpacking w s0)" for u g
    by (rule valid_attempt [OF valid_conseq [OF valid_unpack_usable [OF touches_chown(2)]]]) auto
  have times: "valid ?U (wrap LayerOs (Chtimes t k)) (\<lambda>_. unpacking w s0) (unpacking w s0)" for k
    by (rule valid_wrap [OF valid_conseq [OF valid_unpack_usable [OF touches_Chtimes]]]) auto
  show ?thesis
    unfolding applyMetadata_def if_False
    by (intro valid_andThen [OF chmod] valid_andThen [OF chown] valid_if valid_throw times) simp
qed

lemma valid_unpack_check:
  assumes "cleaned root" "rooted root" "cleaned t" "rooted t" "prefix (comps root) (comps t)"
  shows "valid (unpacking (comps root) s0) (ensureNoSymlinkParents root t)
    (\<lambda>_ s. unpacking (comps root) s0 s \<and> reachable_in (comps root) t (ent s)) (unpacking (comps root) s0)"
  by (rule valid_conseq [OF layer_guard.valid_check [OF assms]]) (auto simp: unpacking_def)

lemma valid_unpack_writeFile:
  assumes root: "cleaned root" "rooted root" and t: "cleaned t" "rooted t" "prefix (comps root) (comps t)"
  shows "valid (\<lambda>s. unpacking (comps root) s0 s \<and> below (comps root) t s) (writeFile root t h rd)
    (\<lambda>_. unpacking (comps root) s0) (unpacking (comps root) s0)"
proof -
  let ?I = "unpacking (comps root) s0"
  let ?U = "\<lambda>s. ?I s \<and> usable (comps root) t (ent s)"
  let ?R = "\<lambda>s. ?I s \<and> reachable_in (comps root) t (ent s)"
  have parents: "valid (\<lambda>s. ?I s \<and> below (comps root) t s) (wrap LayerOs (MkdirAll (Dir t) 493)) (\<lambda>_. ?I) ?I"
    by (rule valid_wrap [OF valid_conseq [OF valid_unpack_parents]]) auto
  have lstat: "valid ?R (attempt (Lstat t)) (\<lambda>_. ?R) ?I"
    by (intro valid_attempt_same valid_readonly readonly_Lstat stable_conj) auto
  have close: "valid ?U (attempt (FClose i)) (\<lambda>_. ?U) ?I" for i
    by (intro valid_attempt_same valid_readonly readonly_FClose) (auto simp: stable_def unpacking_def inside_def tree_def)
  have wr: "valid (\<lambda>s. ?U s \<and> prefix (comps root) (comps t) \<and> ent s (comps t) = Some (RegE i))
      (attempt (FWrite i bs)) (\<lambda>_. ?U) ?I" for i bs
    by (rule valid_attempt [OF valid_conseq [OF valid_unpack_write]]) auto
  show ?thesis
    unfolding writeFile_def
    by (intro valid_andThen [OF parents] valid_andThen [OF valid_unpack_check [OF root t]]
        valid_andThen [OF lstat] valid_andThen [OF valid_wrap [OF valid_unpack_open]]
        valid_andThen [OF wr] valid_andThen [OF close] valid_if valid_throw valid_sum valid_unpack_meta) auto
qed

lemma valid_unpack_symlink:
  "valid (\<lambda>s. unpacking w s0 s \<and> below w t s) (symlink t h) (\<lambda>_. unpacking w s0) (unpacking w s0)"
proof -
  let ?B = "\<lambda>s. unpacking w s0 s \<and> below w t s"
  have parents: "valid ?B (wrap LayerOs (MkdirAll (Dir t) 493)) (\<lambda>_. ?B) (unpacking w s0)"
    by (rule valid_wrap [OF valid_conseq [OF valid_unpack_parents]]) auto
  have rm: "valid ?B (wrap LayerOs (RemoveAll t)) (\<lambda>_. ?B) (unpacking w s0)"
    by (rule valid_wrap [OF valid_conseq [OF valid_RemoveAll]]) auto
  have ln: "valid ?B (wrap LayerOs (Symlink l t)) (\<lambda>_. ?B) (unpacking w s0)" for l
    by (rule valid_wrap [OF valid_conseq [OF valid_unpack_touch [OF touches_Symlink]]]) auto
  show ?thesis
    unfolding symlink_def
    by (intro valid_sum valid_throw valid_andThen [OF parents] valid_andThen [OF rm] valid_andThen [OF ln]
        valid_unpack_meta_link) auto
qed


lemma unpack_keeps_reach:
  assumes "\<And>s0. valid (\<lambda>s. unpacking w s0 s \<and> below w t s) m
      (\<lambda>_ s. unpacking w s0 s \<and> below w t s) (\<lambda>s. unpacking w s0 s \<and> below w t s)"
    and "\<And>s r s' d. below w t s \<Longrightarrow> unpacking w s s \<Longrightarrow> m s = (r, s') \<Longrightarrow> nolinks (ent s) d \<Longrightarrow> nolinks (ent s') d"
  shows "valid (\<lambda>s. (unpacking w s0 s \<and> below w t s) \<and> reachable_in w l (ent s)) m
    (\<lambda>_ s. (unpacking w s0 s \<and> below w t s) \<and> reachable_in w l (ent s))
    (\<lambda>s. (unpacking w s0 s \<and> below w t s) \<and> reachable_in w l (ent s))"
proof -
  have "reachable_in w l (ent s')" if "unpacking w s0 s" "below w t s" "reachable_in w l (ent s)" "m s = (r, s')" for s r s'
    using that assms(2) [of s r s'] by (auto simp: reachable_in_def unpacking_def inside_def)
  then show ?thesis using assms(1) [of s0] by (intro validI) (blast dest: valid_Inr valid_Inl)+
qed

lemma RemoveAll_nolinks: "RemoveAll p s = (r, s') \<Longrightarrow> nolinks (ent s) d \<Longrightarrow> nolinks (ent s') d"
  unfolding RemoveAll_def sysop_def Let_def nolinks_iff
  by (auto split: option.splits sum.splits if_splits)

lemma valid_unpack_hardlink:
  assumes root: "cleaned root" "rooted root" and t: "cleaned t" "rooted t" "prefix (comps root) (comps t)"
    and ne: "comps t \<noteq> comps root"
  shows "valid (\<lambda>s. unpacking (comps root) s0 s \<and> below (comps root) t s) (hardlink root t h)
    (\<lambda>_. unpacking (comps root) s0) (unpacking (comps root) s0)"
proof -
  let ?w = "comps root"
  let ?I = "unpacking ?w s0"
  let ?B = "\<lambda>s. ?I s \<and> below ?w t s"
  have check1: "valid ?B (ensureNoSymlinkParents root t) (\<lambda>_. ?B) ?I"
    by (rule valid_conseq [OF valid_unpack_check [OF root t]]) (auto simp: below_def ne)
  { fix linkName l assume "cleanLayerPath (h_Linkname h) = Inr linkName" "safePath root linkName = Inr l"
    then have l: "cleaned l" "rooted l" "prefix ?w (comps l)"
      using cleanLayerPath_facts [of "h_Linkname h" linkName] layer_safePath [OF root(2), of linkName] by auto
    let ?L = "\<lambda>s. ?B s \<and> reachable_in ?w l (ent s)"
    have check2: "valid ?B (ensureNoSymlinkParents root l) (\<lambda>_. ?L) ?I"
      by (rule valid_conseq [OF valid_frame [OF valid_unpack_check [OF root l] readonly_ensureNoSymlinkParents,
              where R = "\<lambda>s. below ?w t s"]])
        (auto simp: stable_def below_def)
    have lstat: "valid ?L (wrap LayerOs (Lstat l)) (\<lambda>_. ?L) ?I"
      by (rule valid_wrap [OF valid_conseq [OF valid_readonly [OF readonly_Lstat, of ?L]]])
        (auto intro!: stable_conj)
    have parents: "valid ?L (wrap LayerOs (MkdirAll (Dir t) 493)) (\<lambda>_. ?L) ?I"
      by (rule valid_wrap [OF valid_conseq [OF unpack_keeps_reach [OF valid_unpack_parents]]])
        (auto intro: MkdirAll_nolinks)
    have rm: "valid ?L (wrap LayerOs (RemoveAll t)) (\<lambda>_. ?L) ?I"
      by (rule valid_wrap [OF valid_conseq [OF unpack_keeps_reach [OF valid_RemoveAll]]])
        (auto intro: RemoveAll_nolinks)
    have "valid ?B (andThen (ensureNoSymlinkParents root t) (\<lambda>_.
             andThen (ensureNoSymlinkParents root l) (\<lambda>_.
             andThen (wrap LayerOs (Lstat l)) (\<lambda>info.
               if is_lnk (Some info) then throw HardlinkToSymlink
               else
                 andThen (wrap LayerOs (MkdirAll (Dir t) 493)) (\<lambda>_.
                 andThen (wrap LayerOs (RemoveAll t)) (\<lambda>_. wrap LayerOs (Link l t))))))) (\<lambda>_. ?I) ?I"
      by (intro valid_andThen [OF check1] valid_andThen [OF check2] valid_andThen [OF lstat] valid_if valid_throw
          valid_andThen [OF parents] valid_andThen [OF rm] valid_wrap [OF valid_Link]) auto }
  then show ?thesis unfolding hardlink_def by (intro valid_sum valid_throw) auto
qed

text \<open>A whiteout entry: one whose name tells the applier to remove something.\<close>

definition is_whiteout :: "tar_header \<Rightarrow> bool" where
  "is_whiteout h = HasPrefix (Base (Clean (h_Name h))) ''.wh.''"

lemma valid_applyEntry:
  assumes root: "cleaned root" "rooted root" and nw: "\<not> is_whiteout h"
  shows "valid (unpacking (comps root) s0) (applyEntry root h rd)
    (\<lambda>_. unpacking (comps root) s0) (unpacking (comps root) s0)"
proof (cases "cleanLayerPath (h_Name h)")
  case (Inl e)
  then show ?thesis by (simp add: applyEntry_def valid_throw)
next
  case (Inr name)
  let ?I = "unpacking (comps root) s0"
  let ?t = "Join [Clean root, name]"
  note n = cleanLayerPath_facts [OF Inr]
  note sp = layer_safePath [OF root(2) n(2,4)]
  have t: "cleaned ?t" "rooted ?t" "prefix (comps root) (comps ?t)" "comps ?t \<noteq> comps root"
    using sp n(3) by auto
  have base: "\<not> HasPrefix (Base name) ''.wh.''" using nw n(1) by (simp add: is_whiteout_def)
  then have nopq: "Base name \<noteq> ''.wh..wh..opq''" by (auto simp: HasPrefix_def)
  have check: "valid ?I (ensureNoSymlinkParents root ?t) (\<lambda>_ s. ?I s \<and> below (comps root) ?t s) ?I"
    by (rule valid_conseq [OF valid_unpack_check [OF root t(1,2,3)]]) (use t(4) in \<open>auto simp: below_def\<close>)
  have mk: "valid (\<lambda>s. ?I s \<and> below (comps root) ?t s) (mkdir ?t h) (\<lambda>_. ?I) ?I"
    unfolding mkdir_def
    by (rule valid_andThen [OF valid_wrap [OF valid_conseq [OF valid_unpack_mkdir]] valid_unpack_meta_link]) auto
  have "valid ?I (andThen (ensureNoSymlinkParents root ?t) (\<lambda>_.
      let ty = h_Typeflag h in
       if ty = TypeDir then mkdir ?t h
       else if ty = TypeReg \<or> ty = TypeRegA then writeFile root ?t h rd
       else if ty = TypeSymlink then symlink ?t h
       else if ty = TypeLink then hardlink root ?t h
       else if ty \<in> {TypeXGlobalHeader, TypeXHeader, TypeGNULongName, TypeGNULongLink} then ret ()
       else if ty \<in> {TypeChar, TypeBlock, TypeFifo} then throw DeviceEntry
       else throw (UnsupportedEntry ty))) (\<lambda>_. ?I) ?I"
    unfolding Let_def
    by (intro valid_andThen [OF check] valid_if mk valid_unpack_writeFile root t valid_unpack_symlink
        valid_unpack_hardlink valid_ret valid_throw) auto
  then show ?thesis
    using Inr base nopq iffD2 [OF sp(1) refl] by (simp add: applyEntry_def Let_def)
qed

lemma valid_applyEntries:
  assumes root: "cleaned root" "rooted root" and "\<And>h b. (h, b) \<in> set es \<Longrightarrow> \<not> is_whiteout h"
  shows "valid (unpacking (comps root) s0) (applyEntries ctx root es eof)
    (\<lambda>_. unpacking (comps root) s0) (unpacking (comps root) s0)"
  using assms(3)
proof (induction es)
  case Nil
  show ?case
    unfolding applyEntries.simps ctx_done_def
    by (rule valid_andThen [OF valid_reads, where Q = "\<lambda>_. unpacking (comps root) s0"])
      (auto intro!: valid_if valid_ret valid_throw)
next
  case (Cons e es)
  obtain h b where e: "e = (h, b)" by fastforce
  have "valid (unpacking (comps root) s0) (applyEntries ctx root es eof)
      (\<lambda>_. unpacking (comps root) s0) (unpacking (comps root) s0)"
    using Cons by auto
  then show ?case
    unfolding e applyEntries.simps ctx_done_def
    by (intro valid_andThen [OF valid_reads, where Q = "\<lambda>_. unpacking (comps root) s0"] valid_if valid_throw
        valid_andThen [OF valid_wrap [OF valid_applyEntry [OF root]]])
      (use Cons.prems e in auto)
qed

section \<open>Properties\<close>

text \<open>
  \<open>cleanLayerPath\<close> accepts exactly the relative names that do not climb above their start
  and do not denote the start itself; it returns the cleaned name.
\<close>

theorem cleanLayerPath_accepts_exactly:
  "cleanLayerPath n = Inr name \<longleftrightarrow>
     name = Clean n \<and> \<not> rooted n \<and> comps n \<noteq> [] \<and> list_all plain (comps n)"
proof
  assume "cleanLayerPath n = Inr name"
  from cleanLayerPath_facts [OF this]
  show "name = Clean n \<and> \<not> rooted n \<and> comps n \<noteq> [] \<and> list_all plain (comps n)" by simp
next
  assume a: "name = Clean n \<and> \<not> rooted n \<and> comps n \<noteq> [] \<and> list_all plain (comps n)"
  then have r: "Clean n = join_with ''/'' (comps n)" by (simp add: Clean_def render_def)
  have sl: "slash \<notin> set c" if "c \<in> set (comps n)" for c
    using a that by (simp add: list_all_iff)
  have "hd (comps n) \<noteq> ''..''" using a by (cases "comps n") (auto simp: plain_not_dotdot)
  then have "\<not> escapes (join_with ''/'' (comps n))" using join_starts_dotdot [OF sl] by simp
  moreover have "Clean n \<noteq> ''.''" using a comps_Clean [of n] by (auto simp: comps_def simp del: comps_Clean)
  moreover have "n \<noteq> ''''" using a by (auto simp: comps_def)
  ultimately show "cleanLayerPath n = Inr name"
    using a r by (cases n) (auto simp: cleanLayerPath_def Let_def IsAbs_def escapes_def HasPrefix_def rooted_def)
qed

text \<open>A directory into which a layer is unpacked.\<close>

definition mounted :: "string \<Rightarrow> os \<Rightarrow> bool" where
  "mounted root s = (cleaned root \<and> rooted root \<and> bounded s \<and> solid (ent s) (comps root) \<and> tree s)"

lemma mounted_unpacking: "mounted root s \<Longrightarrow> unpacking (comps root) s s"
  by (simp add: mounted_def unpacking_def inside_def)

text \<open>
  C10: unpacking a layer without whiteout entries changes nothing outside the root directory,
  whatever its directories, files, links and errors are, and whatever links the directory
  already holds.
\<close>

theorem ApplyLayer_confined:
  assumes "mounted root s" "\<And>st. list_all (\<lambda>(h, b). \<not> is_whiteout h) (fst (untar st))"
    and "ApplyLayer gunzip untar ctx root path expected s = (r, s')"
  shows "confined (comps root) s s'"
proof -
  have root: "cleaned root" "rooted root" using assms(1) by (simp_all add: mounted_def)
  let ?I = "unpacking (comps root) s"
  have "valid ?I (ApplyLayer gunzip untar ctx root path expected) (\<lambda>_. ?I) ?I"
    unfolding ApplyLayer_def
  proof (rule valid_andThen [OF valid_wrap [OF valid_readonly [OF readonly_ReadFile stable_unpacking]]],
      intro valid_sum valid_throw valid_prod)
    fix st es eof assume u: "untar st = (es, eof)"
    have "valid ?I (applyEntries ctx root es eof) (\<lambda>_. ?I) ?I"
      by (rule valid_applyEntries [OF root]) (use assms(2) [of st] u in \<open>auto simp: list_all_iff\<close>)
    then show "valid ?I (andThen (applyEntries ctx root es eof) (\<lambda>_.
        if st_err st then throw StreamError
        else if diffID (st_bytes st) \<noteq> expected then throw (DiffIDMismatch (diffID (st_bytes st)) expected)
        else ret ())) (\<lambda>_. ?I) ?I"
      by (rule valid_andThen) (intro valid_if valid_throw valid_ret)
  qed
  with mounted_unpacking [OF assms(1)] assms(3) have "?I s'"
    by (cases r) (auto dest: valid_Inr valid_Inl)
  then show ?thesis by (simp add: unpacking_def inside_def)
qed

text \<open>
  A layer is accepted only if its decompressed stream was read to its end without an
  error and the SHA-256 digest of all of it is the expected diff ID.
\<close>

theorem ApplyLayer_verifies_diffID:
  assumes "ApplyLayer gunzip untar ctx root path expected s = (Inr u, s')"
  shows "\<exists>data s1 st. ReadFile path s = (Inr data, s1) \<and> layerReader gunzip data = Inr st \<and>
    snd (untar st) \<and> \<not> st_err st \<and> ''sha256:'' @ hex_EncodeToString (Sum256 (st_bytes st)) = expected"
proof -
  obtain data s1 where rd: "ReadFile path s = (Inr data, s1)"
    using assms by (auto simp: ApplyLayer_def andThen_def wrap_def split: prod.splits sum.splits)
  with assms obtain st where st: "layerReader gunzip data = Inr st"
    by (cases "layerReader gunzip data") (auto simp: ApplyLayer_def andThen_def wrap_def throw_def)
  obtain es eof where u: "untar st = (es, eof)" by fastforce
  have eof: "eof" if "applyEntries ctx root es eof x = (Inr v, x')" for es x v x'
    using that
  proof (induction es arbitrary: x)
    case Nil
    then show ?case by (auto simp: ctx_done_def andThen_def reads_def throw_def split: if_splits)
  next
    case (Cons e es)
    then show ?case
      by (cases e) (auto simp: ctx_done_def andThen_def reads_def throw_def wrap_def split: if_splits prod.splits sum.splits)
  qed
  from assms rd st u eof show ?thesis
    by (auto simp: ApplyLayer_def andThen_def wrap_def throw_def ret_def diffID_def split: prod.splits sum.splits if_splits)
qed

section \<open>A concrete directory\<close>

definition host_attr :: attr where
  "host_attr = \<lparr>perm = 493, owner = 0, grp = 0\<rparr>"

text \<open>A root directory with a link that leaves it, a file outside, and a layer blob.\<close>

definition layer_os :: os where
  "layer_os =
     \<lparr>ents = [([], DirE host_attr), ([''etc''], DirE host_attr), ([''etc'', ''passwd''], RegE 0),
              ([''r''], DirE host_attr), ([''r'', ''ln''], LnkE ''/etc'' host_attr), ([''blob''], RegE 1)],
      inodes = [0 \<mapsto> \<lparr>contents = ''root'', iattr = host_attr, mtime = 0\<rparr>,
                1 \<mapsto> \<lparr>contents = ''tar'', iattr = host_attr, mtime = 0\<rparr>],
      next_ino = 2, cwd = [], umask = 18, ruid = 0, rgid = 0, euid = 0, now = 0,
      rand = (\<lambda>n. n), tick = 0, fault = (\<lambda>_. None)\<rparr>"

definition demo_header :: "string \<Rightarrow> char \<Rightarrow> string \<Rightarrow> tar_header" where
  "demo_header name ty link = \<lparr>h_Name = name, h_Typeflag = ty, h_Linkname = link, h_Size = 0, h_Mode = 493,
     h_Uid = 0, h_Gid = 0, h_ModTime = None\<rparr>"

definition empty_stream :: stream where
  "empty_stream = \<lparr>st_bytes = '''', st_err = False\<rparr>"

definition demo_untar :: "stream \<Rightarrow> (tar_header \<times> stream) list \<times> bool" where
  "demo_untar st = ([(demo_header ''d'' TypeDir '''', empty_stream),
                     (demo_header ''d/f'' TypeReg '''', \<lparr>st_bytes = ''data'', st_err = False\<rparr>),
                     (demo_header ''d/s'' TypeSymlink ''/etc'', empty_stream)], True)"

lemma tree_layer_os: "tree layer_os"
proof -
  have "p = [] \<or> p = [''etc''] \<or> p = [''r'']" if "ent layer_os (p @ [c]) \<noteq> None" for p c
    using that by (cases p rule: rev_cases) (auto simp: ent_def layer_os_def split: if_splits)
  then show ?thesis unfolding tree_def by (auto simp: ent_def layer_os_def)
qed

lemma mounted_layer_os: "mounted ''/r'' layer_os"
proof -
  have "cleaned ''/r'' \<and> rooted ''/r'' \<and> solid (ent layer_os) (comps ''/r'')"
    unfolding cleaned_def by code_simp
  moreover have "bounded layer_os"
    by (auto simp: bounded_def ent_def layer_os_def split: if_splits)
  ultimately show ?thesis by (simp add: mounted_def tree_layer_os)
qed

theorem ApplyLayer_confined_witness:
  "confined (comps ''/r'') layer_os
     (snd (ApplyLayer (\<lambda>_. None) demo_untar (\<lambda>_. False) ''/r'' ''/blob'' (diffID ''tar'') layer_os))"
proof -
  obtain r s' where a: "ApplyLayer (\<lambda>_. None) demo_untar (\<lambda>_. False) ''/r'' ''/blob'' (diffID ''tar'') layer_os = (r, s')"
    by fastforce
  have "\<not> is_whiteout (demo_header n ty l)" if "n \<in> {''d'', ''d/f'', ''d/s''}" for n ty l
  proof -
    have "list_all (\<lambda>n. \<not> HasPrefix (Base (Clean n)) ''.wh.'') [''d'', ''d/f'', ''d/s'']" by code_simp
    with that show ?thesis by (auto simp: is_whiteout_def demo_header_def)
  qed
  then have "list_all (\<lambda>(h, b). \<not> is_whiteout h) (fst (demo_untar st))" for st
    by (simp add: demo_untar_def)
  from ApplyLayer_confined [OF mounted_layer_os this a] show ?thesis by (simp add: a)
qed

lemma demo_layer_applies:
  "fst (applyEntries (\<lambda>_. False) ''/r'' (fst (demo_untar st)) True (layer_os\<lparr>tick := 1\<rparr>)) = Inr ()"
  unfolding demo_untar_def fst_conv by code_simp

theorem ApplyLayer_verifies_diffID_witness:
  "fst (ApplyLayer (\<lambda>_. None) demo_untar (\<lambda>_. False) ''/r'' ''/blob'' (diffID ''tar'') layer_os) = Inr () \<and>
   (\<exists>data s1 st. ReadFile ''/blob'' layer_os = (Inr data, s1) \<and> layerReader (\<lambda>_. None) data = Inr st \<and>
      snd (demo_untar st) \<and> \<not> st_err st \<and>
      ''sha256:'' @ hex_EncodeToString (Sum256 (st_bytes st)) = diffID ''tar'')"
proof -
  have "fst (ReadFile ''/blob'' layer_os) = Inr ''tar'' \<and> tick (snd (ReadFile ''/blob'' layer_os)) = 1" by code_simp
  moreover have "\<exists>t. snd (ReadFile ''/blob'' layer_os) = layer_os\<lparr>tick := t\<rparr>"
    using readonly_ReadFile [of "''/blob''"] unfolding readonly_def by (metis prod.collapse)
  ultimately have rd: "ReadFile ''/blob'' layer_os = (Inr ''tar'', layer_os\<lparr>tick := 1\<rparr>)"
    by (cases "ReadFile ''/blob'' layer_os") auto
  have lr: "layerReader (\<lambda>_. None) ''tar'' = Inr \<lparr>st_bytes = ''tar'', st_err = False\<rparr>" by (simp add: layerReader_def)
  let ?a = "ApplyLayer (\<lambda>_. None) demo_untar (\<lambda>_. False) ''/r'' ''/blob'' (diffID ''tar'') layer_os"
  obtain es where u: "demo_untar \<lparr>st_bytes = ''tar'', st_err = False\<rparr> = (es, True)" by (simp add: demo_untar_def)
  obtain s2 where ap: "applyEntries (\<lambda>_. False) ''/r'' es True (layer_os\<lparr>tick := 1\<rparr>) = (Inr (), s2)"
    using demo_layer_applies [of "\<lparr>st_bytes = ''tar'', st_err = False\<rparr>"] unfolding u fst_conv
    by (metis prod.collapse)
  have ok: "fst ?a = Inr ()"
    unfolding ApplyLayer_def by (simp add: andThen_def wrap_def rd lr u ap [simplified] ret_def)
  then obtain s' where "?a = (Inr (), s')" by (cases ?a) auto
  from ApplyLayer_verifies_diffID [OF this] ok show ?thesis by blast
qed


end
