(* ===== verification/DiskfsApplier.thy ===== *)
theory DiskfsApplier
  imports LayerApplier
begin

text \<open>
  Unpacking layers into an ext4 image in pure Go (\<open>internal/rootfsbuilder/pure_ext4.go\<close>).  The
  file system of the go-diskfs library is a parameter: a record of its operations on a state
  of any type \<open>'fs\<close>.  An operation returns a value, an error (\<open>FsNotExist\<close> when the code's test
  for a missing file accepts it) or panics.  The applier's own state is the set of paths where
  it made symbolic links.
\<close>

section \<open>The library's file system\<close>

datatype 'a xres = XOk 'a | XErr layer_error | XPanic

record 'fs ext4 =
  x_Stat :: "string \<Rightarrow> 'fs \<Rightarrow> bool xres \<times> 'fs"
  x_Mkdir :: "string \<Rightarrow> 'fs \<Rightarrow> unit xres \<times> 'fs"
  x_Remove :: "string \<Rightarrow> 'fs \<Rightarrow> unit xres \<times> 'fs"
  x_ReadDir :: "string \<Rightarrow> 'fs \<Rightarrow> string list xres \<times> 'fs"
  x_ReadFile :: "string \<Rightarrow> 'fs \<Rightarrow> string xres \<times> 'fs"
  x_ReadLink :: "string \<Rightarrow> 'fs \<Rightarrow> string xres \<times> 'fs"
  x_Symlink :: "string \<Rightarrow> string \<Rightarrow> 'fs \<Rightarrow> unit xres \<times> 'fs"
  x_OpenFile :: "string \<Rightarrow> bool \<Rightarrow> 'fs \<Rightarrow> nat xres \<times> 'fs"
  x_Write :: "nat \<Rightarrow> string \<Rightarrow> 'fs \<Rightarrow> unit xres \<times> 'fs"
  x_Close :: "nat \<Rightarrow> 'fs \<Rightarrow> unit xres \<times> 'fs"
  x_Chmod :: "string \<Rightarrow> uint32 \<Rightarrow> 'fs \<Rightarrow> unit xres \<times> 'fs"
  x_Chown :: "string \<Rightarrow> int \<Rightarrow> int \<Rightarrow> 'fs \<Rightarrow> unit xres \<times> 'fs"

record 'fs dstate =
  FS :: 'fs
  Symlinks :: "string \<Rightarrow> bool"

text \<open>
  A run ends with a value, an error, a panic, or (\<open>DFuel\<close>) because the recursion of
  \<open>removeAll\<close> went deeper than the fuel given to it.
\<close>

datatype 'a dres = DOk 'a | DErr layer_error | DPanic | DFuel

type_synonym ('fs, 'a) dio = "'fs dstate \<Rightarrow> 'a dres \<times> 'fs dstate"

definition dret :: "'a \<Rightarrow> ('fs, 'a) dio" where
  "dret a s = (DOk a, s)"

definition dthrow :: "layer_error \<Rightarrow> ('fs, 'a) dio" where
  "dthrow e s = (DErr e, s)"

definition dbind :: "('fs, 'a) dio \<Rightarrow> ('a \<Rightarrow> ('fs, 'b) dio) \<Rightarrow> ('fs, 'b) dio" where
  "dbind m k s = (case m s of
      (DOk a, s') \<Rightarrow> k a s' | (DErr e, s') \<Rightarrow> (DErr e, s') | (DPanic, s') \<Rightarrow> (DPanic, s') | (DFuel, s') \<Rightarrow> (DFuel, s'))"

definition dtry :: "('fs, 'a) dio \<Rightarrow> ('fs, layer_error + 'a) dio" where
  "dtry m s = (case m s of
      (DOk a, s') \<Rightarrow> (DOk (Inr a), s') | (DErr e, s') \<Rightarrow> (DOk (Inl e), s') | (DPanic, s') \<Rightarrow> (DPanic, s') | (DFuel, s') \<Rightarrow> (DFuel, s'))"

text \<open>A deferred \<open>recover\<close> that turns a panic into an error.\<close>

definition drecover :: "('fs, 'a) dio \<Rightarrow> ('fs, 'a) dio" where
  "drecover m s = (case m s of (DPanic, s') \<Rightarrow> (DErr FsPanic, s') | (r, s') \<Rightarrow> (r, s'))"

definition dcall :: "('fs \<Rightarrow> 'a xres \<times> 'fs) \<Rightarrow> ('fs, 'a) dio" where
  "dcall f s = (case f (FS s) of
      (XOk a, fs) \<Rightarrow> (DOk a, s\<lparr>FS := fs\<rparr>) | (XErr e, fs) \<Rightarrow> (DErr e, s\<lparr>FS := fs\<rparr>) | (XPanic, fs) \<Rightarrow> (DPanic, s\<lparr>FS := fs\<rparr>))"

definition isSymlink :: "string \<Rightarrow> ('fs, bool) dio" where
  "isSymlink p s = (DOk (Symlinks s p), s)"

definition markSymlink :: "string \<Rightarrow> bool \<Rightarrow> ('fs, unit) dio" where
  "markSymlink p b s = (DOk (), s\<lparr>Symlinks := (Symlinks s)(p := b)\<rparr>)"

section \<open>Paths\<close>

definition filepathSlash :: "string \<Rightarrow> string" where
  "filepathSlash name = ReplaceAll (CHR 0x5C) slash name"

definition fsPath :: "string \<Rightarrow> string" where
  "fsPath name =
     (let clean = Clean (filepathSlash name) in
      if clean = ''/'' \<or> clean = '''' then ''.'' else TrimPrefix clean ''/'')"

definition extend :: "string \<Rightarrow> string \<Rightarrow> string" where
  "extend current part = (if current = '''' then part else Join [current, part])"

fun trackedParts :: "string \<Rightarrow> string list \<Rightarrow> ('fs, unit) dio" where
  "trackedParts current [] = dret ()"
| "trackedParts current (part # parts) =
     (let current = extend current part in
      dbind (isSymlink current) (\<lambda>l.
        if l then dthrow (SymlinkParentOf current) else trackedParts current parts))"

definition ensureNoSymlinkParents :: "string \<Rightarrow> ('fs, unit) dio" where
  "ensureNoSymlinkParents target =
     (let dir = Dir (Clean target) in
      if dir = ''/'' \<or> dir = ''.'' then dret ()
      else trackedParts '''' (Split slash (TrimPrefix dir ''/'')))"

section \<open>Operations of the applier\<close>

fun mkdirParts :: "'fs ext4 \<Rightarrow> string \<Rightarrow> string list \<Rightarrow> ('fs, unit) dio" where
  "mkdirParts x current [] = dret ()"
| "mkdirParts x current (part # parts) =
     (let current = extend current part in
      dbind (dtry (dcall (x_Stat x current))) (\<lambda>st.
        case st of
          Inr b \<Rightarrow> mkdirParts x current parts
        | Inl e0 \<Rightarrow>
            dbind (dtry (dcall (x_Mkdir x current))) (\<lambda>mk.
              case mk of
                Inr u \<Rightarrow> mkdirParts x current parts
              | Inl e \<Rightarrow>
                  dbind (dtry (dcall (x_Stat x current))) (\<lambda>st2.
                    case st2 of Inr b \<Rightarrow> mkdirParts x current parts | Inl e1 \<Rightarrow> dthrow e))))"

definition mkdirAll :: "'fs ext4 \<Rightarrow> string \<Rightarrow> ('fs, unit) dio" where
  "mkdirAll x target =
     (let target = Clean target in
      if target = ''/'' \<or> target = ''.'' then dret ()
      else mkdirParts x '''' (Split slash (TrimPrefix target ''/'')))"

text \<open>
  \<open>removeAll\<close> and \<open>removeChildren\<close> call each other; \<open>removeNames\<close> is the loop over the entries
  of a directory.
\<close>

fun removeAll :: "'fs ext4 \<Rightarrow> nat \<Rightarrow> string \<Rightarrow> ('fs, unit) dio"
  and removeChildren :: "'fs ext4 \<Rightarrow> nat \<Rightarrow> string \<Rightarrow> ('fs, unit) dio"
  and removeNames :: "'fs ext4 \<Rightarrow> nat \<Rightarrow> string \<Rightarrow> string list \<Rightarrow> ('fs, unit) dio" where
  "removeAll x 0 target = (\<lambda>s. (DFuel, s))"
| "removeAll x (Suc n) target =
     (if target = ''/'' \<or> target = ''.'' then dthrow RefuseRemoveRoot
      else dbind (isSymlink target) (\<lambda>l.
        if l then dbind (markSymlink target False) (\<lambda>_. dcall (x_Remove x target))
        else dbind (dtry (dcall (x_Stat x target))) (\<lambda>info.
          case info of
            Inl e \<Rightarrow> if e = FsNotExist then dret () else dthrow e
          | Inr isDir \<Rightarrow>
              dbind (if isDir then removeChildren x n target else dret ()) (\<lambda>_.
                dcall (x_Remove x target)))))"
| "removeChildren x 0 target = (\<lambda>s. (DFuel, s))"
| "removeChildren x (Suc n) target =
     dbind (dtry (dcall (x_ReadDir x target))) (\<lambda>r.
       case r of
         Inl e \<Rightarrow> if e = FsNotExist then dret () else dthrow e
       | Inr names \<Rightarrow> removeNames x n target names)"
| "removeNames x n target [] = dret ()"
| "removeNames x n target (name # names) =
     dbind (removeAll x n (Join [target, name])) (\<lambda>_. removeNames x n target names)"

definition removeIfExists :: "'fs ext4 \<Rightarrow> nat \<Rightarrow> string \<Rightarrow> ('fs, unit) dio" where
  "removeIfExists x n target =
     dbind (dtry (dcall (x_Stat x target))) (\<lambda>st.
       case st of
         Inr b \<Rightarrow> removeAll x n target
       | Inl e \<Rightarrow>
           dbind (isSymlink target) (\<lambda>l.
             if l then dbind (markSymlink target False) (\<lambda>_. dcall (x_Remove x target)) else dret ()))"

definition removeSymlink :: "'fs ext4 \<Rightarrow> string \<Rightarrow> ('fs, unit) dio" where
  "removeSymlink x target =
     drecover (dbind (markSymlink target False) (\<lambda>_. dcall (x_Remove x target)))"

definition applyMetadata :: "'fs ext4 \<Rightarrow> string \<Rightarrow> tar_header \<Rightarrow> bool \<Rightarrow> ('fs, unit) dio" where
  "applyMetadata x target header isLink =
     (if isLink then dret ()
      else dbind (dcall (x_Chmod x target (safeFileMode (FileInfo_Mode header) 420))) (\<lambda>_.
             dcall (x_Chown x target (h_Uid header) (h_Gid header))))"

definition mkdir :: "'fs ext4 \<Rightarrow> string \<Rightarrow> tar_header \<Rightarrow> ('fs, unit) dio" where
  "mkdir x target header = dbind (mkdirAll x target) (\<lambda>_. applyMetadata x target header False)"

text \<open>\<open>file.Write\<close> then \<open>file.Close\<close>; the error of the write is reported first.\<close>

definition writeAndClose :: "'fs ext4 \<Rightarrow> nat \<Rightarrow> string \<Rightarrow> ('fs, unit) dio" where
  "writeAndClose x fd bs =
     dbind (dtry (dcall (x_Write x fd bs))) (\<lambda>writeErr.
     dbind (dtry (dcall (x_Close x fd))) (\<lambda>closeErr.
       case writeErr of
         Inl e \<Rightarrow> dthrow e
       | Inr u \<Rightarrow> (case closeErr of Inl e \<Rightarrow> dthrow e | Inr u \<Rightarrow> dret ())))"

definition writeFile :: "'fs ext4 \<Rightarrow> string \<Rightarrow> tar_header \<Rightarrow> stream \<Rightarrow> ('fs, unit) dio" where
  "writeFile x target header reader =
     dbind (mkdirAll x (Dir target)) (\<lambda>_.
     dbind (ensureNoSymlinkParents target) (\<lambda>_.
     dbind (isSymlink target) (\<lambda>l.
       if l then dthrow OverwritesSymlink
       else
         dbind (isSymlink target) (\<lambda>l2.
         dbind (if l2 then dbind (markSymlink target False) (\<lambda>_. dcall (x_Remove x target)) else dret ()) (\<lambda>_.
         dbind (dcall (x_OpenFile x target True)) (\<lambda>fd.
           if st_err reader \<and> int (length (st_bytes reader)) < h_Size header
           then dbind (dtry (dcall (x_Close x fd))) (\<lambda>_. dthrow StreamError)
           else
             dbind (writeAndClose x fd (take (nat (h_Size header)) (st_bytes reader))) (\<lambda>_.
               applyMetadata x target header False)))))))"

definition symlink :: "'fs ext4 \<Rightarrow> nat \<Rightarrow> string \<Rightarrow> tar_header \<Rightarrow> ('fs, unit) dio" where
  "symlink x n target header =
     (case cleanLinkPath (h_Linkname header) of
        Inl e \<Rightarrow> dthrow (UnsafeSymlinkTarget e)
      | Inr l0 \<Rightarrow>
          dbind (mkdirAll x (Dir target)) (\<lambda>_.
          dbind (dtry (dcall (x_ReadLink x target))) (\<lambda>r.
            case r of
              Inr existing \<Rightarrow>
                if existing \<noteq> h_Linkname header then
                  dbind (dtry (removeSymlink x target)) (\<lambda>rm.
                    case rm of
                      Inl e \<Rightarrow> dbind (markSymlink target True) (\<lambda>_. applyMetadata x target header True)
                    | Inr u \<Rightarrow>
                        dbind (dcall (x_Symlink x (h_Linkname header) target)) (\<lambda>_.
                        dbind (markSymlink target True) (\<lambda>_. applyMetadata x target header True)))
                else dbind (markSymlink target True) (\<lambda>_. applyMetadata x target header True)
            | Inl e \<Rightarrow>
                dbind (removeIfExists x n target) (\<lambda>_.
                dbind (dcall (x_Symlink x (h_Linkname header) target)) (\<lambda>_.
                dbind (markSymlink target True) (\<lambda>_. applyMetadata x target header True))))))"

definition hardlink :: "'fs ext4 \<Rightarrow> nat \<Rightarrow> string \<Rightarrow> tar_header \<Rightarrow> ('fs, unit) dio" where
  "hardlink x n target header =
     (case cleanLayerPath (h_Linkname header) of
        Inl e \<Rightarrow> dthrow (UnsafeHardlinkTarget e)
      | Inr linkName \<Rightarrow>
          let linkTarget = fsPath linkName in
          dbind (ensureNoSymlinkParents target) (\<lambda>_.
          dbind (ensureNoSymlinkParents linkTarget) (\<lambda>_.
          dbind (isSymlink linkTarget) (\<lambda>l.
            if l then dthrow HardlinkToSymlink
            else
              dbind (dcall (x_Stat x linkTarget)) (\<lambda>_.
              dbind (mkdirAll x (Dir target)) (\<lambda>_.
              dbind (removeIfExists x n target) (\<lambda>_.
              dbind (dcall (x_ReadFile x linkTarget)) (\<lambda>bs.
              dbind (dcall (x_OpenFile x target False)) (\<lambda>fd.
              dbind (writeAndClose x fd bs) (\<lambda>_.
                applyMetadata x target header False))))))))))"

definition applyEntry :: "'fs ext4 \<Rightarrow> nat \<Rightarrow> tar_header \<Rightarrow> stream \<Rightarrow> ('fs, unit) dio" where
  "applyEntry x n header reader =
     (case cleanLayerPath (h_Name header) of
        Inl e \<Rightarrow> dthrow e
      | Inr name \<Rightarrow>
          let base = Base name; dir = Dir name in
          if base = ''.wh..wh..opq'' then removeChildren x n (fsPath dir)
          else if HasPrefix base ''.wh.'' then
            removeAll x n (fsPath (Join [dir, TrimPrefix base ''.wh.'']))
          else
            let target = fsPath name in
            dbind (ensureNoSymlinkParents target) (\<lambda>_.
              let t = h_Typeflag header in
              if t = TypeDir then mkdir x target header
              else if t = TypeReg \<or> t = TypeRegA then writeFile x target header reader
              else if t = TypeSymlink then symlink x n target header
              else if t = TypeLink then hardlink x n target header
              else if t \<in> {TypeXGlobalHeader, TypeXHeader, TypeGNULongName, TypeGNULongLink} then dret ()
              else if t \<in> {TypeChar, TypeBlock, TypeFifo} then dthrow DeviceEntry
              else dthrow (UnsupportedEntry t)))"

section \<open>Layers and images\<close>

text \<open>
  A layer is read from the host (\<open>os\<close>) and applied to the image.  The context is asked before
  every entry: \<open>ctx t k\<close> says whether it is done before entry \<open>k\<close> of the layer opened at \<open>t\<close>.
\<close>

type_synonym build_ctx = "nat \<Rightarrow> nat \<Rightarrow> bool"

fun applyEntries :: "'fs ext4 \<Rightarrow> nat \<Rightarrow> ctx \<Rightarrow> nat \<Rightarrow> (tar_header \<times> stream) list \<Rightarrow> bool \<Rightarrow> ('fs, unit) dio" where
  "applyEntries x n ctx k [] eof =
     (if ctx k then dthrow LayerCancelled else if eof then dret () else dthrow TarError)"
| "applyEntries x n ctx k ((header, body) # es) eof =
     (if ctx k then dthrow LayerCancelled
      else dbind (dtry (applyEntry x n header body)) (\<lambda>r.
        case r of
          Inl e \<Rightarrow> dthrow (ApplyFailed (h_Name header) e)
        | Inr u \<Rightarrow> applyEntries x n ctx (Suc k) es eof))"

definition applyStream :: "'fs ext4 \<Rightarrow> nat \<Rightarrow> (stream \<Rightarrow> (tar_header \<times> stream) list \<times> bool) \<Rightarrow> ctx \<Rightarrow> stream
    \<Rightarrow> string \<Rightarrow> ('fs, unit) dio" where
  "applyStream x n untar ctx st expectedDiffID =
     (case untar st of (es, eof) \<Rightarrow>
        dbind (applyEntries x n ctx 0 es eof) (\<lambda>_.
          if st_err st then dthrow StreamError
          else if diffID (st_bytes st) \<noteq> expectedDiffID
          then dthrow (DiffIDMismatch (diffID (st_bytes st)) expectedDiffID)
          else dret ()))"

definition ApplyLayer :: "'fs ext4 \<Rightarrow> nat \<Rightarrow> (string \<Rightarrow> stream option) \<Rightarrow> (stream \<Rightarrow> (tar_header \<times> stream) list \<times> bool)
    \<Rightarrow> build_ctx \<Rightarrow> string \<Rightarrow> string \<Rightarrow> 'fs dstate \<Rightarrow> os \<Rightarrow> (unit dres \<times> 'fs dstate) \<times> os" where
  "ApplyLayer x n gunzip untar ctx compressedLayerPath expectedDiffID d s =
     (case ReadFile compressedLayerPath s of
        (Inl e, s') \<Rightarrow> ((DErr (LayerOs e), d), s')
      | (Inr data, s') \<Rightarrow> (case layerReader gunzip data of
          Inl e \<Rightarrow> ((DErr e, d), s')
        | Inr st \<Rightarrow> (applyStream x n untar (ctx (tick s')) st expectedDiffID d, s')))"

fun applyLayers :: "'fs ext4 \<Rightarrow> nat \<Rightarrow> (string \<Rightarrow> stream option) \<Rightarrow> (stream \<Rightarrow> (tar_header \<times> stream) list \<times> bool)
    \<Rightarrow> build_ctx \<Rightarrow> (string \<times> string) list \<Rightarrow> 'fs dstate \<Rightarrow> os \<Rightarrow> (unit dres \<times> 'fs dstate) \<times> os" where
  "applyLayers x n gunzip untar ctx [] d s = ((DOk (), d), s)"
| "applyLayers x n gunzip untar ctx ((path, diff) # ls) d s =
     (case ApplyLayer x n gunzip untar ctx path diff d s of
        ((DOk u, d'), s') \<Rightarrow> applyLayers x n gunzip untar ctx ls d' s'
      | (r, s') \<Rightarrow> (r, s'))"

text \<open>
  \<open>Build\<close>: \<open>mkfs\<close> stands for the library's creation of the image file and of an empty file
  system in it, \<open>sync\<close> for what the library has written to the image file when it is closed.
  A panic anywhere becomes an error.
\<close>

definition Build :: "'fs ext4 \<Rightarrow> nat \<Rightarrow> (string \<Rightarrow> int \<Rightarrow> os \<Rightarrow> 'fs xres \<times> os) \<Rightarrow> (string \<Rightarrow> 'fs \<Rightarrow> os \<Rightarrow> os)
    \<Rightarrow> (string \<Rightarrow> stream option) \<Rightarrow> (stream \<Rightarrow> (tar_header \<times> stream) list \<times> bool)
    \<Rightarrow> build_ctx \<Rightarrow> (string \<times> string) list \<Rightarrow> string \<Rightarrow> int \<Rightarrow> os \<Rightarrow> unit dres \<times> os" where
  "Build x n mkfs sync gunzip untar ctx layers imagePath sz s =
     (case mkfs imagePath sz s of
        (XErr e, s') \<Rightarrow> (DErr e, s')
      | (XPanic, s') \<Rightarrow> (DErr FsPanic, s')
      | (XOk fs, s') \<Rightarrow>
          (case applyLayers x n gunzip untar ctx layers \<lparr>FS = fs, Symlinks = (\<lambda>_. False)\<rparr> s' of
             ((r, d), s'') \<Rightarrow>
               (case r of DPanic \<Rightarrow> DErr FsPanic | _ \<Rightarrow> r, sync imagePath (FS d) s'')))"

end
