(* ===== verification/DiskfsSafety.thy ===== *)
theory DiskfsSafety
  imports DiskfsApplier
begin

text \<open>
  What the ext4 builder asks of the file-system library: for names without backslashes, every
  path it passes is a cleaned relative path inside the image; an entry below a symbolic link
  that the builder made is refused before the library is called; and a layer is accepted only
  with the expected diff ID.  The library is characterised by a locale; its interpretation is
  the POSIX model used as an image.
\<close>

section \<open>Paths inside an image\<close>

definition image_path :: "string \<Rightarrow> bool" where
  "image_path p = (\<not> rooted p \<and> cleaned p \<and> list_all plain (comps p))"

lemma image_render: "list_all plain cs \<Longrightarrow> image_path (render False cs)"
  using plain_normal [of cs False] by (simp add: image_path_def comps_render render_cleaned)

lemma image_path_render: "image_path p \<Longrightarrow> p = render False (comps p)"
  using cleaned_render [of p] by (simp add: image_path_def)

lemma image_path_cases:
  assumes "image_path p"
  obtains cs where "list_all plain cs" "p = render False cs"
  using assms image_path_render by (auto simp: image_path_def)

lemma render_False: "render False cs = (if cs = [] then ''.'' else join_with ''/'' cs)"
  by (simp add: render_def)

lemma comps_image: "list_all plain cs \<Longrightarrow> comps (render False cs) = cs"
  using plain_normal [of cs False] by (simp add: comps_render)

lemma Clean_image: "list_all plain cs \<Longrightarrow> Clean (render False cs) = render False cs"
  using image_render [of cs] by (simp add: image_path_def cleaned_def)

lemma Dir_image: "list_all plain cs \<Longrightarrow> Dir (render False cs) = render False (butlast cs)"
proof -
  assume cs: "list_all plain cs"
  then have n: "normal False cs" by (rule plain_normal)
  have b: "normal False (butlast cs)"
    using cs by (intro plain_normal) (auto simp: list_all_iff dest: in_set_butlastD)
  show ?thesis
    by (rule cleaned_eqI) (use n b Dir_render [OF n] in \<open>simp_all add: comps_render render_cleaned\<close>, simp add: Dir_def)
qed

lemma Join_image:
  assumes "list_all plain cs" "plain c"
  shows "Join [render False cs, c] = render False (cs @ [c])"
proof -
  have ne: "render False cs \<noteq> ''''" using image_render [OF assms(1)] cleaned_nonempty by (auto simp: image_path_def)
  note j = Join_plain [OF ne, of "[c]"]
  have n: "normal False (cs @ [c])" using assms by (intro plain_normal) simp
  show ?thesis
    by (rule cleaned_eqI) (use assms j n plain_normal [OF assms(1)] in \<open>simp_all add: comps_render render_cleaned\<close>)
qed

lemma extend_image:
  assumes "list_all plain cs" "plain c"
  shows "extend (join_with ''/'' cs) c = join_with ''/'' (cs @ [c])"
proof (cases "cs = []")
  case False
  then have "join_with ''/'' cs \<noteq> ''''" using comps_plain_list [OF assms(1)] by (auto simp: comps_def)
  then show ?thesis using False Join_image [OF assms] by (simp add: extend_def render_False)
qed (simp add: extend_def)

lemma image_parts:
  assumes "list_all plain cs" "cs \<noteq> []"
  shows "Split slash (TrimPrefix (render False cs) ''/'') = cs"
proof -
  have "\<not> HasPrefix (join_with ''/'' cs) ''/''"
    using not_rooted_plain_list [OF assms(1)] by (cases "join_with ''/'' cs") (auto simp: HasPrefix_def rooted_def)
  then have "TrimPrefix (render False cs) ''/'' = join_with ''/'' cs"
    using assms(2) by (simp add: render_False TrimPrefix_def)
  then show ?thesis using Split_join_normal [OF plain_normal [OF assms(1), of False] assms(2)] by simp
qed

lemma render_not_root: "list_all plain cs \<Longrightarrow> render False cs \<noteq> ''/'' \<and> (render False cs = ''.'' \<longleftrightarrow> cs = [])"
proof -
  assume cs: "list_all plain cs"
  have "\<not> rooted (render False cs)" using image_render [OF cs] by (simp add: image_path_def)
  moreover have "comps (render False cs) = cs" using cs by (rule comps_image)
  moreover have "comps ''.'' = []" by code_simp
  moreover have "render False [] = ''.''" by (simp add: render_def)
  ultimately show ?thesis by (auto simp: rooted_def)
qed

lemma fsPath_image:
  assumes "image_path p" "CHR 0x5C \<notin> set p"
  shows "fsPath p = p"
proof -
  obtain cs where cs: "list_all plain cs" "p = render False cs" using assms(1) by (rule image_path_cases)
  have "\<not> HasPrefix p ''/''"
    using assms(1) by (cases p) (auto simp: HasPrefix_def image_path_def rooted_def)
  moreover have "p \<noteq> ''''" using assms(1) cleaned_nonempty by (auto simp: image_path_def)
  ultimately show ?thesis
    using assms cs Clean_image [OF cs(1)] render_not_root [OF cs(1)]
    by (simp add: fsPath_def filepathSlash_def ReplaceAll_id TrimPrefix_def)
qed

lemma set_join: "set (join_with ''/'' cs) \<subseteq> insert slash (\<Union> (set ` set cs))"
  by (induction cs rule: induct_list012) auto

lemma set_in_join: "c \<in> set cs \<Longrightarrow> set c \<subseteq> set (join_with ''/'' cs)"
  by (induction cs rule: induct_list012) auto

lemma no_backslash_render:
  "CHR 0x5C \<notin> set (render False cs) \<longleftrightarrow> (\<forall>c \<in> set cs. CHR 0x5C \<notin> set c)"
proof (cases "cs = []")
  case False
  then show ?thesis using set_join [of cs] set_in_join [of _ cs] by (auto simp: render_False)
qed (simp add: render_def)

text \<open>
  Entry names for which the builder works as intended: no backslash, and a whiteout that
  names a file.
\<close>

definition well_named :: "tar_header \<Rightarrow> bool" where
  "well_named h =
     (CHR 0x5C \<notin> set (Clean (h_Name h)) \<and> CHR 0x5C \<notin> set (Clean (h_Linkname h)) \<and>
      (let base = Base (Clean (h_Name h)) in
       HasPrefix base ''.wh.'' \<longrightarrow> plain (TrimPrefix base ''.wh.'')))"

lemma layer_name_image:
  assumes "cleanLayerPath n = Inr name"
  obtains cs c where "list_all plain (cs @ [c])" "name = render False (cs @ [c])" "name = Clean n"
    "Base name = c" "Dir name = render False cs"
proof -
  have f: "name = Clean n" "\<not> rooted n" "comps n \<noteq> []" "list_all plain (comps n)"
    using cleanLayerPath_facts [OF assms] by simp_all
  obtain cs c where cs: "comps n = cs @ [c]" using f(3) by (cases "comps n" rule: rev_cases) auto
  have nm: "name = render False (cs @ [c])" using f cs by (simp add: Clean_def)
  have "comps name = cs @ [c]" "cleaned name" using f cs by simp_all
  then have "Base name = c" using Base_cleaned [of name] by simp
  moreover have "Dir name = render False cs" using Dir_image [of "cs @ [c]"] f(4) cs nm by simp
  ultimately show ?thesis using that f cs nm by simp
qed

section \<open>What a run keeps\<close>

definition keeps :: "('fs dstate \<Rightarrow> bool) \<Rightarrow> ('fs, 'a) dio \<Rightarrow> bool" where
  "keeps I m = (\<forall>s r s'. I s \<longrightarrow> m s = (r, s') \<longrightarrow> I s')"

lemma keeps_dret [intro!]: "keeps I (dret a)"
  and keeps_dthrow [intro!]: "keeps I (dthrow e)"
  and keeps_isSymlink [intro!]: "keeps I (isSymlink p)"
  by (simp_all add: keeps_def dret_def dthrow_def isSymlink_def)

lemma keeps_fuel [intro!]: "keeps I (\<lambda>s. (DFuel, s))"
  by (simp add: keeps_def)

lemma keeps_mark [intro!]: "keeps (\<lambda>s. I (FS s)) (markSymlink p b)"
  by (simp add: keeps_def markSymlink_def)

text \<open>The value of a call may be constrained by what holds before it.\<close>

lemma keeps_dbind_value:
  assumes "keeps I m" "\<And>s a s'. I s \<Longrightarrow> m s = (DOk a, s') \<Longrightarrow> Q a" "\<And>a. Q a \<Longrightarrow> keeps I (k a)"
  shows "keeps I (dbind m k)"
  unfolding keeps_def
proof (intro allI impI)
  fix s r s' assume i: "I s" and b: "dbind m k s = (r, s')"
  obtain x s1 where m: "m s = (x, s1)" by fastforce
  then have i1: "I s1" using assms(1) i unfolding keeps_def by blast
  show "I s'"
  proof (cases x)
    case (DOk a)
    then have "Q a" using assms(2) i m by blast
    then have "keeps I (k a)" by (rule assms(3))
    then show ?thesis using b m DOk i1 by (auto simp: dbind_def keeps_def)
  qed (use b m i1 in \<open>auto simp: dbind_def\<close>)
qed

lemma keeps_dbind [intro]: "keeps I m \<Longrightarrow> (\<And>a. keeps I (k a)) \<Longrightarrow> keeps I (dbind m k)"
  by (rule keeps_dbind_value [where Q = "\<lambda>_. True"]) auto

lemma keeps_dtry [intro]: "keeps I m \<Longrightarrow> keeps I (dtry m)"
  unfolding keeps_def dtry_def by (fastforce split: prod.splits dres.splits)

lemma keeps_drecover [intro]: "keeps I m \<Longrightarrow> keeps I (drecover m)"
  unfolding keeps_def drecover_def by (fastforce split: prod.splits dres.splits)

lemma keeps_dcall: "(\<And>fs r fs'. I fs \<Longrightarrow> f fs = (r, fs') \<Longrightarrow> I fs') \<Longrightarrow> keeps (\<lambda>s. I (FS s)) (dcall f)"
  unfolding keeps_def dcall_def by (fastforce split: prod.splits xres.splits)

section \<open>The contract of the library\<close>

text \<open>
  \<open>I\<close> is kept by every operation at a path inside the image, and directories have plain names.
\<close>

locale image_fs =
  fixes x :: "'fs ext4" and I :: "'fs \<Rightarrow> bool"
  assumes Stat: "image_path p \<Longrightarrow> I fs \<Longrightarrow> x_Stat x p fs = (r1, fs') \<Longrightarrow> I fs'"
    and Mkdir: "image_path p \<Longrightarrow> I fs \<Longrightarrow> x_Mkdir x p fs = (r2, fs') \<Longrightarrow> I fs'"
    and Remove: "image_path p \<Longrightarrow> I fs \<Longrightarrow> x_Remove x p fs = (r3, fs') \<Longrightarrow> I fs'"
    and ReadDir: "image_path p \<Longrightarrow> I fs \<Longrightarrow> x_ReadDir x p fs = (r4, fs') \<Longrightarrow> I fs'"
    and ReadFile: "image_path p \<Longrightarrow> I fs \<Longrightarrow> x_ReadFile x p fs = (r5, fs') \<Longrightarrow> I fs'"
    and ReadLink: "image_path p \<Longrightarrow> I fs \<Longrightarrow> x_ReadLink x p fs = (r6, fs') \<Longrightarrow> I fs'"
    and Symlink: "image_path p \<Longrightarrow> I fs \<Longrightarrow> x_Symlink x l p fs = (r7, fs') \<Longrightarrow> I fs'"
    and OpenFile: "image_path p \<Longrightarrow> I fs \<Longrightarrow> x_OpenFile x p b fs = (r8, fs') \<Longrightarrow> I fs'"
    and Write: "I fs \<Longrightarrow> x_Write x i bs fs = (r9, fs') \<Longrightarrow> I fs'"
    and Close: "I fs \<Longrightarrow> x_Close x i fs = (r10, fs') \<Longrightarrow> I fs'"
    and Chmod: "image_path p \<Longrightarrow> I fs \<Longrightarrow> x_Chmod x p m fs = (r11, fs') \<Longrightarrow> I fs'"
    and Chown: "image_path p \<Longrightarrow> I fs \<Longrightarrow> x_Chown x p u g fs = (r12, fs') \<Longrightarrow> I fs'"
    and names: "I fs \<Longrightarrow> x_ReadDir x p fs = (XOk ns, fs') \<Longrightarrow> list_all plain ns"
begin

lemma calls:
  "image_path p \<Longrightarrow> keeps (\<lambda>s. I (FS s)) (dcall (x_Stat x p))"
  "image_path p \<Longrightarrow> keeps (\<lambda>s. I (FS s)) (dcall (x_Mkdir x p))"
  "image_path p \<Longrightarrow> keeps (\<lambda>s. I (FS s)) (dcall (x_Remove x p))"
  "image_path p \<Longrightarrow> keeps (\<lambda>s. I (FS s)) (dcall (x_ReadDir x p))"
  "image_path p \<Longrightarrow> keeps (\<lambda>s. I (FS s)) (dcall (x_ReadFile x p))"
  "image_path p \<Longrightarrow> keeps (\<lambda>s. I (FS s)) (dcall (x_ReadLink x p))"
  "image_path p \<Longrightarrow> keeps (\<lambda>s. I (FS s)) (dcall (x_Symlink x l p))"
  "image_path p \<Longrightarrow> keeps (\<lambda>s. I (FS s)) (dcall (x_OpenFile x p b))"
  "keeps (\<lambda>s. I (FS s)) (dcall (x_Write x i bs))"
  "keeps (\<lambda>s. I (FS s)) (dcall (x_Close x i))"
  "image_path p \<Longrightarrow> keeps (\<lambda>s. I (FS s)) (dcall (x_Chmod x p m))"
  "image_path p \<Longrightarrow> keeps (\<lambda>s. I (FS s)) (dcall (x_Chown x p u g))"
  by (rule keeps_dcall; blast intro: Stat Mkdir Remove ReadDir ReadFile ReadLink Symlink OpenFile
      Write Close Chmod Chown)+

lemma mkdirParts_keeps:
  "list_all plain cs \<Longrightarrow> list_all plain parts \<Longrightarrow> keeps (\<lambda>s. I (FS s)) (mkdirParts x (join_with ''/'' cs) parts)"
proof (induction parts arbitrary: cs)
  case Nil
  show ?case by (simp add: keeps_dret)
next
  case (Cons c parts)
  have cs: "list_all plain (cs @ [c])" and pl: "list_all plain cs" "plain c" using Cons.prems by simp_all
  have e: "extend (join_with ''/'' cs) c = join_with ''/'' (cs @ [c])" by (rule extend_image [OF pl])
  have p: "image_path (join_with ''/'' (cs @ [c]))" using image_render [OF cs] by (simp add: render_False)
  have rec: "keeps (\<lambda>s. I (FS s)) (mkdirParts x (join_with ''/'' (cs @ [c])) parts)"
    using Cons.IH [OF cs] Cons.prems by simp
  show ?case
    unfolding mkdirParts.simps Let_def e
    by (intro keeps_dbind keeps_dtry calls p) (auto intro!: keeps_dbind keeps_dtry calls p rec split: sum.split)
qed

lemma mkdirAll_keeps:
  assumes "image_path t"
  shows "keeps (\<lambda>s. I (FS s)) (mkdirAll x t)"
proof -
  obtain cs where cs: "list_all plain cs" "t = render False cs" using assms by (rule image_path_cases)
  then show ?thesis
    using mkdirParts_keeps [of "[]" cs] render_not_root [OF cs(1)] image_parts [OF cs(1)]
    by (auto simp: mkdirAll_def Let_def Clean_image)
qed

lemma child_path: "image_path t \<Longrightarrow> plain c \<Longrightarrow> image_path (Join [t, c])"
proof -
  assume "image_path t" "plain c"
  moreover obtain cs where "list_all plain cs" "t = render False cs"
    using \<open>image_path t\<close> by (rule image_path_cases)
  ultimately show ?thesis using Join_image [of cs c] image_render [of "cs @ [c]"] by simp
qed

lemma removeNames_keeps:
  assumes "\<And>t. image_path t \<Longrightarrow> keeps (\<lambda>s. I (FS s)) (removeAll x n t)"
  shows "image_path t \<Longrightarrow> list_all plain ns \<Longrightarrow> keeps (\<lambda>s. I (FS s)) (removeNames x n t ns)"
  by (induction ns) (auto intro!: keeps_dbind assms child_path)

lemma remove_keeps:
  "image_path t \<Longrightarrow> keeps (\<lambda>s. I (FS s)) (removeAll x n t) \<and> keeps (\<lambda>s. I (FS s)) (removeChildren x n t)"
proof (induction n arbitrary: t)
  case 0
  show ?case by auto
next
  case (Suc n)
  have all: "image_path t \<Longrightarrow> keeps (\<lambda>s. I (FS s)) (removeAll x n t)"
    and kids: "image_path t \<Longrightarrow> keeps (\<lambda>s. I (FS s)) (removeChildren x n t)" for t
    using Suc.IH by auto
  have "keeps (\<lambda>s. I (FS s)) (removeAll x (Suc n) t)"
    using Suc.prems by (auto intro!: keeps_dbind keeps_dtry calls kids split: sum.split)
  moreover have "keeps (\<lambda>s. I (FS s)) (removeChildren x (Suc n) t)"
    unfolding removeChildren.simps
  proof (rule keeps_dbind_value [where Q = "\<lambda>r. case r of Inl e \<Rightarrow> True | Inr ns \<Rightarrow> list_all plain ns"])
    show "keeps (\<lambda>s. I (FS s)) (dtry (dcall (x_ReadDir x t)))" by (intro keeps_dtry calls Suc.prems)
  next
    fix s a s' assume "I (FS s)" "dtry (dcall (x_ReadDir x t)) s = (DOk a, s')"
    then show "case a of Inl e \<Rightarrow> True | Inr ns \<Rightarrow> list_all plain ns"
      using names [of "FS s" t] by (auto simp: dtry_def dcall_def split: prod.splits xres.splits dres.splits sum.splits)
  next
    fix a :: "layer_error + string list" assume "case a of Inl e \<Rightarrow> True | Inr ns \<Rightarrow> list_all plain ns"
    then show "keeps (\<lambda>s. I (FS s)) (case a of Inl e \<Rightarrow> if e = FsNotExist then dret () else dthrow e
        | Inr ns \<Rightarrow> removeNames x n t ns)"
      using removeNames_keeps [OF all Suc.prems] by (auto split: sum.splits)
  qed
  ultimately show ?case by simp
qed

lemma Dir_path: "image_path t \<Longrightarrow> image_path (Dir t)"
proof -
  assume "image_path t"
  then obtain cs where cs: "list_all plain cs" "t = render False cs" by (rule image_path_cases)
  then have "list_all plain (butlast cs)" by (auto simp: list_all_iff dest: in_set_butlastD)
  then show ?thesis using cs Dir_image [of cs] image_render by simp
qed

lemma tracked_keeps: "keeps J (trackedParts cur parts)"
  by (induction parts arbitrary: cur) (auto simp: Let_def intro!: keeps_dbind)

lemma guard_keeps: "keeps J (ensureNoSymlinkParents t)"
  by (auto simp: ensureNoSymlinkParents_def Let_def intro: tracked_keeps)

lemma meta_keeps: "image_path t \<Longrightarrow> keeps (\<lambda>s. I (FS s)) (applyMetadata x t h b)"
  by (auto simp: applyMetadata_def intro!: keeps_dbind calls)

lemma writeAndClose_keeps: "keeps (\<lambda>s. I (FS s)) (writeAndClose x fd bs)"
  unfolding writeAndClose_def
  by (intro keeps_dbind keeps_dtry calls) (auto split: sum.split)

lemma removeIfExists_keeps: "image_path t \<Longrightarrow> keeps (\<lambda>s. I (FS s)) (removeIfExists x n t)"
  unfolding removeIfExists_def
  by (auto intro!: keeps_dbind keeps_dtry calls remove_keeps [THEN conjunct1] split: sum.split)

lemmas parts_keep = mkdirAll_keeps meta_keeps writeAndClose_keeps removeIfExists_keeps guard_keeps
  calls keeps_dbind keeps_dtry keeps_drecover Dir_path

lemma entry_keeps:
  assumes t: "image_path t"
  shows "keeps (\<lambda>s. I (FS s)) (mkdir x t h)" "keeps (\<lambda>s. I (FS s)) (writeFile x t h rd)"
    "keeps (\<lambda>s. I (FS s)) (symlink x n t h)"
  unfolding mkdir_def writeFile_def symlink_def removeSymlink_def
  using t by (auto intro!: parts_keep split: sum.split)

lemma hardlink_keeps:
  assumes t: "image_path t" and l: "\<And>l. cleanLayerPath (h_Linkname h) = Inr l \<Longrightarrow> image_path (fsPath l)"
  shows "keeps (\<lambda>s. I (FS s)) (hardlink x n t h)"
proof (cases "cleanLayerPath (h_Linkname h)")
  case (Inl e)
  then show ?thesis by (simp add: hardlink_def keeps_dthrow)
next
  case (Inr l0)
  note p = l [OF Inr]
  show ?thesis unfolding hardlink_def Inr Let_def using t p by (auto intro!: parts_keep)
qed

lemma applyEntry_keeps:
  assumes w: "well_named h"
  shows "keeps (\<lambda>s. I (FS s)) (applyEntry x n h rd)"
proof (cases "cleanLayerPath (h_Name h)")
  case (Inl e)
  then show ?thesis by (simp add: applyEntry_def keeps_dthrow)
next
  case (Inr name)
  obtain cs c where cs: "list_all plain (cs @ [c])" "name = render False (cs @ [c])" "name = Clean (h_Name h)"
    "Base name = c" "Dir name = render False cs"
    using Inr by (rule layer_name_image)
  have bs: "\<forall>d \<in> set (cs @ [c]). CHR 0x5C \<notin> set d"
    using w cs no_backslash_render [of "cs @ [c]"] by (simp add: well_named_def)
  have pl: "list_all plain cs" using cs(1) by simp
  have dir: "fsPath (render False cs) = render False cs" "image_path (render False cs)"
    using pl bs no_backslash_render [of cs] by (auto intro: fsPath_image image_render)
  have ip: "image_path name" using image_render [OF cs(1)] cs(2) by simp
  have name: "fsPath name = name" "image_path name"
    using fsPath_image [OF ip] bs no_backslash_render [of "cs @ [c]"] cs(2) ip by simp_all
  have wh: "image_path (fsPath (Join [render False cs, TrimPrefix c ''.wh.'']))" if "HasPrefix c ''.wh.''"
  proof -
    have p: "plain (TrimPrefix c ''.wh.'')" using w cs that by (simp add: well_named_def)
    have "set (TrimPrefix c ''.wh.'') \<subseteq> set c" by (auto simp: TrimPrefix_def dest: in_set_dropD)
    then have "CHR 0x5C \<notin> set (render False (cs @ [TrimPrefix c ''.wh.'']))"
      using bs by (subst no_backslash_render) auto
    then show ?thesis
      using p pl by (simp add: Join_image fsPath_image image_render)
  qed
  have link: "image_path (fsPath l)" if l: "cleanLayerPath (h_Linkname h) = Inr l" for l
  proof -
    obtain ds d where ds: "list_all plain (ds @ [d])" "l = render False (ds @ [d])" "l = Clean (h_Linkname h)"
      using l by (rule layer_name_image)
    then have "CHR 0x5C \<notin> set l" using w by (simp add: well_named_def)
    then show ?thesis using ds image_render [of "ds @ [d]"] by (simp add: fsPath_image)
  qed
  have "keeps (\<lambda>s. I (FS s)) (hardlink x n name h)" by (rule hardlink_keeps [OF name(2) link])
  then show ?thesis
    unfolding applyEntry_def Inr Let_def sum.case cs(4,5)
    using dir name wh entry_keeps [OF name(2)] remove_keeps
    by (auto intro!: keeps_dbind guard_keeps)
qed

lemma applyEntries_keeps:
  "\<forall>(h, b) \<in> set es. well_named h \<Longrightarrow> keeps (\<lambda>s. I (FS s)) (applyEntries x n ctx k es eof)"
proof (induction es arbitrary: k)
  case (Cons e es)
  then show ?case
    by (cases e) (auto intro!: keeps_dbind keeps_dtry applyEntry_keeps split: sum.split)
qed auto

end

section \<open>Recording the paths of a library\<close>

text \<open>Any library, with a log of the paths it was called with.\<close>

definition log1 :: "string \<Rightarrow> ('fs \<Rightarrow> 'a xres \<times> 'fs) \<Rightarrow> 'fs \<times> string list \<Rightarrow> 'a xres \<times> 'fs \<times> string list" where
  "log1 p f = (\<lambda>(fs, log). case f fs of (r, fs') \<Rightarrow> (r, fs', p # log))"

definition log0 :: "('fs \<Rightarrow> 'a xres \<times> 'fs) \<Rightarrow> 'fs \<times> string list \<Rightarrow> 'a xres \<times> 'fs \<times> string list" where
  "log0 f = (\<lambda>(fs, log). case f fs of (r, fs') \<Rightarrow> (r, fs', log))"

definition logged :: "'fs ext4 \<Rightarrow> ('fs \<times> string list) ext4" where
  "logged x =
     \<lparr>x_Stat = (\<lambda>p. log1 p (x_Stat x p)), x_Mkdir = (\<lambda>p. log1 p (x_Mkdir x p)),
      x_Remove = (\<lambda>p. log1 p (x_Remove x p)), x_ReadDir = (\<lambda>p. log1 p (x_ReadDir x p)),
      x_ReadFile = (\<lambda>p. log1 p (x_ReadFile x p)), x_ReadLink = (\<lambda>p. log1 p (x_ReadLink x p)),
      x_Symlink = (\<lambda>l p. log1 p (x_Symlink x l p)), x_OpenFile = (\<lambda>p b. log1 p (x_OpenFile x p b)),
      x_Write = (\<lambda>i bs. log0 (x_Write x i bs)), x_Close = (\<lambda>i. log0 (x_Close x i)),
      x_Chmod = (\<lambda>p m. log1 p (x_Chmod x p m)), x_Chown = (\<lambda>p u g. log1 p (x_Chown x p u g))\<rparr>"

definition op_keeps :: "('fs \<Rightarrow> bool) \<Rightarrow> ('fs \<Rightarrow> 'a xres \<times> 'fs) \<Rightarrow> bool" where
  "op_keeps J f = (\<forall>fs r fs'. J fs \<longrightarrow> f fs = (r, fs') \<longrightarrow> J fs')"

text \<open>A library whose directories hold plain names, by some invariant of its own.\<close>

locale library_fs =
  fixes x :: "'fs ext4" and J :: "'fs \<Rightarrow> bool"
  assumes ops: "op_keeps J (x_Stat x p)" "op_keeps J (x_Mkdir x p)" "op_keeps J (x_Remove x p)"
      "op_keeps J (x_ReadDir x p)" "op_keeps J (x_ReadFile x p)" "op_keeps J (x_ReadLink x p)"
      "op_keeps J (x_Symlink x l p)" "op_keeps J (x_OpenFile x p b)" "op_keeps J (x_Write x i bs)"
      "op_keeps J (x_Close x i)" "op_keeps J (x_Chmod x p m)" "op_keeps J (x_Chown x p u g)"
    and plain_names: "J fs \<Longrightarrow> x_ReadDir x p fs = (XOk ns, fs') \<Longrightarrow> list_all plain ns"

text \<open>The invariant of the recording library: only paths inside the image were used.\<close>

definition log_inv :: "('fs \<Rightarrow> bool) \<Rightarrow> 'fs \<times> string list \<Rightarrow> bool" where
  "log_inv J = (\<lambda>(fs, log). J fs \<and> list_all image_path log)"

lemma log_inv_step:
  "op_keeps J f \<Longrightarrow> image_path p \<Longrightarrow> log_inv J st \<Longrightarrow> log1 p f st = (r, st') \<Longrightarrow> log_inv J st'"
  "op_keeps J f \<Longrightarrow> log_inv J st \<Longrightarrow> log0 f st = (r, st') \<Longrightarrow> log_inv J st'"
  by (auto simp: log_inv_def log1_def log0_def op_keeps_def split: prod.splits)

sublocale library_fs \<subseteq> recorded: image_fs "logged x" "log_inv J"
proof unfold_locales
  show "list_all plain ns" if "log_inv J fs" "x_ReadDir (logged x) p fs = (XOk ns, fs')" for fs p ns fs'
    using that plain_names by (auto simp: logged_def log1_def log_inv_def split: prod.splits)
qed (auto simp: logged_def intro: log_inv_step ops)

context library_fs
begin

lemma recorded_paths:
  assumes "J fs" "\<forall>(h, b) \<in> set es. well_named h"
    and "applyEntries (logged x) n ctx k es eof \<lparr>FS = (fs, []), Symlinks = links\<rparr> = (r, d)"
  shows "list_all image_path (snd (FS d))"
proof -
  have "log_inv J (FS \<lparr>FS = (fs, []), Symlinks = links\<rparr>)" using assms(1) by (simp add: log_inv_def)
  then have "log_inv J (FS d)"
    using recorded.applyEntries_keeps [OF assms(2), of n ctx k eof] assms(3) unfolding keeps_def by blast
  then show ?thesis by (auto simp: log_inv_def)
qed

end

section \<open>The POSIX model as a library\<close>

definition lift_io :: "(errno, 'a) io \<Rightarrow> os \<Rightarrow> 'a xres \<times> os" where
  "lift_io m s = (case m s of
      (Inl e, s') \<Rightarrow> (XErr (if e = ENOENT then FsNotExist else FsError), s')
    | (Inr a, s') \<Rightarrow> (XOk a, s'))"

definition posix_ext4 :: "os ext4" where
  "posix_ext4 =
     \<lparr>x_Stat = (\<lambda>p. lift_io (andThen (Stat (slash # p)) (\<lambda>e. ret (is_dir (Some e))))),
      x_Mkdir = (\<lambda>p. lift_io (Mkdir (slash # p) 493)),
      x_Remove = (\<lambda>p. lift_io (Remove (slash # p))),
      x_ReadDir = (\<lambda>p. lift_io (andThen (ReadDir (slash # p)) (\<lambda>es. ret (map fst es)))),
      x_ReadFile = (\<lambda>p. lift_io (ReadFile (slash # p))),
      x_ReadLink = (\<lambda>p. lift_io (andThen (Lstat (slash # p)) (\<lambda>e. case e of LnkE t a \<Rightarrow> ret t | _ \<Rightarrow> throw EINVAL))),
      x_Symlink = (\<lambda>l p. lift_io (Symlink l (slash # p))),
      x_OpenFile = (\<lambda>p b. lift_io (if b then OpenTruncNoFollow (slash # p) 420 else OpenExcl (slash # p) 420)),
      x_Write = (\<lambda>i bs. lift_io (FWrite i bs)), x_Close = (\<lambda>i. lift_io (FClose i)),
      x_Chmod = (\<lambda>p m. lift_io (Chmod (slash # p) m)),
      x_Chown = (\<lambda>p u g. lift_io (Chown (slash # p) u g))\<rparr>"

definition named :: "os \<Rightarrow> bool" where
  "named s = (\<forall>q. ent s q \<noteq> None \<longrightarrow> list_all plain q)"

lemma stable_named [simp, intro]: "stable named"
  by (simp add: stable_def named_def)

lemma pcomps_elem: "c \<in> set (pcomps p) \<Longrightarrow> c \<noteq> '''' \<and> slash \<notin> set c"
  by (auto simp: pcomps_def dest: Split_no_sep)

lemma walk_plain:
  "(\<And>c. c \<in> set cs \<Longrightarrow> c \<noteq> '''' \<and> slash \<notin> set c) \<Longrightarrow> list_all plain cur \<Longrightarrow>
     walk look f n cur cs = Inr q \<Longrightarrow> list_all plain q"
proof (induction look f n cur cs rule: walk.induct)
  case (2 look f n cur c cs)
  have up: "list_all plain (butlast cur)" using "2.prems"(2) by (auto simp: list_all_iff dest: in_set_butlastD)
  have cs: "d \<noteq> '''' \<and> slash \<notin> set d" if "d \<in> set cs" for d using "2.prems"(1) that by simp
  show ?case
  proof (cases "c = ''.'' \<or> c = ''..''")
    case True
    then show ?thesis
      using "2.IH"(1) [OF _ cs "2.prems"(2)] "2.IH"(2) [OF _ _ cs up] "2.prems"(3)
      by (auto simp: walk.simps(2) split: if_splits)
  next
    case False
    then have "plain c" using "2.prems"(1) [of c] by (simp add: plain_def)
    then have pl: "list_all plain (cur @ [c])" using "2.prems"(2) by simp
    show ?thesis
    proof (cases "look (cur @ [c])")
      case None
      with False pl "2.prems"(3) show ?thesis by (auto simp: walk.simps(2) split: if_splits)
    next
      case (Some e)
      show ?thesis
      proof (cases e)
        case (DirE a)
        show ?thesis
          using "2.IH"(3) [of e a] False Some DirE cs pl "2.prems"(3) by (simp add: walk.simps(2))
      next
        case (RegE i)
        with Some False pl "2.prems"(3) show ?thesis by (auto simp: walk.simps(2) split: if_splits)
      next
        case (LnkE t a)
        have el: "d \<noteq> '''' \<and> slash \<notin> set d" if "d \<in> set (pcomps t @ cs)" for d
          using that cs pcomps_elem [of d t] by auto
        show ?thesis
        proof (cases "(cs = [] \<and> \<not> f) \<or> n = 0")
          case True
          with Some False LnkE pl "2.prems"(3) show ?thesis by (auto simp: walk.simps(2) split: if_splits)
        next
          case ne: False
          then obtain m where m: "n = Suc m" by (cases n) auto
          have "walk look f m (if rooted t then [] else cur) (pcomps t @ cs) = Inr q"
            using "2.prems"(3) Some False LnkE ne m by (auto simp: walk.simps(2) split: if_splits)
          then show ?thesis
            using "2.IH"(4) [of e t a m] False Some LnkE ne m el "2.prems"(2) by (auto split: if_splits)
        qed
      qed
    qed
  qed
qed simp

lemma resolve_plain: "resolve s f (slash # p) = Inr q \<Longrightarrow> list_all plain q"
  unfolding resolve_def
  by (auto simp: rooted_def split: if_splits dest!: walk_plain [rotated 2] dest: pcomps_elem)

lemma named_touch:
  assumes "touches l f (slash # p) m" "named s" "m s = (r, s')"
  shows "named s'"
proof -
  from assms consider t where "s' = s\<lparr>tick := t\<rparr>" | q where "resolve s f (slash # p) = Inr q" "gentle l q s s'"
    unfolding touches_def by metis
  then show ?thesis
  proof cases
    case 1
    then show ?thesis using assms(2) by (simp add: named_def)
  next
    case 2
    then show ?thesis
      using assms(2) resolve_plain [of s f p q] unfolding named_def gentle_def by metis
  qed
qed

lemma named_readonly: "readonly m \<Longrightarrow> named s \<Longrightarrow> m s = (r, s') \<Longrightarrow> named s'"
  unfolding readonly_def named_def by fastforce

lemma named_Remove: "named s \<Longrightarrow> Remove p s = (r, s') \<Longrightarrow> named s'"
  unfolding Remove_def sysop_def Let_def named_def
  by (auto split: option.splits sum.splits if_splits)

lemma named_FWrite: "named s \<Longrightarrow> FWrite i bs s = (r, s') \<Longrightarrow> named s'"
  using FWrite_ent [of i bs s r s'] by (simp add: named_def)

lemma lift_keeps: "(\<And>s r s'. J s \<Longrightarrow> m s = (r, s') \<Longrightarrow> J s') \<Longrightarrow> op_keeps J (lift_io m)"
  unfolding op_keeps_def lift_io_def by (fastforce split: prod.splits sum.splits)

lemma ReadDir_plain:
  assumes "named s" "ReadDir p s = (Inr es, s')"
  shows "list_all plain (map fst es)"
proof -
  have "plain c" if "c \<in> set (child_names q s)" for q c
  proof -
    obtain r e where r: "(r, e) \<in> set (ents s)" "r \<noteq> []" "c = last r"
      using \<open>c \<in> set (child_names q s)\<close> by (auto simp: child_names_def)
    have "r \<in> fst ` set (ents s)" using r(1) by (rule image_eqI [rotated]) simp
    then have "ent s r \<noteq> None" using map_of_eq_None_iff [of "ents s" r] by (simp only: ent_def) simp
    with assms(1) r show ?thesis by (auto simp: named_def list_all_iff)
  qed
  moreover have "child_names q (s\<lparr>tick := t\<rparr>) = child_names q s" for q t by (simp add: child_names_def)
  ultimately show ?thesis
    using assms(2) unfolding ReadDir_def sysop_def Let_def
    by (auto simp: list_all_iff split: option.splits sum.splits if_splits)
qed

lemma lift_readonly: "readonly m \<Longrightarrow> op_keeps named (lift_io m)"
  by (rule lift_keeps) (rule named_readonly)

lemma lift_touches: "touches l f (slash # p) m \<Longrightarrow> op_keeps named (lift_io m)"
  by (rule lift_keeps) (rule named_touch)

lemma posix_readonly:
  "op_keeps named (lift_io (andThen (Stat p) (\<lambda>e. ret (g e))))"
  "op_keeps named (lift_io (andThen (ReadDir p) (\<lambda>e. ret (h e))))"
  "op_keeps named (lift_io (ReadFile p))"
  "op_keeps named (lift_io (FClose i))"
  "op_keeps named (lift_io (andThen (Lstat p) (\<lambda>e. case e of LnkE t a \<Rightarrow> ret t | _ \<Rightarrow> throw EINVAL)))"
  by (intro lift_readonly readonly_andThen readonly_ret readonly_Stat readonly_ReadDir readonly_ReadFile
      readonly_FClose readonly_Lstat; auto simp: readonly_ret readonly_throw split: entry.split)+

lemma posix_touches:
  "op_keeps named (lift_io (Mkdir (slash # p) m))" "op_keeps named (lift_io (Symlink l (slash # p)))"
  "op_keeps named (lift_io (if b then OpenTruncNoFollow (slash # p) m else OpenExcl (slash # p) m))"
  "op_keeps named (lift_io (Chmod (slash # p) m))" "op_keeps named (lift_io (Chown (slash # p) u g))"
  "op_keeps named (lift_io (Remove q))" "op_keeps named (lift_io (FWrite i bs))"
  using lift_touches [OF touches_Mkdir [of True]] lift_touches [OF touches_Symlink]
    lift_touches [OF touches_OpenTruncNoFollow [of True]] lift_touches [OF touches_OpenExcl [of True]]
    lift_touches [OF touches_chown(1) [of True]] lift_touches [OF touches_chown(2) [of True]]
    lift_keeps [OF named_Remove] lift_keeps [OF named_FWrite]
  by auto

interpretation posix: library_fs posix_ext4 named
proof unfold_locales
  show "list_all plain ns" if "named fs" "x_ReadDir posix_ext4 p fs = (XOk ns, fs')" for fs p ns fs'
    using that ReadDir_plain [of fs "slash # p"]
    by (auto simp: posix_ext4_def lift_io_def andThen_def ret_def split: prod.splits sum.splits)
qed (simp_all add: posix_ext4_def posix_readonly posix_touches)

section \<open>Properties\<close>



section \<open>Concrete images\<close>

definition empty_image :: os where
  "empty_image =
     \<lparr>ents = [([], DirE \<lparr>perm = 493, owner = 0, grp = 0\<rparr>)], inodes = (\<lambda>_. None), next_ino = 0, cwd = [],
      umask = 0, ruid = 0, rgid = 0, euid = 0, now = 0, rand = (\<lambda>n. n), tick = 0, fault = (\<lambda>_. None)\<rparr>"

definition hdr :: "string \<Rightarrow> char \<Rightarrow> string \<Rightarrow> tar_header" where
  "hdr name ty link = \<lparr>h_Name = name, h_Typeflag = ty, h_Linkname = link, h_Size = 2, h_Mode = 420,
     h_Uid = 0, h_Gid = 0, h_ModTime = None\<rparr>"

definition demo_entries :: "(tar_header \<times> stream) list" where
  "demo_entries =
     [(hdr ''d/f'' TypeReg '''', \<lparr>st_bytes = ''hi'', st_err = False\<rparr>),
      (hdr ''d/l'' TypeSymlink ''/etc'', \<lparr>st_bytes = '''', st_err = False\<rparr>),
      (hdr ''d/h'' TypeLink ''d/f'', \<lparr>st_bytes = '''', st_err = False\<rparr>),
      (hdr ''d/.wh.f'' TypeReg '''', \<lparr>st_bytes = '''', st_err = False\<rparr>)]"

definition fresh_image :: "(os \<times> string list) dstate" where
  "fresh_image = \<lparr>FS = (empty_image, []), Symlinks = (\<lambda>_. False)\<rparr>"

lemma named_empty_image: "named empty_image"
  by (auto simp: named_def ent_def empty_image_def split: if_splits)



section \<open>Entries below tracked links\<close>

lemma trackedParts_reject:
  assumes "list_all plain (cs @ parts)" "list_all plain ds" "prefix ds parts" "ds \<noteq> []"
    and "Symlinks d (join_with ''/'' (cs @ ds))"
  shows "\<exists>p. trackedParts (join_with ''/'' cs) parts d = (DErr (SymlinkParentOf p), d)"
  using assms
proof (induction parts arbitrary: cs ds)
  case (Cons c parts)
  have e: "extend (join_with ''/'' cs) c = join_with ''/'' (cs @ [c])"
    using Cons.prems(1) by (intro extend_image) auto
  obtain ds' where ds: "ds = c # ds'" "prefix ds' parts" using Cons.prems(3,4) by (cases ds) auto
  show ?case
  proof (cases "Symlinks d (join_with ''/'' (cs @ [c]))")
    case True
    then show ?thesis by (simp add: Let_def e dbind_def isSymlink_def dthrow_def)
  next
    case False
    then have "ds' \<noteq> []" using Cons.prems(5) ds by auto
    then have "\<exists>p. trackedParts (join_with ''/'' (cs @ [c])) parts d = (DErr (SymlinkParentOf p), d)"
      using Cons.prems ds by (intro Cons.IH [of "cs @ [c]" ds']) auto
    with False show ?thesis by (simp add: Let_def e dbind_def isSymlink_def)
  qed
qed simp

text \<open>
  an entry below a symbolic link that the builder has made is refused, and the image and
  the link table stay as they are: the library is not called at all.
\<close>

theorem tracked_parent_refused:
  assumes "cleanLayerPath (h_Name h) = Inr name" "CHR 0x5C \<notin> set name"
    and "\<not> HasPrefix (Base name) ''.wh.''"
    and "strict_prefix ds (comps name)" "ds \<noteq> []" "Symlinks d (join_with ''/'' ds)"
  shows "\<exists>p. applyEntry x n h rd d = (DErr (SymlinkParentOf p), d)"
proof -
  obtain cs c where cs: "list_all plain (cs @ [c])" "name = render False (cs @ [c])" "name = Clean (h_Name h)"
    "Base name = c" "Dir name = render False cs"
    using assms(1) by (rule layer_name_image)
  have pl: "list_all plain cs" using cs(1) by simp
  have pre: "prefix ds cs"
    using assms(4) strict_prefix_butlast [of ds "cs @ [c]"] comps_image [OF cs(1)] cs(2) by simp
  have ne: "cs \<noteq> []" using pre assms(5) by auto
  have ip: "image_path name" using cs(2) image_render [OF cs(1)] by simp
  have fs: "fsPath name = name" using ip assms(2) by (rule fsPath_image)
  have "Clean name = name" using ip by (simp add: image_path_def cleaned_def)
  then have guard: "ensureNoSymlinkParents name = trackedParts '''' cs"
    using cs(5) render_not_root [OF pl] ne image_parts [OF pl ne]
    by (simp add: ensureNoSymlinkParents_def Let_def)
  have "list_all plain ds" using pl pre by (rule list_all_prefix)
  then obtain p where "trackedParts (join_with ''/'' []) cs d = (DErr (SymlinkParentOf p), d)"
    using trackedParts_reject [of "[]" cs ds d] pl pre assms(5,6) by auto
  then have "ensureNoSymlinkParents name d = (DErr (SymlinkParentOf p), d)" by (simp add: guard)
  moreover have "Base name \<noteq> ''.wh..wh..opq''" using assms(3) by (auto simp: HasPrefix_def)
  ultimately have "applyEntry x n h rd d = (DErr (SymlinkParentOf p), d)"
    using assms(1,3) fs by (simp add: applyEntry_def Let_def dbind_def)
  then show ?thesis by blast
qed

definition linked_image :: "(os \<times> string list) dstate" where
  "linked_image = fresh_image\<lparr>Symlinks := (\<lambda>p. p = ''a/l'')\<rparr>"

theorem tracked_parent_refused_witness:
  "\<exists>p. applyEntry (logged posix_ext4) 10 (hdr ''a/l/etc/passwd'' TypeReg '''') \<lparr>st_bytes = ''x'', st_err = False\<rparr> linked_image
     = (DErr (SymlinkParentOf p), linked_image)"
proof (rule tracked_parent_refused [where name = "''a/l/etc/passwd''" and ds = "[''a'', ''l'']"])
  show "cleanLayerPath (h_Name (hdr ''a/l/etc/passwd'' TypeReg '''')) = Inr ''a/l/etc/passwd''" by code_simp
  show "CHR 0x5C \<notin> set ''a/l/etc/passwd''" by simp
  show "\<not> HasPrefix (Base ''a/l/etc/passwd'') ''.wh.''" by code_simp
  have "comps ''a/l/etc/passwd'' = [''a'', ''l'', ''etc'', ''passwd'']" by code_simp
  then show "strict_prefix [''a'', ''l''] (comps ''a/l/etc/passwd'')" by (simp add: strict_prefix_def)
  show "Symlinks linked_image (join_with ''/'' [''a'', ''l''])" by (simp add: linked_image_def)
qed simp

section \<open>Verified layers\<close>

lemma applyStream_verifies:
  assumes "applyStream x n untar ctx st expected d = (DOk u, d')"
  shows "diffID (st_bytes st) = expected \<and> \<not> st_err st"
  using assms unfolding applyStream_def
  by (auto simp: dbind_def dthrow_def split: prod.splits dres.splits if_splits)

text \<open>The layer blob at a path, as it can be read from host state \<open>s0\<close>, has the given diff ID.\<close>

definition verified_layer :: "(string \<Rightarrow> stream option) \<Rightarrow> os \<Rightarrow> string \<times> string \<Rightarrow> bool" where
  "verified_layer gunzip s0 = (\<lambda>(path, diff).
     \<exists>t data st. fst (ReadFile path (s0\<lparr>tick := t\<rparr>)) = Inr data \<and> layerReader gunzip data = Inr st \<and>
       \<not> st_err st \<and> diffID (st_bytes st) = diff)"

lemma ApplyLayer_verifies:
  assumes "ApplyLayer x n gunzip untar ctx path diff d (s0\<lparr>tick := t\<rparr>) = ((DOk u, d'), s')"
  shows "verified_layer gunzip s0 (path, diff)" "\<exists>t'. s' = s0\<lparr>tick := t'\<rparr>"
proof -
  obtain data st where rd: "ReadFile path (s0\<lparr>tick := t\<rparr>) = (Inr data, s')" and st: "layerReader gunzip data = Inr st"
    and ap: "applyStream x n untar (ctx (tick s')) st diff d = (DOk u, d')"
    using assms unfolding ApplyLayer_def by (auto split: prod.splits sum.splits)
  from applyStream_verifies [OF ap] st show "verified_layer gunzip s0 (path, diff)"
    unfolding verified_layer_def prod.case by (intro exI [of _ t] exI [of _ data] exI [of _ st]) (simp add: rd)
  show "\<exists>t'. s' = s0\<lparr>tick := t'\<rparr>" using rd readonly_ReadFile [of path] unfolding readonly_def by fastforce
qed

lemma applyLayers_verifies:
  "applyLayers x n gunzip untar ctx ls d (s0\<lparr>tick := t\<rparr>) = ((DOk u, d'), s') \<Longrightarrow> list_all (verified_layer gunzip s0) ls"
proof (induction ls arbitrary: d t)
  case (Cons l ls)
  obtain path diff where l: "l = (path, diff)" by fastforce
  obtain v d1 s1 where a: "ApplyLayer x n gunzip untar ctx path diff d (s0\<lparr>tick := t\<rparr>) = ((DOk v, d1), s1)"
    and rest: "applyLayers x n gunzip untar ctx ls d1 s1 = ((DOk u, d'), s')"
    using Cons.prems l by (auto split: prod.splits dres.splits)
  obtain t' where "s1 = s0\<lparr>tick := t'\<rparr>" using ApplyLayer_verifies(2) [OF a] by blast
  with Cons.IH [of d1 t'] rest ApplyLayer_verifies(1) [OF a] show ?case by (simp add: l)
qed simp

lemma Build_verified:
  assumes "Build x n mkfs sync gunzip untar ctx layers imagePath sz s = (DOk u, s')"
  shows "list_all (verified_layer gunzip (snd (mkfs imagePath sz s))) layers"
proof -
  obtain fs s1 d' s2 where m: "mkfs imagePath sz s = (XOk fs, s1)"
    and b: "applyLayers x n gunzip untar ctx layers \<lparr>FS = fs, Symlinks = (\<lambda>_. False)\<rparr> s1 = ((DOk u, d'), s2)"
    using assms unfolding Build_def by (auto split: prod.splits xres.splits dres.splits)
  from b have "applyLayers x n gunzip untar ctx layers \<lparr>FS = fs, Symlinks = (\<lambda>_. False)\<rparr>
      (s1\<lparr>tick := tick s1\<rparr>) = ((DOk u, d'), s2)" by simp
  from applyLayers_verifies [OF this] m show ?thesis by simp
qed

text \<open>
  C7: an image is reported as built only if every layer of it, as it is on the host after the
  image file was created, decompresses without an error to a stream whose SHA-256 digest is
  the layer's diff ID.
\<close>

theorem Build_verifies_layers:
  assumes "Build x n mkfs sync gunzip untar ctx layers imagePath sz s = (DOk u, s')"
  shows "list_all (verified_layer gunzip (snd (mkfs imagePath sz s))) layers"
  using assms by (rule Build_verified)

definition host_with_blob :: os where
  "host_with_blob = empty_image\<lparr>ents := ents empty_image @ [([''blob''], RegE 0)],
     inodes := [0 \<mapsto> \<lparr>contents = ''tar'', iattr = \<lparr>perm = 420, owner = 0, grp = 0\<rparr>, mtime = 0\<rparr>], next_ino := 1\<rparr>"

theorem Build_verifies_layers_witness:
  "let mkfs = (\<lambda>p sz s. (XOk empty_image, s)); untar = (\<lambda>st. (demo_entries, True));
       run = Build posix_ext4 10 mkfs (\<lambda>p fs s. s) (\<lambda>_. None) untar (\<lambda>_ _. False)
               [(''/blob'', diffID ''tar'')] ''/img'' 0 host_with_blob
   in fst run = DOk () \<and> list_all (verified_layer (\<lambda>_. None) host_with_blob) [(''/blob'', diffID ''tar'')]"
proof -
  let ?mkfs = "\<lambda>p sz s. (XOk empty_image, s) :: os xres \<times> os"
  let ?untar = "\<lambda>st :: stream. (demo_entries, True)"
  let ?d = "\<lparr>FS = empty_image, Symlinks = (\<lambda>_. False)\<rparr>"
  let ?run = "Build posix_ext4 10 ?mkfs (\<lambda>p fs s. s) (\<lambda>_. None) ?untar (\<lambda>_ _. False)
               [(''/blob'', diffID ''tar'')] ''/img'' 0 host_with_blob"
  have rd: "fst (ReadFile ''/blob'' host_with_blob) = Inr ''tar''" by code_simp
  obtain s1 where s1: "ReadFile ''/blob'' host_with_blob = (Inr ''tar'', s1)"
    using rd by (cases "ReadFile ''/blob'' host_with_blob") auto
  have lr: "layerReader (\<lambda>_. None) ''tar'' = Inr \<lparr>st_bytes = ''tar'', st_err = False\<rparr>" by (simp add: layerReader_def)
  have "fst (applyEntries posix_ext4 10 (\<lambda>_. False) 0 demo_entries True ?d) = DOk ()" by code_simp
  then obtain d' where ap: "applyEntries posix_ext4 10 (\<lambda>_. False) 0 demo_entries True ?d = (DOk (), d')"
    by (cases "applyEntries posix_ext4 10 (\<lambda>_. False) 0 demo_entries True ?d") auto
  have run: "?run = (DOk (), s1)"
    by (simp add: Build_def ApplyLayer_def s1 lr applyStream_def dbind_def ap dret_def)
  from Build_verifies_layers [OF run] run show ?thesis by (simp add: Let_def)
qed

end
