(* ===== verification/HostConfig.thy ===== *)
theory HostConfig
  imports Prelude
begin

text \<open>
  The host's configuration (\<open>internal/config/config.go\<close>) and its completion with defaults
  (\<open>runtime.New\<close> in \<open>internal/runtime/runtime.go\<close>, which the manager's \<open>New\<close> calls too).
\<close>

definition DefaultStoreDir :: string where "DefaultStoreDir = ''/var/lib/sandbox-runtime''"
definition DefaultKernelPath :: string where "DefaultKernelPath = ''/opt/sandbox/vmlinux''"
definition DefaultBootImagePath :: string where "DefaultBootImagePath = ''/opt/sandbox/boot-init.ext4''"
definition DefaultPlatformOS :: string where "DefaultPlatformOS = ''linux''"
definition DefaultArchitecture :: string where "DefaultArchitecture = ''amd64''"
definition DefaultRootfsMinBytes :: int where "DefaultRootfsMinBytes = 2 * 2 ^ 30"
definition DefaultRootfsExtra :: int where "DefaultRootfsExtra = 512 * 2 ^ 20"

record Platform =
  OS :: string
  Architecture :: string

record RootfsConfig =
  MinSizeBytes :: int
  MaxSizeBytes :: int
  ExtraBytes :: int
  FSKind :: string

record Config =
  StoreDir :: string
  KernelPath :: string
  BootImagePath :: string
  cfg_Platform :: Platform
  cfg_Rootfs :: RootfsConfig

definition Default :: Config where
  "Default = \<lparr>StoreDir = DefaultStoreDir, KernelPath = DefaultKernelPath, BootImagePath = DefaultBootImagePath,
     cfg_Platform = \<lparr>OS = DefaultPlatformOS, Architecture = DefaultArchitecture\<rparr>,
     cfg_Rootfs = \<lparr>MinSizeBytes = DefaultRootfsMinBytes, MaxSizeBytes = 0, ExtraBytes = DefaultRootfsExtra,
                   FSKind = ''ext4''\<rparr>\<rparr>"

text \<open>\<open>if v == zero { v = d }\<close>, for strings and for numbers.\<close>

definition orString :: "string \<Rightarrow> string \<Rightarrow> string" where
  "orString v d = (if v = '''' then d else v)"

definition orInt :: "int \<Rightarrow> int \<Rightarrow> int" where
  "orInt v d = (if v = 0 then d else v)"

definition runtime_New :: "Config \<Rightarrow> Config" where
  "runtime_New cfg =
     (let defaults = Default; p = cfg_Platform cfg; r = cfg_Rootfs cfg in
      cfg\<lparr>StoreDir := orString (StoreDir cfg) (StoreDir defaults),
          KernelPath := orString (KernelPath cfg) (KernelPath defaults),
          BootImagePath := orString (BootImagePath cfg) (BootImagePath defaults),
          cfg_Platform := p\<lparr>OS := orString (OS p) (OS (cfg_Platform defaults)),
                            Architecture := orString (Architecture p) (Architecture (cfg_Platform defaults))\<rparr>,
          cfg_Rootfs := r\<lparr>MinSizeBytes := orInt (MinSizeBytes r) (MinSizeBytes (cfg_Rootfs defaults)),
                          ExtraBytes := orInt (ExtraBytes r) (ExtraBytes (cfg_Rootfs defaults)),
                          FSKind := orString (FSKind r) (FSKind (cfg_Rootfs defaults))\<rparr>\<rparr>)"

lemma orString_simps [simp]:
  "d \<noteq> '''' \<Longrightarrow> orString v d \<noteq> ''''" "orString (orString v d) d = orString v d"
  "v \<noteq> '''' \<Longrightarrow> orString v d = v" "orInt (orInt n k) k = orInt n k"
  by (simp_all add: orString_def orInt_def)

lemma Default_nonempty [simp]:
  "StoreDir Default \<noteq> ''''" "KernelPath Default \<noteq> ''''" "BootImagePath Default \<noteq> ''''"
  "OS (cfg_Platform Default) \<noteq> ''''" "Architecture (cfg_Platform Default) \<noteq> ''''"
  by (simp_all add: Default_def DefaultStoreDir_def DefaultKernelPath_def DefaultBootImagePath_def
      DefaultPlatformOS_def DefaultArchitecture_def)

lemma runtime_New_complete:
  "StoreDir (runtime_New cfg) \<noteq> ''''" "KernelPath (runtime_New cfg) \<noteq> ''''"
  "BootImagePath (runtime_New cfg) \<noteq> ''''" "OS (cfg_Platform (runtime_New cfg)) \<noteq> ''''"
  "Architecture (cfg_Platform (runtime_New cfg)) \<noteq> ''''"
  by (simp_all add: runtime_New_def Let_def)

lemma runtime_New_idem: "runtime_New (runtime_New cfg) = runtime_New cfg"
  by (simp add: runtime_New_def Let_def)

end
