(* ===== verification/ContentStore.thy ===== *)
theory ContentStore
  imports PathGuard GoSha256 HostConfig
begin

text \<open>
  The content-addressed store (\<open>internal/contentstore/store.go\<close>): where blobs, manifests,
  configurations, references and root file systems are kept, and how they are written: into a
  temporary file that is renamed into place when it is complete.  JSON text is an argument of
  \<open>WriteJSON\<close> (\<open>None\<close> when encoding fails) and the decoder one of \<open>ReadJSON\<close>.
\<close>

datatype store_error =
    StoreOs errno
  | DigestMismatch string string
  | CopyFailed
  | EncodeFailed
  | DecodeFailed

record RefMetadata =
  rm_ImageRef :: string
  rm_ManifestDigest :: string
  rm_Platform :: Platform
  rm_UpdatedAt :: int

section \<open>Paths\<close>

definition splitDigest :: "string \<Rightarrow> string \<times> string" where
  "splitDigest digest = (case Cut digest (CHR '':'') of None \<Rightarrow> (''sha256'', digest) | Some (a, e) \<Rightarrow> (a, e))"

text \<open>The replacer works on single characters, so the order of its pairs does not matter.\<close>

definition EscapeRef :: "string \<Rightarrow> string" where
  "EscapeRef ref = map (\<lambda>c. if c \<in> {CHR ''/'', CHR '':'', CHR ''@'', CHR '' ''} then CHR ''_'' else c) ref"

definition BlobDir :: "string \<Rightarrow> string \<Rightarrow> string" where
  "BlobDir Dir0 algorithm = Join [Dir0, ''content'', ''blobs'', algorithm]"

definition BlobPath :: "string \<Rightarrow> string \<Rightarrow> string" where
  "BlobPath Dir0 digest = (case splitDigest digest of (algorithm, encoded) \<Rightarrow>
     Join [Dir0, ''content'', ''blobs'', algorithm, encoded])"

definition ManifestPath :: "string \<Rightarrow> string \<Rightarrow> string" where
  "ManifestPath Dir0 digest = (case splitDigest digest of (a, encoded) \<Rightarrow>
     Join [Dir0, ''images'', ''manifests'', ''sha256'', encoded @ ''.json''])"

definition ConfigPath :: "string \<Rightarrow> string \<Rightarrow> string" where
  "ConfigPath Dir0 digest = (case splitDigest digest of (a, encoded) \<Rightarrow>
     Join [Dir0, ''images'', ''configs'', ''sha256'', encoded @ ''.json''])"

definition RefPath :: "string \<Rightarrow> string \<Rightarrow> string" where
  "RefPath Dir0 ref = Join [Dir0, ''images'', ''refs'', EscapeRef ref @ ''.json'']"

definition RootfsPath :: "string \<Rightarrow> string \<Rightarrow> string" where
  "RootfsPath Dir0 chainID = (case splitDigest chainID of (a, encoded) \<Rightarrow>
     Join [Dir0, ''rootfs'', ''complete'', encoded @ ''.ext4''])"

definition RootfsMetadataPath :: "string \<Rightarrow> string \<Rightarrow> string" where
  "RootfsMetadataPath Dir0 chainID = (case splitDigest chainID of (a, encoded) \<Rightarrow>
     Join [Dir0, ''rootfs'', ''complete'', encoded @ ''.json''])"

definition RootfsBuildingPath :: "string \<Rightarrow> string \<Rightarrow> string" where
  "RootfsBuildingPath Dir0 chainID = (case splitDigest chainID of (a, encoded) \<Rightarrow>
     Join [Dir0, ''rootfs'', ''building'', encoded @ ''.ext4.tmp''])"

definition LockPath :: "string \<Rightarrow> string \<Rightarrow> string" where
  "LockPath Dir0 chainID = (case splitDigest chainID of (a, encoded) \<Rightarrow>
     Join [Dir0, ''locks'', encoded @ ''.lock''])"

section \<open>Operations\<close>

fun makeDirs :: "string list \<Rightarrow> (store_error, unit) io" where
  "makeDirs [] = ret ()"
| "makeDirs (d # ds) = andThen (wrap StoreOs (MkdirAll d 493)) (\<lambda>_. makeDirs ds)"

definition Init :: "string \<Rightarrow> (store_error, unit) io" where
  "Init Dir0 = makeDirs
     [BlobDir Dir0 ''sha256'', Join [Dir0, ''images'', ''refs''], Join [Dir0, ''images'', ''manifests'', ''sha256''],
      Join [Dir0, ''images'', ''configs'', ''sha256''], Join [Dir0, ''rootfs'', ''complete''],
      Join [Dir0, ''rootfs'', ''building''], Join [Dir0, ''locks''],
      Join [Dir0, ''firecracker'', ''sockets''], Join [Dir0, ''firecracker'', ''logs'']]"

definition exists :: "string \<Rightarrow> ('e, bool) io" where
  "exists path = andThen (attempt (Stat path)) (\<lambda>r. ret (case r of Inl e \<Rightarrow> False | Inr x \<Rightarrow> True))"

text \<open>\<open>defer os.Remove(p)\<close>: the removal runs however the body ends, and its error is dropped.\<close>

definition deferRemove :: "string \<Rightarrow> ('e, 'a) io \<Rightarrow> ('e, 'a) io" where
  "deferRemove p m s = (case m s of (r, s') \<Rightarrow> (r, snd (Remove p s')))"

text \<open>
  Reading the blob: its bytes and whether reading ends in an error.
\<close>

type_synonym blob_reader = "string \<times> bool"

text \<open>What \<open>WriteBlob\<close> and \<open>WriteJSON\<close> do once their temporary file is open.\<close>

definition fillBlob :: "string \<Rightarrow> string \<Rightarrow> blob_reader \<Rightarrow> string \<Rightarrow> nat \<Rightarrow> (store_error, string) io" where
  "fillBlob path digest reader tmpPath tmp =
     andThen (attempt (FWrite tmp (fst reader))) (\<lambda>copied.
       if (case copied of Inl e \<Rightarrow> True | Inr u \<Rightarrow> snd reader)
       then andThen (attempt (FClose tmp)) (\<lambda>_. throw CopyFailed)
       else
         andThen (wrap StoreOs (FClose tmp)) (\<lambda>_.
         let actual = ''sha256:'' @ hex_EncodeToString (Sum256 (fst reader)) in
         if actual \<noteq> digest then throw (DigestMismatch actual digest)
         else
           andThen (attempt (Rename tmpPath path)) (\<lambda>renamed.
             case renamed of
               Inr u \<Rightarrow> ret path
             | Inl err \<Rightarrow>
                 andThen (exists path) (\<lambda>e. if e then ret path else throw (StoreOs err)))))"

definition WriteBlob :: "string \<Rightarrow> string \<Rightarrow> blob_reader \<Rightarrow> (store_error, string) io" where
  "WriteBlob Dir0 digest reader =
     (let path = BlobPath Dir0 digest in
      andThen (exists path) (\<lambda>e.
        if e then ret path
        else
          andThen (wrap StoreOs (MkdirAll (Dir path) 493)) (\<lambda>_.
          andThen (wrap StoreOs (CreateTemp (Dir path) ''.blob-'' ''.tmp'')) (\<lambda>(tmpPath, tmp).
          deferRemove tmpPath (fillBlob path digest reader tmpPath tmp)))))"

definition fillJSON :: "string \<Rightarrow> string option \<Rightarrow> string \<Rightarrow> nat \<Rightarrow> (store_error, unit) io" where
  "fillJSON path value tmpPath tmp =
     (case value of
        None \<Rightarrow> andThen (attempt (FClose tmp)) (\<lambda>_. throw EncodeFailed)
      | Some text \<Rightarrow>
          andThen (attempt (FWrite tmp text)) (\<lambda>written.
            case written of
              Inl e \<Rightarrow> andThen (attempt (FClose tmp)) (\<lambda>_. throw (StoreOs e))
            | Inr u \<Rightarrow>
                andThen (wrap StoreOs (FClose tmp)) (\<lambda>_. wrap StoreOs (Rename tmpPath path))))"

definition WriteJSON :: "string \<Rightarrow> string option \<Rightarrow> (store_error, unit) io" where
  "WriteJSON path value =
     andThen (wrap StoreOs (MkdirAll (Dir path) 493)) (\<lambda>_.
     andThen (wrap StoreOs (CreateTemp (Dir path) ''.json-'' ''.tmp'')) (\<lambda>(tmpPath, tmp).
     deferRemove tmpPath (fillJSON path value tmpPath tmp)))"

definition ReadJSON :: "(string \<Rightarrow> 'a option) \<Rightarrow> string \<Rightarrow> (store_error, 'a) io" where
  "ReadJSON decode path =
     andThen (wrap StoreOs (ReadFile path)) (\<lambda>text.
       case decode text of None \<Rightarrow> throw DecodeFailed | Some v \<Rightarrow> ret v)"

end
