(* ===== verification/StoreSafety.thy ===== *)
theory StoreSafety
  imports ContentStore
begin

text \<open>
  The invariant of the content store: a file of \<open>content/blobs/sha256\<close> whose name is a digest
  has contents with that digest.  Every write of the store keeps it, whichever call fails.
\<close>

section \<open>Paths of the store\<close>

definition blobname :: "string \<Rightarrow> bool" where
  "blobname n = (length n = 64 \<and> list_all is_hex n)"

lemma hex_not_dot: "is_hex c \<Longrightarrow> c \<noteq> CHR ''.'' \<and> c \<noteq> CHR ''/''"
  by (auto simp: is_hex_def)

lemma blobname_no_dot: "CHR ''.'' \<in> set n \<Longrightarrow> \<not> blobname n"
  using hex_not_dot by (auto simp: blobname_def list_all_iff)

lemma blobname_plain: "blobname n \<Longrightarrow> plain n"
proof -
  assume n: "blobname n"
  then have "n \<noteq> ''''" "n \<noteq> ''.''" "n \<noteq> ''..''" by (auto simp: blobname_def)
  moreover have "slash \<notin> set n" using n hex_not_dot by (auto simp: blobname_def list_all_iff)
  ultimately show ?thesis by (simp add: plain_def)
qed

lemma blobname_digest: "blobname (hex_EncodeToString (Sum256 bs))"
  by (simp add: blobname_def hex_is_hex)

text \<open>The directory of the blobs, and the file names that \<open>os.CreateTemp\<close> makes.\<close>

definition blobdir :: "string \<Rightarrow> string list" where
  "blobdir dir = comps dir @ [''content'', ''blobs'', ''sha256'']"

lemma itoa_plain: "slash \<notin> set (itoa n)"
  using itoa_digits [of n] by (auto simp: list_all_iff is_digit_def)

lemma temp_plain:
  assumes "pre = CHR ''.'' # a" "slash \<notin> set a" "slash \<notin> set suf" "length a > 1"
  shows "plain (pre @ itoa n @ suf)" "\<not> blobname (pre @ itoa n @ suf)"
proof -
  show "plain (pre @ itoa n @ suf)"
    using assms itoa_plain [of n] by (cases a; cases "tl a") (auto simp: plain_def)
  show "\<not> blobname (pre @ itoa n @ suf)"
    using assms(1) by (intro blobname_no_dot) simp
qed

section \<open>The invariant\<close>

definition blobs_ok :: "string \<Rightarrow> os \<Rightarrow> bool" where
  "blobs_ok dir s = (\<forall>enc i d. blobname enc \<longrightarrow> ent s (blobdir dir @ [enc]) = Some (RegE i) \<longrightarrow>
     inodes s i = Some d \<longrightarrow> hex_EncodeToString (Sum256 (contents d)) = enc)"

definition store_ok :: "string \<Rightarrow> os \<Rightarrow> bool" where
  "store_ok dir s = (tree s \<and> bounded s \<and> nolinks (ent s) (comps dir) \<and> linkfree (comps dir) s \<and> blobs_ok dir s)"

lemma stable_store_ok [simp, intro]: "stable (store_ok dir)"
  by (simp add: stable_def store_ok_def tree_def linkfree_def blobs_ok_def)

lemma store_nolinks: "store_ok dir s \<Longrightarrow> prefix (comps dir) p \<Longrightarrow> nolinks (ent s) p"
  unfolding nolinks_iff
proof (intro allI impI)
  fix q assume s: "store_ok dir s" "prefix (comps dir) p" and q: "prefix q p"
  show "\<not> is_lnk (ent s q)"
  proof (cases "prefix (comps dir) q")
    case True
    then show ?thesis using s by (simp add: store_ok_def linkfree_def)
  next
    case False
    then have "prefix q (comps dir)" using s(2) q by (meson prefix_same_cases)
    then show ?thesis using s by (simp add: store_ok_def nolinks_iff)
  qed
qed

text \<open>A file of the store: below its directory, with plain components.\<close>

definition store_file :: "string \<Rightarrow> string \<Rightarrow> bool" where
  "store_file dir path = (cleaned path \<and> rooted path \<and> strict_prefix (comps dir) (butlast (comps path)))"

lemma store_file_Join:
  assumes "cleaned dir" "rooted dir" "list_all plain es" "length es \<ge> 2"
  shows "store_file dir (Join (dir # es))" "comps (Join (dir # es)) = comps dir @ es"
proof -
  have ne: "dir \<noteq> ''''" using assms(1) by (rule cleaned_nonempty)
  note j = Join_plain [OF ne assms(3)]
  show "comps (Join (dir # es)) = comps dir @ es" by (rule j(2))
  have "butlast es \<noteq> []" "es \<noteq> []" using assms(4) by (cases es rule: rev_cases; auto)+
  then show "store_file dir (Join (dir # es))"
    using j assms(2) by (simp add: store_file_def butlast_append strict_prefix_def)
qed

lemma resolve_store:
  assumes "store_ok dir s" "cleaned p" "rooted p" "prefix (comps dir) (comps p)" "resolve s f p = Inr q"
  shows "q = comps p"
proof (rule resolve_nolinks [OF assms(2,3) _ _ assms(5)])
  have n: "nolinks (ent s) (comps p)" using assms(1,4) by (rule store_nolinks)
  then show "nolinks (ent s) (butlast (comps p))" by (rule nolinks_butlast)
  show "is_lnk (ent s (comps p)) \<longrightarrow> \<not> f" using n by (simp add: nolinks_iff)
qed

section \<open>Single calls\<close>

lemma valid_both: "valid P m (\<lambda>_. Q) Q \<Longrightarrow> P s \<Longrightarrow> m s = (r, s') \<Longrightarrow> Q s'"
  by (cases r) (auto dest: valid_Inr valid_Inl)

lemma store_okD:
  assumes "store_ok dir s"
  shows "tree s" "bounded s" "nolinks (ent s) (comps dir)" "linkfree (comps dir) s" "blobs_ok dir s"
  using assms by (simp_all add: store_ok_def)

lemma grown_store_ok:
  assumes "grown s s'" "store_ok dir s" "tree s'"
  shows "store_ok dir s'"
proof -
  have "linkfree (comps dir) s'"
    using assms(1,2) unfolding store_ok_def linkfree_def grown_def by (metis is_dir_not_lnk)
  moreover have "blobs_ok dir s'"
    using assms(1,2) unfolding store_ok_def blobs_ok_def grown_def by (metis is_dir.simps(4))
  ultimately show ?thesis
    using assms grown_nolinks grown_bounded by (auto simp: store_ok_def)
qed

lemma tree_MkdirAll:
  assumes "cleaned p" "rooted p"
  shows "valid tree (MkdirAll p m) (\<lambda>_. tree) tree"
proof (rule valid_MkdirAll_prefixes [OF assms stable_tree])
  fix cs
  have "rooted (render True cs)" by (simp add: render_def rooted_def)
  then show "valid tree (Mkdir (render True cs) m) (\<lambda>_. tree) tree"
    by (rule valid_touches_tree [OF touches_Mkdir [of True]])
qed

lemma valid_store_MkdirAll:
  assumes "cleaned p" "rooted p"
  shows "valid (store_ok dir) (MkdirAll p m) (\<lambda>_. store_ok dir) (store_ok dir)"
proof -
  have "store_ok dir s'" if s: "store_ok dir s" and m: "MkdirAll p m s = (r, s')" for s s' and r :: "errno + unit"
  proof (rule grown_store_ok [OF _ s])
    show "grown s s'" by (rule valid_both [OF valid_MkdirAll_grown grown_refl m])
    show "tree s'" by (rule valid_both [OF tree_MkdirAll [OF assms] store_okD(1) [OF s] m])
  qed
  then show ?thesis by (intro validI)
qed

text \<open>A temporary file with its contents so far: no blob uses its inode.\<close>

definition draft :: "string \<Rightarrow> string \<Rightarrow> nat \<Rightarrow> string \<Rightarrow> os \<Rightarrow> bool" where
  "draft dir tmp i bs s = (store_ok dir s \<and> ent s (comps tmp) = Some (RegE i) \<and>
     (\<forall>p. ent s p = Some (RegE i) \<longrightarrow> p = comps tmp) \<and> (\<exists>d. inodes s i = Some d \<and> contents d = bs) \<and>
     comps tmp \<noteq> [] \<and> \<not> blobname (last (comps tmp)))"

lemma stable_draft [simp, intro]: "stable (draft dir tmp i bs)"
  by (simp add: stable_def draft_def store_ok_def tree_def linkfree_def blobs_ok_def)

text \<open>A temporary name next to a file of the store.\<close>

definition temp_of :: "string \<Rightarrow> string \<Rightarrow> string \<Rightarrow> bool" where
  "temp_of dir path tmp = (cleaned tmp \<and> rooted tmp \<and> comps tmp \<noteq> [] \<and>
     butlast (comps tmp) = butlast (comps path) \<and> \<not> blobname (last (comps tmp)) \<and>
     suffix ''.tmp'' (last (comps tmp)))"

lemma temp_prefix: "store_file dir path \<Longrightarrow> temp_of dir path tmp \<Longrightarrow> prefix (comps dir) (comps tmp)"
  unfolding store_file_def temp_of_def strict_prefix_def
  by (metis append_butlast_last_id prefix_order.trans prefixI)

lemma new_file_store_ok:
  assumes s: "store_ok dir s" and q: "ent s q = None" "\<not> blobname (last q)" "q \<noteq> []" "is_dir (ent s (butlast q))"
    and n: "new_file q m s = (i, s')"
  shows "store_ok dir s'" "ent s' q = Some (RegE i)" "\<And>p. ent s' p = Some (RegE i) \<Longrightarrow> p = q"
    "\<exists>d. inodes s' i = Some d \<and> contents d = ''''"
proof -
  have s': "s' = snd (new_file q m s)" and i: "i = next_ino s" using n by (auto simp: new_file_def Let_def)
  have g: "gentle True q s s'" unfolding s' using q(1) by (rule gentle_new_file)
  have ent: "ent s' = (ent s)(q \<mapsto> RegE i)" by (simp add: s' new_file_def Let_def i)
  have ino: "inodes s' j = inodes s j" if "j \<noteq> i" for j using that by (simp add: s' new_file_def Let_def i)
  have b: "j \<noteq> i" if "ent s p = Some (RegE j)" for p j
    using s that by (auto simp: store_ok_def bounded_def i)
  show "ent s' q = Some (RegE i)" by (simp add: ent)
  show "\<exists>d. inodes s' i = Some d \<and> contents d = ''''" by (simp add: s' new_file_def Let_def i)
  show "p = q" if "ent s' p = Some (RegE i)" for p
    using that b [of p i] by (auto simp: ent split: if_splits)
  have "blobs_ok dir s'"
    unfolding blobs_ok_def
  proof (intro allI impI)
    fix enc j d assume e: "blobname enc" "ent s' (blobdir dir @ [enc]) = Some (RegE j)" "inodes s' j = Some d"
    have "blobdir dir @ [enc] \<noteq> q" using e(1) q(2) by auto
    then have old: "ent s (blobdir dir @ [enc]) = Some (RegE j)" using e(2) by (simp add: ent)
    then have "inodes s j = Some d" using e(3) ino [OF b] by simp
    then show "hex_EncodeToString (Sum256 (contents d)) = enc"
      using s e(1) old by (auto simp: store_ok_def blobs_ok_def)
  qed
  moreover have "linkfree (comps dir) s'" using s by (auto simp: store_ok_def linkfree_def ent)
  moreover have "nolinks (ent s') (comps dir)" using s by (auto simp: store_ok_def nolinks_iff ent)
  moreover have "tree s'" by (rule gentle_tree [OF g store_okD(1) [OF s] q(4)])
  moreover have "bounded s'" by (rule gentle_bounded [OF g store_okD(2) [OF s]])
  ultimately show "store_ok dir s'" by (simp add: store_ok_def)
qed

lemma OpenExcl_cases:
  assumes "OpenExcl p m s = (Inr i, s')"
  obtains q where "resolve s False p = Inr q" "ent s q = None" "new_file q m (s\<lparr>tick := Suc (tick s)\<rparr>) = (i, s')"
  using assms unfolding OpenExcl_def sysop_def Let_def
  by (auto split: option.splits sum.splits prod.splits)

lemma OpenExcl_error: "OpenExcl p m s = (Inl e, s') \<Longrightarrow> \<exists>t. s' = s\<lparr>tick := t\<rparr>"
  unfolding OpenExcl_def sysop_def Let_def by (auto split: option.splits sum.splits prod.splits)

lemma valid_store_OpenExcl:
  assumes f: "store_file dir path" and t: "temp_of dir path tmp"
  shows "valid (store_ok dir) (OpenExcl tmp m) (\<lambda>i. draft dir tmp i '''') (store_ok dir)"
proof (rule validI)
  fix s i s' assume s: "store_ok dir s" and o': "OpenExcl tmp m s = (Inr i, s')"
  have tm: "cleaned tmp" "rooted tmp" "comps tmp \<noteq> []" "\<not> blobname (last (comps tmp))"
    using t by (simp_all add: temp_of_def)
  obtain q where q: "resolve s False tmp = Inr q" "ent s q = None"
    "new_file q m (s\<lparr>tick := Suc (tick s)\<rparr>) = (i, s')" using o' by (rule OpenExcl_cases)
  have q': "q = comps tmp" by (rule resolve_store [OF s tm(1,2) temp_prefix [OF f t] q(1)])
  have d: "is_dir (ent s (butlast q))" by (rule resolve_parent [OF store_okD(1) [OF s] tm(2) q(1)])
  have t: "store_ok dir (s\<lparr>tick := Suc (tick s)\<rparr>)" using s by (rule stable_tick [OF stable_store_ok])
  have "ent (s\<lparr>tick := Suc (tick s)\<rparr>) = ent s" by simp
  with q(2) d tm q' have *: "ent (s\<lparr>tick := Suc (tick s)\<rparr>) q = None" "\<not> blobname (last q)" "q \<noteq> []"
    "is_dir (ent (s\<lparr>tick := Suc (tick s)\<rparr>) (butlast q))" by simp_all
  note new = new_file_store_ok [OF t * q(3)]
  show "draft dir tmp i '''' s'" unfolding draft_def using new q' tm by metis
next
  fix s e s' assume "store_ok dir s" "OpenExcl tmp m s = (Inl e, s')"
  then show "store_ok dir s'" using OpenExcl_error stable_tick [OF stable_store_ok] by metis
qed


lemma draft_unshared: "draft dir tmp i bs s \<Longrightarrow> blobname enc \<Longrightarrow> ent s (blobdir dir @ [enc]) \<noteq> Some (RegE i)"
  unfolding draft_def by (metis last_snoc)

lemma valid_draft_FWrite:
  "valid (draft dir tmp i bs) (FWrite i cs) (\<lambda>_. draft dir tmp i (bs @ cs)) (draft dir tmp i bs)"
proof (rule validI)
  fix s u s' assume s: "draft dir tmp i bs s" and w: "FWrite i cs s = (Inr u, s')"
  obtain d where d: "inodes s i = Some d" "contents d = bs" using s by (auto simp: draft_def)
  have s': "s' = set_inode i (d\<lparr>contents := bs @ cs, mtime := now s\<rparr>) (s\<lparr>tick := Suc (tick s)\<rparr>)"
    using w d unfolding FWrite_def sysop_def Let_def by (auto split: option.splits)
  have ent: "ent s' = ent s" using w by (rule FWrite_ent)
  have ino: "inodes s' j = inodes s j" if "j \<noteq> i" for j using that by (simp add: s')
  have ok: "store_ok dir s" using s by (simp add: draft_def)
  have "blobs_ok dir s'"
    unfolding blobs_ok_def
  proof (intro allI impI)
    fix enc j e assume e: "blobname enc" "ent s' (blobdir dir @ [enc]) = Some (RegE j)" "inodes s' j = Some e"
    have "j \<noteq> i" using draft_unshared [OF s e(1)] e(2) by (auto simp: ent)
    then show "hex_EncodeToString (Sum256 (contents e)) = enc"
      using store_okD(5) [OF ok] e ino [of j] by (simp add: blobs_ok_def ent)
  qed
  moreover have "tree s'" using store_okD(1) [OF ok] tree_ent [OF ent] by simp
  moreover have "bounded s'" using store_okD(2) [OF ok] by (simp add: bounded_def s')
  moreover have "linkfree (comps dir) s'" using store_okD(4) [OF ok] by (simp add: linkfree_def ent)
  ultimately have "store_ok dir s'" using store_okD(3) [OF ok] by (simp add: store_ok_def ent)
  moreover have "inodes s' i = Some (d\<lparr>contents := bs @ cs, mtime := now s\<rparr>)" by (simp add: s')
  ultimately show "draft dir tmp i (bs @ cs) s'" using s unfolding draft_def ent by simp
next
  fix s e s' assume s: "draft dir tmp i bs s" and "FWrite i cs s = (Inl e, s')"
  then have "s' = s\<lparr>tick := Suc (tick s)\<rparr>"
    by (auto simp: FWrite_def sysop_def Let_def split: option.splits)
  then show "draft dir tmp i bs s'" using stable_tick [OF stable_draft s] by simp
qed

text \<open>Moving a file that has nothing below it.\<close>

lemma map_of_moved:
  assumes "\<And>r e. (r, e) \<in> set xs \<Longrightarrow> r \<noteq> q \<and> (prefix o1 r \<longrightarrow> r = o1)" "o1 \<noteq> q"
  shows "map_of (map (\<lambda>(r, e). (move_key o1 q r, e)) xs) p =
    (if p = q then map_of xs o1 else if p = o1 then None else map_of xs p)"
  using assms
proof (induction xs)
  case (Cons x xs)
  obtain r e where x: "x = (r, e)" by (cases x)
  have r: "r \<noteq> q" "prefix o1 r \<longrightarrow> r = o1" using Cons.prems(1) [of r e] by (simp_all add: x)
  have k: "move_key o1 q r = (if r = o1 then q else r)" using r by (auto simp: move_key_def)
  have "map_of (map (\<lambda>(r, e). (move_key o1 q r, e)) xs) p =
    (if p = q then map_of xs o1 else if p = o1 then None else map_of xs p)"
    using Cons.prems by (intro Cons.IH) auto
  then show ?case using r Cons.prems(2) by (auto simp: x k)
qed simp

lemma Rename_file:
  assumes t: "tree s" and o1: "ent s o1 = Some (RegE i)" "resolve s False old = Inr o1"
    and q: "resolve s False p = Inr q" "q \<noteq> o1" and r: "Rename old p s = (Inr u, s')"
  shows "ent s' = (\<lambda>r. if r = q then Some (RegE i) else if r = o1 \<or> prefix q r then None else ent s r)"
    and "inodes s' = inodes s" "next_ino s' = next_ino s" "\<not> prefix o1 q" "q \<noteq> []"
proof -
  let ?s = "s\<lparr>tick := Suc (tick s)\<rparr>"
  have "resolve ?s False old = resolve s False old" "resolve ?s False p = resolve s False p"
    by (simp_all add: resolve_def)
  then have "\<not> prefix o1 q \<and> q \<noteq> [] \<and> \<not> is_dir (ent s q) \<and> s' = (del_tree q ?s)\<lparr>ents :=
      map (\<lambda>(r, e). (move_key o1 q r, e)) (ents (del_tree q ?s))\<rparr>"
    using o1 q r unfolding Rename_def sysop_def Let_def
    by (auto split: option.splits if_splits)
  then have n: "\<not> prefix o1 q" "q \<noteq> []" "\<not> is_dir (ent s q)" and s': "s' = (del_tree q ?s)\<lparr>ents :=
      map (\<lambda>(r, e). (move_key o1 q r, e)) (ents (del_tree q ?s))\<rparr>" by auto
  show "\<not> prefix o1 q" "q \<noteq> []" "inodes s' = inodes s" "next_ino s' = next_ino s"
    using n by (simp_all add: s' del_tree_def)
  have nq: "\<not> prefix q o1"
    using tree_prefix [OF t, of o1 q] q(2) o1(1) n(3) by (auto simp: strict_prefix_def)
  have below: "r = o1" if "prefix o1 r" "ent s r \<noteq> None" for r
    using tree_prefix [OF t that(2), of o1] that(1) o1(1) by (auto simp: strict_prefix_def)
  have keys: "r \<noteq> q \<and> (prefix o1 r \<longrightarrow> r = o1)" if "(r, e) \<in> set (ents (del_tree q ?s))" for r e
  proof -
    have "(r, e) \<in> set (ents s)" "\<not> prefix q r" using that by (auto simp: del_tree_def)
    then show ?thesis using below [of r] by (auto simp: ent_def dest!: weak_map_of_SomeI)
  qed
  have "ent s' r = (if r = q then Some (RegE i) else if r = o1 \<or> prefix q r then None else ent s r)" for r
  proof -
    have "ent s' r = (if r = q then ent (del_tree q ?s) o1 else if r = o1 then None else ent (del_tree q ?s) r)"
      using map_of_moved [of "ents (del_tree q ?s)" q o1 r] keys q(2) by (simp add: s' ent_def)
    then show ?thesis using nq o1(1) by auto
  qed
  then show "ent s' = (\<lambda>r. if r = q then Some (RegE i) else if r = o1 \<or> prefix q r then None else ent s r)" by blast
qed

lemma moved_tree:
  assumes t: "tree s" and o1: "ent s o1 = Some (RegE i)" and par: "is_dir (ent s (butlast q))" and q: "q \<noteq> []"
    and e: "ent s' = (\<lambda>r. if r = q then Some (RegE i) else if r = o1 \<or> prefix q r then None else ent s r)"
  shows "tree s'"
proof -
  have keep: "is_dir (ent s' p)" if "is_dir (ent s p)" "\<not> prefix q p" for p
    using that o1 by (auto simp: e)
  have "is_dir (ent s' p)" if c: "ent s' (p @ [c]) \<noteq> None" for p c
  proof (cases "p @ [c] = q")
    case True
    then have "is_dir (ent s p)" "\<not> prefix q p" using par by auto
    then show ?thesis by (rule keep)
  next
    case False
    then have "ent s (p @ [c]) \<noteq> None" "\<not> prefix q (p @ [c])" using c by (auto simp: e split: if_splits)
    moreover from this have "\<not> prefix q p" by auto
    ultimately show ?thesis using t by (intro keep) (auto simp: tree_def)
  qed
  moreover have "is_dir (ent s' [])" using t q by (intro keep) (auto simp: tree_def)
  ultimately show ?thesis by (auto simp: tree_def)
qed

text \<open>
  Renaming a file to a place in the store: its contents have to fit the name when the name is that of a
  blob.
\<close>

lemma Rename_store_ok:
  assumes ok: "store_ok dir s" and o1: "ent s o1 = Some (RegE i)" "resolve s False old = Inr o1"
    and q: "resolve s False path = Inr q" "q \<noteq> o1" "rooted path" and r: "Rename old path s = (Inr u, s')"
    and fits: "\<And>enc d. q = blobdir dir @ [enc] \<Longrightarrow> blobname enc \<Longrightarrow> inodes s i = Some d \<Longrightarrow> hex_EncodeToString (Sum256 (contents d)) = enc"
  shows "store_ok dir s'" "ent s' q = Some (RegE i)" "inodes s' = inodes s"
proof -
  note R = Rename_file [OF store_okD(1) [OF ok] o1 q(1,2) r]
  show "ent s' q = Some (RegE i)" "inodes s' = inodes s" by (simp_all add: R)
  have par: "is_dir (ent s (butlast q))" by (rule resolve_parent [OF store_okD(1) [OF ok] q(3,1)])
  have i: "i < next_ino s" using store_okD(2) [OF ok] o1 by (auto simp: bounded_def)
  have lnk: "is_lnk (ent s' p) \<Longrightarrow> is_lnk (ent s p)" for p by (auto simp: R(1) split: if_splits)
  have "bounded s'" using store_okD(2) [OF ok] i by (auto simp: bounded_def R(1,3) split: if_splits)
  moreover have "tree s'" by (rule moved_tree [OF store_okD(1) [OF ok] o1(1) par R(5,1)])
  moreover have "linkfree (comps dir) s'" "nolinks (ent s') (comps dir)"
    using store_okD(3,4) [OF ok] lnk by (auto simp: linkfree_def nolinks_iff)
  moreover have "blobs_ok dir s'"
    unfolding blobs_ok_def
  proof (intro allI impI)
    fix enc j e assume e: "blobname enc" "ent s' (blobdir dir @ [enc]) = Some (RegE j)" "inodes s' j = Some e"
    show "hex_EncodeToString (Sum256 (contents e)) = enc"
    proof (cases "blobdir dir @ [enc] = q")
      case True
      then show ?thesis using e fits [of enc e] by (simp add: R(1,2))
    next
      case False
      then show ?thesis
        using e store_okD(5) [OF ok] by (simp add: R(1,2) blobs_ok_def split: if_splits)
    qed
  qed
  ultimately show "store_ok dir s'" by (simp add: store_ok_def)
qed

lemma Rename_resolves: "Rename old p s = (Inr u, s') \<Longrightarrow> \<exists>o1 q e. resolve s False old = Inr o1 \<and> ent s o1 = Some e \<and> resolve s False p = Inr q"
  unfolding Rename_def sysop_def Let_def resolve_def
  by (auto split: option.splits sum.splits if_splits)

lemma Rename_same: "Rename old p s = (Inr u, s') \<Longrightarrow> resolve s False old = Inr q \<Longrightarrow> resolve s False p = Inr q \<Longrightarrow> \<exists>t. s' = s\<lparr>tick := t\<rparr>"
  unfolding Rename_def sysop_def Let_def by (auto split: option.splits)

lemma Rename_error: "Rename old p s = (Inl e, s') \<Longrightarrow> \<exists>t. s' = s\<lparr>tick := t\<rparr>"
  unfolding Rename_def sysop_def Let_def by (auto split: option.splits sum.splits if_splits)

text \<open>A draft in particular.  A failing rename leaves it where it was.\<close>

lemma valid_draft_Rename:
  assumes f: "store_file dir path" and t: "temp_of dir path tmp"
    and fits: "\<And>enc. comps path = blobdir dir @ [enc] \<Longrightarrow> blobname enc \<Longrightarrow> hex_EncodeToString (Sum256 bs) = enc"
  shows "valid (draft dir tmp i bs) (Rename tmp path)
    (\<lambda>_ s. store_ok dir s \<and> ent s (comps path) = Some (RegE i) \<and> (\<exists>d. inodes s i = Some d \<and> contents d = bs))
    (draft dir tmp i bs)"
proof (rule validI)
  fix s u s' assume s: "draft dir tmp i bs s" and rn: "Rename tmp path s = (Inr u, s')"
  have ok: "store_ok dir s" and o1: "ent s (comps tmp) = Some (RegE i)" using s by (simp_all add: draft_def)
  obtain o1' q' where r: "resolve s False tmp = Inr o1'" "resolve s False path = Inr q'"
    using Rename_resolves [OF rn] by blast
  have tm: "cleaned tmp" "rooted tmp" using t by (simp_all add: temp_of_def)
  have pa: "cleaned path" "rooted path" "prefix (comps dir) (comps path)"
    using f by (auto simp: store_file_def strict_prefix_def intro: prefix_order.trans prefixeq_butlast)
  have r1: "resolve s False tmp = Inr (comps tmp)" using resolve_store [OF ok tm temp_prefix [OF f t] r(1)] r(1) by simp
  have r2: "resolve s False path = Inr (comps path)" using resolve_store [OF ok pa r(2)] r(2) by simp
  show "store_ok dir s' \<and> ent s' (comps path) = Some (RegE i) \<and> (\<exists>d. inodes s' i = Some d \<and> contents d = bs)"
  proof (cases "comps path = comps tmp")
    case True
    then obtain t where "s' = s\<lparr>tick := t\<rparr>" using Rename_same [OF rn r1] r2 by auto
    then show ?thesis using stable_tick [OF stable_draft s, of t] True by (simp add: draft_def)
  next
    case False
    have "hex_EncodeToString (Sum256 (contents d)) = enc"
      if "comps path = blobdir dir @ [enc]" "blobname enc" "inodes s i = Some d" for enc d
      using fits that s by (auto simp: draft_def)
    then have "store_ok dir s'" "ent s' (comps path) = Some (RegE i)" "inodes s' = inodes s"
      by (blast intro: Rename_store_ok [OF ok o1 r1 r2 False pa(2) rn])+
    then show ?thesis using s by (simp add: draft_def)
  qed
next
  fix s e s' assume s: "draft dir tmp i bs s" and "Rename tmp path s = (Inl e, s')"
  then show "draft dir tmp i bs s'" using Rename_error stable_tick [OF stable_draft s] by blast
qed

text \<open>Removing any name keeps the invariant.\<close>

lemma store_del_tree:
  assumes s: "store_ok dir s" and q: "q \<noteq> []"
  shows "store_ok dir (del_tree q s)"
proof -
  have "tree (del_tree q s)" using store_okD(1) [OF s] q by (rule del_tree_tree)
  moreover have "bounded (del_tree q s)" using store_okD(2) [OF s] by (auto simp: bounded_def split: if_splits)
  moreover have "linkfree (comps dir) (del_tree q s)" "nolinks (ent (del_tree q s)) (comps dir)"
    using store_okD(3,4) [OF s] by (auto simp: linkfree_def nolinks_iff)
  moreover have "blobs_ok dir (del_tree q s)"
    using store_okD(5) [OF s] by (auto simp: blobs_ok_def split: if_splits)
  ultimately show ?thesis by (simp add: store_ok_def)
qed

lemma valid_store_Remove: "valid (store_ok dir) (Remove p) (\<lambda>_. store_ok dir) (store_ok dir)"
  unfolding Remove_def
  by (rule valid_sysop) (auto intro: store_del_tree stable_tick [OF stable_store_ok] split: sum.splits option.splits if_splits)

lemma valid_deferRemove:
  "valid P m (\<lambda>_. store_ok dir) (store_ok dir) \<Longrightarrow> valid P (deferRemove p m) (\<lambda>_. store_ok dir) (store_ok dir)"
proof -
  assume v: "valid P m (\<lambda>_. store_ok dir) (store_ok dir)"
  have "store_ok dir s'" if P: "P s" and d: "deferRemove p m s = (r, s')" for s r s'
  proof -
    obtain s1 where m: "m s = (r, s1)" and s': "s' = snd (Remove p s1)"
      using d by (auto simp: deferRemove_def split: prod.splits)
    have "store_ok dir s1" by (rule valid_both [OF v P m])
    then show ?thesis using s' valid_both [OF valid_store_Remove] by (metis prod.collapse)
  qed
  then show ?thesis by (intro validI)
qed

lemma readonly_exists: "stable P \<Longrightarrow> valid P (exists p) (\<lambda>_. P) E"
  unfolding exists_def
  by (rule valid_andThen, rule valid_attempt_same, rule valid_conseq [OF valid_Stat])
    (auto intro: valid_ret)

lemma valid_FClose: "stable P \<Longrightarrow> valid P (FClose i) (\<lambda>_. P) P"
  unfolding FClose_def by (rule valid_sysop) (auto simp: stable_def)

text \<open>The names that \<open>os.CreateTemp\<close> tries lie next to the file.\<close>

lemma temp_of_name:
  assumes f: "store_file dir path" and c: "plain c" "\<not> blobname c" "suffix ''.tmp'' c"
  shows "temp_of dir path (Dir path @ slash # c)"
proof -
  have p: "cleaned path" "rooted path" "butlast (comps path) \<noteq> []"
    using f by (auto simp: store_file_def strict_prefix_def)
  let ?d = "butlast (comps path)"
  have n: "normal True (?d @ [c])"
    using comps_rooted_plain [OF p(2)] c(1) by (auto simp: normal_rooted list_all_iff dest: in_set_butlastD)
  have "Dir path = render True ?d" using Dir_cleaned [OF p(1)] p(2) cleaned_render by metis
  then have "Dir path @ slash # c = render True (?d @ [c])" using p(3) by (simp add: render_def join_with_append)
  then show ?thesis using n c(2,3) comps_render [OF n] render_cleaned [OF n] rooted_render [OF n]
    by (simp add: temp_of_def)
qed

lemma valid_store_CreateTemp_try:
  assumes f: "store_file dir path"
    and names: "\<And>k. plain (pre @ itoa k @ suf) \<and> \<not> blobname (pre @ itoa k @ suf) \<and> suffix ''.tmp'' suf"
  shows "valid (store_ok dir) (CreateTemp_try n (Dir path) pre suf)
    (\<lambda>(p, i) s. temp_of dir path p \<and> draft dir p i '''' s) (store_ok dir)"
proof (induction n)
  case 0
  then show ?case by (simp add: valid_throw)
next
  case (Suc n)
  have "valid (\<lambda>s. store_ok dir s \<and> temp_of dir path p)
     (andThen (attempt (OpenExcl p 384)) (\<lambda>r.
       case r of Inr i \<Rightarrow> ret (p, i)
       | Inl e \<Rightarrow> if e = EEXIST then CreateTemp_try n (Dir path) pre suf else throw e))
     (\<lambda>(p, i) s. temp_of dir path p \<and> draft dir p i '''' s) (store_ok dir)" for p
  proof (cases "temp_of dir path p")
    case t: True
    show ?thesis
    proof (rule valid_andThen)
      show "valid (\<lambda>s. store_ok dir s \<and> temp_of dir path p) (attempt (OpenExcl p 384))
        (\<lambda>r s. case r of Inr i \<Rightarrow> draft dir p i '''' s | Inl e \<Rightarrow> store_ok dir s) (store_ok dir)"
        by (rule valid_attempt, rule valid_conseq [OF valid_store_OpenExcl [OF f t]]) auto
    next
      fix r :: "errno + nat"
      show "valid (\<lambda>s. case r of Inr i \<Rightarrow> draft dir p i '''' s | Inl e \<Rightarrow> store_ok dir s)
        (case r of Inr i \<Rightarrow> ret (p, i)
         | Inl e \<Rightarrow> if e = EEXIST then CreateTemp_try n (Dir path) pre suf else throw e)
        (\<lambda>(p, i) s. temp_of dir path p \<and> draft dir p i '''' s) (store_ok dir)"
        using Suc.IH t by (cases r) (auto intro: valid_ret valid_throw)
    qed
  qed (simp add: valid_def)
  then show ?case
    unfolding CreateTemp_try.simps
    by (rule valid_andThen [rotated], intro valid_reads)
      (use temp_of_name [OF f] names in \<open>auto intro: suffix_order.trans simp: suffix_append\<close>)
qed

lemma draft_store_ok: "draft dir tmp i bs s \<Longrightarrow> store_ok dir s"
  by (simp add: draft_def)

section \<open>The writers\<close>

lemma blob_names: "plain (''.blob-'' @ itoa k @ ''.tmp'') \<and> \<not> blobname (''.blob-'' @ itoa k @ ''.tmp'') \<and> suffix ''.tmp'' ''.tmp''"
  and json_names: "plain (''.json-'' @ itoa k @ ''.tmp'') \<and> \<not> blobname (''.json-'' @ itoa k @ ''.tmp'') \<and> suffix ''.tmp'' ''.tmp''"
  using temp_plain [of "''.blob-''" "''blob-''" "''.tmp''" k] temp_plain [of "''.json-''" "''json-''" "''.tmp''" k]
  by simp_all

lemmas store_step_rules =
  valid_store_MkdirAll valid_store_CreateTemp_try valid_deferRemove valid_draft_FWrite valid_FClose

lemma store_file_Dir: "store_file dir path \<Longrightarrow> cleaned (Dir path) \<and> rooted (Dir path)"
  by (simp add: store_file_def Dir_cleaned)

text \<open>What \<open>splitDigest\<close> makes of a digest that the writer computes itself.\<close>

lemma splitDigest_sha256: "splitDigest (''sha256:'' @ enc) = (''sha256'', enc)"
  using Cut_first [of "CHR '':''" "''sha256''" enc] by (simp add: splitDigest_def)

definition plain_digest :: "string \<Rightarrow> bool" where
  "plain_digest digest = (case splitDigest digest of (a, e) \<Rightarrow> plain a \<and> plain e)"

lemma BlobPath_file:
  assumes "cleaned dir" "rooted dir" "plain_digest digest"
  shows "store_file dir (BlobPath dir digest)"
    "comps (BlobPath dir digest) = comps dir @ [''content'', ''blobs'', fst (splitDigest digest), snd (splitDigest digest)]"
  using store_file_Join [of dir "[''content'', ''blobs'', fst (splitDigest digest), snd (splitDigest digest)]"] assms
  by (auto simp: BlobPath_def plain_digest_def plain_def split: prod.splits)

text \<open>Writing and publishing a draft.\<close>

lemma valid_write_draft:
  "valid (draft dir tmp i '''') (attempt (FWrite i bs))
     (\<lambda>r s. case r of Inl e \<Rightarrow> draft dir tmp i '''' s | Inr u \<Rightarrow> draft dir tmp i bs s) E"
  by (rule valid_attempt, rule valid_conseq [OF valid_draft_FWrite]) auto

text \<open>After the deferred removal of the temporary file, other files are still there.\<close>

definition published :: "string \<Rightarrow> string \<Rightarrow> os \<Rightarrow> bool" where
  "published dir path s = (store_ok dir s \<and> ent s (comps path) \<noteq> None)"

lemma stable_published [simp, intro]: "stable (published dir path)"
  using stable_store_ok [of dir] unfolding stable_def published_def by simp

lemma Remove_temp:
  assumes f: "store_file dir path" and t: "temp_of dir path tmp" and ne: "comps path \<noteq> comps tmp"
    and ok: "store_ok dir s" and r: "Remove tmp s = (r, s')"
  shows "store_ok dir s'" "ent s' (comps path) = ent s (comps path)" "inodes s' = inodes s"
proof -
  have tm: "cleaned tmp" "rooted tmp" using t by (simp_all add: temp_of_def)
  have "length (comps path) = length (comps tmp)"
  proof -
    have "comps path \<noteq> []" "comps tmp \<noteq> []" "length (butlast (comps path)) = length (butlast (comps tmp))"
      using f t by (auto simp: store_file_def temp_of_def)
    then show ?thesis by (cases "comps path" rule: rev_cases; cases "comps tmp" rule: rev_cases) auto
  qed
  then have np: "\<not> prefix (comps tmp) (comps path)" using ne by (auto simp: prefix_def)
  from r consider t where "s' = s\<lparr>tick := t\<rparr>" | q t where "resolve s False tmp = Inr q" "s' = del_tree q (s\<lparr>tick := t\<rparr>)"
    unfolding Remove_def sysop_def Let_def by (fastforce split: option.splits sum.splits if_splits)
  then have "ent s' (comps path) = ent s (comps path) \<and> inodes s' = inodes s"
    using resolve_store [OF ok tm temp_prefix [OF f t]] np by cases auto
  then show "ent s' (comps path) = ent s (comps path)" "inodes s' = inodes s" by auto
  show "store_ok dir s'" by (rule valid_both [OF valid_store_Remove ok r])
qed

text \<open>
  A condition on the file at \<open>path\<close> that holds when the body ends is not touched by the deferred
  removal of a temporary file with another name.
\<close>

lemma deferRemove_keeps:
  assumes f: "store_file dir path" "temp_of dir path tmp"
    and ne: "\<And>a s. Q a s \<Longrightarrow> comps path \<noteq> comps tmp"
    and Q: "\<And>a s s'. Q a s \<Longrightarrow> ent s' (comps path) = ent s (comps path) \<Longrightarrow> inodes s' = inodes s \<Longrightarrow> Q a s'"
    and v: "valid P m (\<lambda>a s. store_ok dir s \<and> Q a s) (store_ok dir)"
  shows "valid P (deferRemove tmp m) (\<lambda>a s. store_ok dir s \<and> Q a s) (store_ok dir)"
proof (rule validI)
  fix s a s' assume P: "P s" and d: "deferRemove tmp m s = (Inr a, s')"
  obtain s1 where m: "m s = (Inr a, s1)" and r: "Remove tmp s1 = (fst (Remove tmp s1), s')"
    using d by (auto simp: deferRemove_def split: prod.splits)
  have s1: "store_ok dir s1" "Q a s1" using valid_Inr [OF v P m] by auto
  then show "store_ok dir s' \<and> Q a s'" using Remove_temp [OF f ne [OF s1(2)] s1(1) r] Q by blast
next
  fix s e s' assume P: "P s" and d: "deferRemove tmp m s = (Inl e, s')"
  obtain s1 where m: "m s = (Inl e, s1)" and r: "Remove tmp s1 = (fst (Remove tmp s1), s')"
    using d by (auto simp: deferRemove_def split: prod.splits)
  show "store_ok dir s'" by (rule valid_both [OF valid_store_Remove valid_Inl [OF v P m] r])
qed

lemma valid_exists_published:
  assumes "store_file dir path"
  shows "valid (store_ok dir) (exists path) (\<lambda>e s. store_ok dir s \<and> (e \<longrightarrow> published dir path s)) E"
proof -
  have pa: "cleaned path" "rooted path" "prefix (comps dir) (comps path)"
    using assms by (auto simp: store_file_def strict_prefix_def intro: prefix_order.trans prefixeq_butlast)
  have "valid (store_ok dir) (attempt (Stat path)) (\<lambda>r s. store_ok dir s \<and> (\<forall>x. r = Inr x \<longrightarrow> published dir path s)) E"
    by (rule valid_attempt, rule valid_conseq [OF valid_Stat [OF stable_store_ok]])
      (use resolve_store [OF _ pa] in \<open>auto simp: published_def\<close>)
  then show ?thesis
    unfolding exists_def by (rule valid_andThen) (auto intro!: valid_ret split: sum.splits)
qed

lemma valid_fillBlob:
  assumes f: "store_file dir (BlobPath dir digest)" and t: "temp_of dir (BlobPath dir digest) tmp"
    and dir: "cleaned dir" "rooted dir" and d: "plain_digest digest"
  shows "valid (draft dir tmp i '''') (fillBlob (BlobPath dir digest) digest reader tmp i)
    (\<lambda>p s. p = BlobPath dir digest \<and> published dir p s \<and> comps p \<noteq> comps tmp) (store_ok dir)"
proof -
  let ?path = "BlobPath dir digest"
  have eq: "comps ?path \<noteq> comps tmp" "comps ?path = blobdir dir @ [enc] \<Longrightarrow> hex_EncodeToString (Sum256 (fst reader)) = enc"
    if "''sha256:'' @ hex_EncodeToString (Sum256 (fst reader)) = digest" for enc
  proof -
    have c: "comps ?path = blobdir dir @ [hex_EncodeToString (Sum256 (fst reader))]"
      using that BlobPath_file(2) [OF dir d] splitDigest_sha256 by (auto simp: blobdir_def)
    then show "comps ?path \<noteq> comps tmp" using t blobname_digest by (metis last_snoc temp_of_def)
    show "comps ?path = blobdir dir @ [enc] \<Longrightarrow> hex_EncodeToString (Sum256 (fst reader)) = enc" using c by simp
  qed
  have close: "valid (draft dir tmp i bs) (FClose i) (\<lambda>_. draft dir tmp i bs) (store_ok dir)" for bs
    by (rule valid_conseq [OF valid_FClose [OF stable_draft]]) (auto dest: draft_store_ok)
  have ren: "valid (draft dir tmp i (fst reader)) (Rename tmp ?path) (\<lambda>_. published dir ?path) (store_ok dir)"
    if "''sha256:'' @ hex_EncodeToString (Sum256 (fst reader)) = digest"
    by (rule valid_conseq [OF valid_draft_Rename [OF f t]])
      (use eq [OF that] draft_store_ok in \<open>auto simp: published_def\<close>)
  let ?post = "\<lambda>p s. p = ?path \<and> published dir p s \<and> comps p \<noteq> comps tmp"
  have pub: "valid (draft dir tmp i (fst reader)) (andThen (attempt (Rename tmp ?path)) (\<lambda>renamed.
       case renamed of Inr u \<Rightarrow> ret ?path
       | Inl err \<Rightarrow> andThen (exists ?path) (\<lambda>e. if e then ret ?path else throw (StoreOs err)))) ?post (store_ok dir)"
    if e: "''sha256:'' @ hex_EncodeToString (Sum256 (fst reader)) = digest"
  proof (rule valid_andThen [where Q = "\<lambda>r. case r of Inl e \<Rightarrow> store_ok dir | Inr u \<Rightarrow> published dir ?path"])
    show "valid (draft dir tmp i (fst reader)) (attempt (Rename tmp ?path))
      (\<lambda>r. case r of Inl e \<Rightarrow> store_ok dir | Inr u \<Rightarrow> published dir ?path) (store_ok dir)"
      by (rule valid_attempt) (simp add: ren [OF e])
  next
    fix rr :: "errno + unit"
    show "valid (case rr of Inl e \<Rightarrow> store_ok dir | Inr u \<Rightarrow> published dir ?path)
      (case rr of Inr u \<Rightarrow> ret ?path
       | Inl err \<Rightarrow> andThen (exists ?path) (\<lambda>e. if e then ret ?path else throw (StoreOs err))) ?post (store_ok dir)"
      by (cases rr) (auto intro!: valid_ret valid_throw valid_andThen [OF valid_exists_published [OF f]] eq(1) [OF e])
  qed
  have failed: "valid (store_ok dir) (andThen (attempt (FClose i)) (\<lambda>_. throw CopyFailed)) ?post (store_ok dir)"
    by (rule valid_andThen [OF valid_attempt_same [OF valid_FClose [OF stable_store_ok]] valid_throw])
  show ?thesis
    unfolding fillBlob_def Let_def
  proof (rule valid_andThen [OF valid_write_draft])
    fix r :: "errno + unit"
    show "valid (\<lambda>s. case r of Inl e \<Rightarrow> draft dir tmp i '''' s | Inr u \<Rightarrow> draft dir tmp i (fst reader) s)
      (if (case r of Inl e \<Rightarrow> True | Inr u \<Rightarrow> snd reader) then andThen (attempt (FClose i)) (\<lambda>_. throw CopyFailed)
       else andThen (wrap StoreOs (FClose i)) (\<lambda>_.
         if ''sha256:'' @ hex_EncodeToString (Sum256 (fst reader)) \<noteq> digest
         then throw (DigestMismatch (''sha256:'' @ hex_EncodeToString (Sum256 (fst reader))) digest)
         else andThen (attempt (Rename tmp ?path)) (\<lambda>renamed.
           case renamed of Inl err \<Rightarrow> andThen (exists ?path) (\<lambda>e. if e then ret ?path else throw (StoreOs err))
           | Inr u \<Rightarrow> ret ?path))) ?post (store_ok dir)"
    proof (cases r)
      case (Inl e)
      then show ?thesis by (auto intro: valid_pre [OF failed] dest: draft_store_ok)
    next
      case (Inr u)
      have "valid (draft dir tmp i (fst reader)) (andThen (attempt (FClose i)) (\<lambda>_. throw CopyFailed)) ?post (store_ok dir)"
        by (rule valid_pre [OF failed]) (rule draft_store_ok)
      moreover have "valid (draft dir tmp i (fst reader)) (throw x) ?post (store_ok dir)" for x
        by (rule valid_throw) (rule draft_store_ok)
      ultimately show ?thesis
        unfolding Inr sum.case by (intro valid_if valid_andThen [OF valid_wrap [OF close]] pub) simp_all
    qed
  qed
qed

lemma valid_WriteBlob:
  assumes dir: "cleaned dir" "rooted dir" and d: "plain_digest digest"
  shows "valid (store_ok dir) (WriteBlob dir digest reader)
    (\<lambda>p s. p = BlobPath dir digest \<and> published dir p s) (store_ok dir)"
proof -
  note f = BlobPath_file(1) [OF dir d]
  let ?Q = "\<lambda>tmp p s. p = BlobPath dir digest \<and> ent s (comps (BlobPath dir digest)) \<noteq> None \<and> comps (BlobPath dir digest) \<noteq> comps tmp"
  have body: "valid (draft dir tmp i '''') (fillBlob (BlobPath dir digest) digest reader tmp i)
      (\<lambda>p s. store_ok dir s \<and> ?Q tmp p s) (store_ok dir)" if "temp_of dir (BlobPath dir digest) tmp" for tmp i
    by (rule valid_conseq [OF valid_fillBlob [OF f that dir d]]) (auto simp: published_def)
  have keeps: "valid (draft dir tmp i '''') (deferRemove tmp (fillBlob (BlobPath dir digest) digest reader tmp i))
      (\<lambda>p s. store_ok dir s \<and> ?Q tmp p s) (store_ok dir)" if t: "temp_of dir (BlobPath dir digest) tmp" for tmp i
    by (rule deferRemove_keeps [OF f t _ _ body [OF t]]) auto
  have fill: "valid (\<lambda>s. temp_of dir (BlobPath dir digest) tmp \<and> draft dir tmp i '''' s)
      (deferRemove tmp (fillBlob (BlobPath dir digest) digest reader tmp i))
      (\<lambda>p s. p = BlobPath dir digest \<and> published dir p s) (store_ok dir)" for tmp i
  proof (cases "temp_of dir (BlobPath dir digest) tmp")
    case True
    then show ?thesis by (intro valid_conseq [OF keeps]) (auto simp: published_def)
  qed (simp add: valid_def)
  have temp: "valid (store_ok dir) (andThen (wrap StoreOs (CreateTemp (Dir (BlobPath dir digest)) ''.blob-'' ''.tmp''))
      (\<lambda>(tmp, i). deferRemove tmp (fillBlob (BlobPath dir digest) digest reader tmp i)))
      (\<lambda>p s. p = BlobPath dir digest \<and> published dir p s) (store_ok dir)"
    unfolding CreateTemp_def
    by (rule valid_andThen [OF valid_wrap [OF valid_store_CreateTemp_try [OF f blob_names]]])
      (use fill in auto)
  show ?thesis
    unfolding WriteBlob_def Let_def
    by (intro valid_andThen [OF valid_exists_published [OF f]] valid_if valid_ret
        valid_pre [OF valid_andThen [OF valid_wrap [OF valid_store_MkdirAll] temp]])
      (use store_file_Dir [OF f] in auto)
qed

text \<open>A JSON document of the store: its name is never that of a blob.\<close>

definition json_file :: "string \<Rightarrow> string \<Rightarrow> bool" where
  "json_file dir path = (store_file dir path \<and> suffix ''.json'' (last (comps path)))"

lemma json_not_blob: "suffix ''.json'' n \<Longrightarrow> \<not> blobname n"
  by (auto intro!: blobname_no_dot simp: suffix_def)

lemma json_not_tmp: "json_file dir path \<Longrightarrow> temp_of dir path tmp \<Longrightarrow> comps path \<noteq> comps tmp"
  unfolding json_file_def temp_of_def by (force simp: suffix_def)

text \<open>The file at \<open>path\<close> holds the text.\<close>

abbreviation holds_text :: "string \<Rightarrow> string option \<Rightarrow> os \<Rightarrow> bool" where
  "holds_text path v s \<equiv> \<exists>t. v = Some t \<and> file_at (comps path) (\<lambda>d. contents d = t) s"

lemma valid_fillJSON:
  assumes f: "json_file dir path" and t: "temp_of dir path tmp"
  shows "valid (draft dir tmp i '''') (fillJSON path v tmp i) (\<lambda>_ s. store_ok dir s \<and> holds_text path v s) (store_ok dir)"
proof -
  have close: "valid (draft dir tmp i bs) (FClose i) (\<lambda>_. draft dir tmp i bs) (store_ok dir)" for bs
    by (rule valid_conseq [OF valid_FClose [OF stable_draft]]) (auto dest: draft_store_ok)
  have failed: "valid (draft dir tmp i '''') (andThen (attempt (FClose i)) (\<lambda>_. throw x)) Q (store_ok dir)" for x Q
    by (rule valid_pre [OF valid_andThen [OF valid_attempt_same [OF valid_FClose [OF stable_store_ok]] valid_throw]])
      (auto dest: draft_store_ok)
  have ren: "valid (draft dir tmp i bs) (Rename tmp path) (\<lambda>_ s. store_ok dir s \<and> holds_text path (Some bs) s) (store_ok dir)" for bs
    by (rule valid_conseq [OF valid_draft_Rename [OF _ t]])
      (use f json_not_blob draft_store_ok in \<open>auto simp: json_file_def file_at_def\<close>)
  have "valid (\<lambda>s. case r of Inl e \<Rightarrow> draft dir tmp i '''' s | Inr u \<Rightarrow> draft dir tmp i bs s)
     (case r of Inl e \<Rightarrow> andThen (attempt (FClose i)) (\<lambda>_. throw (StoreOs e))
      | Inr u \<Rightarrow> andThen (wrap StoreOs (FClose i)) (\<lambda>_. wrap StoreOs (Rename tmp path)))
     (\<lambda>_ s. store_ok dir s \<and> holds_text path (Some bs) s) (store_ok dir)" for r :: "errno + unit" and bs
    using failed valid_andThen [OF valid_wrap [OF close] valid_wrap [OF ren]] by (cases r) simp_all
  then show ?thesis
    unfolding fillJSON_def by (cases v) (simp_all add: failed valid_andThen [OF valid_write_draft] del: split_paired_Ex)
qed

lemma valid_WriteJSON:
  assumes f: "json_file dir path"
  shows "valid (store_ok dir) (WriteJSON path v) (\<lambda>_ s. store_ok dir s \<and> holds_text path v s) (store_ok dir)"
proof -
  have sf: "store_file dir path" using f by (simp add: json_file_def)
  have keeps: "valid (draft dir tmp i '''') (deferRemove tmp (fillJSON path v tmp i))
      (\<lambda>_ s. store_ok dir s \<and> holds_text path v s) (store_ok dir)" if t: "temp_of dir path tmp" for tmp i
    by (rule deferRemove_keeps [OF sf t json_not_tmp [OF f t] _ valid_fillJSON [OF f t]]) (auto simp: file_at_def)
  have fill: "valid (\<lambda>s. temp_of dir path tmp \<and> draft dir tmp i '''' s) (deferRemove tmp (fillJSON path v tmp i))
      (\<lambda>_ s. store_ok dir s \<and> holds_text path v s) (store_ok dir)" for tmp i
    by (cases "temp_of dir path tmp") (simp_all add: keeps valid_def [of "\<lambda>s. False"])
  show ?thesis
    unfolding WriteJSON_def CreateTemp_def
    by (intro valid_andThen [OF valid_wrap [OF valid_store_MkdirAll]]
        valid_andThen [OF valid_wrap [OF valid_store_CreateTemp_try [OF sf json_names]]])
      (use store_file_Dir [OF sf] fill in auto)
qed

lemma json_file_Join:
  assumes "cleaned dir" "rooted dir" "list_all plain (as @ [b @ ''.json''])" "as \<noteq> []"
  shows "json_file dir (Join (dir # as @ [b @ ''.json'']))"
  using store_file_Join [OF assms(1-3)] assms(4) by (cases as) (auto simp: json_file_def suffix_def)

lemma plain_ext: "slash \<notin> set x \<Longrightarrow> slash \<notin> set e \<Longrightarrow> length e > 2 \<Longrightarrow> plain (x @ e)"
  unfolding plain_def by (auto dest: arg_cong [of _ _ length])

lemma EscapeRef_no_slash: "slash \<notin> set (EscapeRef ref)"
  by (auto simp: EscapeRef_def)

lemma RefPath_json: "cleaned dir \<Longrightarrow> rooted dir \<Longrightarrow> json_file dir (RefPath dir ref)"
  using json_file_Join [of dir "[''images'', ''refs'']" "EscapeRef ref"] plain_ext [OF EscapeRef_no_slash, of "''.json''" ref]
  by (simp add: RefPath_def plain_def)

lemma digest_json:
  assumes "cleaned dir" "rooted dir" "plain_digest digest"
  shows "json_file dir (ManifestPath dir digest)" "json_file dir (ConfigPath dir digest)"
    "json_file dir (RootfsMetadataPath dir digest)"
proof -
  obtain a e where d: "splitDigest digest = (a, e)" by fastforce
  have p: "plain (e @ ''.json'')" using assms(3) d by (intro plain_ext) (auto simp: plain_digest_def)
  show "json_file dir (ManifestPath dir digest)" "json_file dir (ConfigPath dir digest)"
    "json_file dir (RootfsMetadataPath dir digest)"
    using json_file_Join [OF assms(1,2), of "[''images'', ''manifests'', ''sha256'']" e]
      json_file_Join [OF assms(1,2), of "[''images'', ''configs'', ''sha256'']" e]
      json_file_Join [OF assms(1,2), of "[''rootfs'', ''complete'']" e] p
    by (simp_all add: ManifestPath_def ConfigPath_def RootfsMetadataPath_def d plain_def)
qed

lemma ReadFile_store:
  assumes "store_ok dir s" "store_file dir path" "ReadFile path s = (Inr bs, s')"
  shows "file_at (comps path) (\<lambda>d. contents d = bs) s"
proof -
  have pa: "cleaned path" "rooted path" "prefix (comps dir) (comps path)"
    using assms(2) by (auto simp: store_file_def strict_prefix_def intro: prefix_order.trans prefixeq_butlast)
  obtain q i d where "resolve s True path = Inr q" "ent s q = Some (RegE i)" "inodes s i = Some d" "contents d = bs"
    using assms(3) unfolding ReadFile_def sysop_def Let_def
    by (auto split: option.splits sum.splits entry.splits)
  then show ?thesis using resolve_store [OF assms(1) pa, of True q] unfolding file_at_def by blast
qed

lemma ReadFile_file:
  "resolve s True p = Inr q \<Longrightarrow> ent s q = Some (RegE i) \<Longrightarrow> inodes s i = Some d \<Longrightarrow> fault s (tick s) = None \<Longrightarrow>
   ReadFile p s = (Inr (contents d), s\<lparr>tick := Suc (tick s)\<rparr>)"
  by (simp add: ReadFile_def sysop_def Let_def)

section \<open>Properties\<close>

text \<open>
  C5.  Storing a blob never breaks the store, whatever call fails and whatever the reader delivers:
  every file of \<open>content/blobs/sha256\<close> named by a digest still has that digest.  When
  \<open>WriteBlob\<close> succeeds, it returns the path of the digest and something is stored there.
\<close>

theorem WriteBlob_keeps_store:
  assumes "cleaned dir" "rooted dir" "plain_digest digest" "store_ok dir s"
    and "WriteBlob dir digest reader s = (r, s')"
  shows "store_ok dir s' \<and> (\<forall>p. r = Inr p \<longrightarrow> p = BlobPath dir digest \<and> ent s' (comps p) \<noteq> None)"
proof (cases r)
  case (Inl e)
  then show ?thesis using valid_Inl [OF valid_WriteBlob [OF assms(1-3)] assms(4)] assms(5) by auto
next
  case (Inr p)
  then have "p = BlobPath dir digest \<and> published dir p s'"
    using valid_Inr [OF valid_WriteBlob [OF assms(1-3)] assms(4)] assms(5) by blast
  then show ?thesis using Inr by (auto simp: published_def)
qed

definition empty_os :: os where
  "empty_os = \<lparr>ents = [([], DirE \<lparr>perm = 493, owner = 0, grp = 0\<rparr>)], inodes = (\<lambda>_. None), next_ino = 0,
     cwd = [], umask = 18, ruid = 0, rgid = 0, euid = 0, now = 0, rand = (\<lambda>n. n), tick = 0, fault = (\<lambda>_. None)\<rparr>"

lemma empty_os_ent: "ent empty_os p = (if p = [] then Some (DirE \<lparr>perm = 493, owner = 0, grp = 0\<rparr>) else None)"
  by (simp add: ent_def empty_os_def)

lemma empty_os_ok: "store_ok dir empty_os"
  by (auto simp: store_ok_def tree_def bounded_def nolinks_iff linkfree_def blobs_ok_def empty_os_ent)

lemma demo_dir: "cleaned ''/var/s'' \<and> rooted ''/var/s''"
  by (simp add: cleaned_def) code_simp

theorem WriteBlob_keeps_store_witness:
  "store_ok ''/var/s'' (snd (WriteBlob ''/var/s'' (''sha256:'' @ hex_EncodeToString (Sum256 ''abc'')) (''abc'', False) empty_os))"
proof -
  have "plain_digest (''sha256:'' @ hex_EncodeToString (Sum256 ''abc''))"
    unfolding plain_digest_def splitDigest_sha256 using blobname_plain [OF blobname_digest] by (simp add: plain_def)
  then show ?thesis
    using WriteBlob_keeps_store [of "''/var/s''" _ empty_os "(''abc'', False)"] demo_dir empty_os_ok
    by (metis prod.collapse)
qed

text \<open>
  Reading back: in a good store, whatever file a \<open>sha256\<close> digest leads to, the bytes read
  from it have that digest, however long ago it was written.
\<close>

theorem stored_blob_verified:
  assumes "cleaned dir" "rooted dir" "store_ok dir s" "blobname enc"
    and "ReadFile (BlobPath dir (''sha256:'' @ enc)) s = (Inr bs, s')"
  shows "''sha256:'' @ hex_EncodeToString (Sum256 bs) = ''sha256:'' @ enc"
proof -
  have d: "plain_digest (''sha256:'' @ enc)"
    unfolding plain_digest_def splitDigest_sha256 using blobname_plain [OF assms(4)] by (simp add: plain_def)
  note p = BlobPath_file [OF assms(1,2) d]
  have "file_at (comps (BlobPath dir (''sha256:'' @ enc))) (\<lambda>d. contents d = bs) s"
    by (rule ReadFile_store [OF assms(3) p(1) assms(5)])
  then have "\<exists>i d. ent s (blobdir dir @ [enc]) = Some (RegE i) \<and> inodes s i = Some d \<and> contents d = bs"
    unfolding file_at_def p(2) splitDigest_sha256 by (simp add: blobdir_def)
  then show ?thesis using store_okD(5) [OF assms(3)] assms(4) by (auto simp: blobs_ok_def)
qed

text \<open>A system with one file, in directories of its own.\<close>

definition one_file :: "string list \<Rightarrow> string \<Rightarrow> string \<Rightarrow> os" where
  "one_file ds n bs = empty_os\<lparr>ents := map (\<lambda>k. (take k ds, DirE \<lparr>perm = 493, owner = 0, grp = 0\<rparr>)) [0 ..< Suc (length ds)] @
       [(ds @ [n], RegE 0)],
     inodes := [0 \<mapsto> \<lparr>contents = bs, iattr = \<lparr>perm = 420, owner = 0, grp = 0\<rparr>, mtime = 0\<rparr>], next_ino := 1\<rparr>"

lemma map_of_const: "map_of (map (\<lambda>k. (f k, d)) xs) p = (if p \<in> f ` set xs then Some d else None)"
  by (induction xs) auto

lemma prefix_take: "prefix p ds \<longleftrightarrow> p \<in> (\<lambda>k. take k ds) ` {0 ..< Suc (length ds)}"
proof
  assume p: "prefix p ds"
  then have "p = take (length p) ds" "length p < Suc (length ds)" by (auto simp: prefix_def)
  then show "p \<in> (\<lambda>k. take k ds) ` {0 ..< Suc (length ds)}" by (intro image_eqI [of _ _ "length p"]) auto
qed (auto simp: take_is_prefix)

lemma one_file_ent:
  "ent (one_file ds n bs) p =
    (if prefix p ds then Some (DirE \<lparr>perm = 493, owner = 0, grp = 0\<rparr>) else if p = ds @ [n] then Some (RegE 0) else None)"
  using map_of_const [of "\<lambda>k. take k ds" "DirE \<lparr>perm = 493, owner = 0, grp = 0\<rparr>" "[0 ..< Suc (length ds)]" p]
  by (auto simp: ent_def one_file_def map_add_def prefix_take simp del: upt_Suc split: option.splits)

lemma one_file_fields [simp]:
  "inodes (one_file ds n bs) = [0 \<mapsto> \<lparr>contents = bs, iattr = \<lparr>perm = 420, owner = 0, grp = 0\<rparr>, mtime = 0\<rparr>]"
  "next_ino (one_file ds n bs) = 1" "tick (one_file ds n bs) = 0" "fault (one_file ds n bs) = (\<lambda>_. None)"
  by (simp_all add: one_file_def empty_os_def)

lemma one_file_ok:
  assumes "\<And>enc. ds @ [n] = blobdir dir @ [enc] \<Longrightarrow> blobname enc \<Longrightarrow> hex_EncodeToString (Sum256 bs) = enc"
  shows "store_ok dir (one_file ds n bs)"
proof -
  have "tree (one_file ds n bs)"
    by (auto simp: tree_def one_file_ent dest: append_prefixD split: if_splits)
  moreover have "bounded (one_file ds n bs)" by (auto simp: bounded_def one_file_ent split: if_splits)
  moreover have "linkfree (comps dir) (one_file ds n bs)" "nolinks (ent (one_file ds n bs)) (comps dir)"
    by (auto simp: linkfree_def nolinks_iff one_file_ent split: if_splits)
  moreover have "blobs_ok dir (one_file ds n bs)"
    using assms by (auto simp: blobs_ok_def one_file_ent split: if_splits)
  ultimately show ?thesis by (simp add: store_ok_def)
qed

lemma one_file_resolve:
  assumes "cleaned p" "rooted p" "comps p = ds @ [n]"
  shows "resolve (one_file ds n bs) f p = Inr (ds @ [n])"
  using resolve_real [OF assms(1,2), of "one_file ds n bs" f] by (auto simp: assms(3) real_dir_iff one_file_ent)

definition abc :: string where
  "abc = hex_EncodeToString (Sum256 ''abc'')"

lemma demo_comps: "comps ''/var/s'' = [''var'', ''s'']"
  by code_simp

theorem stored_blob_verified_witness:
  "fst (ReadFile (BlobPath ''/var/s'' (''sha256:'' @ abc)) (one_file (blobdir ''/var/s'') abc ''abc'')) = Inr ''abc'' \<and>
   ''sha256:'' @ hex_EncodeToString (Sum256 ''abc'') = ''sha256:'' @ abc"
proof -
  let ?p = "BlobPath ''/var/s'' (''sha256:'' @ abc)" and ?s = "one_file (blobdir ''/var/s'') abc ''abc''"
  have b: "blobname abc" by (simp add: abc_def blobname_digest)
  have d: "plain_digest (''sha256:'' @ abc)"
    unfolding plain_digest_def splitDigest_sha256 using blobname_plain [OF b] by (simp add: plain_def)
  have dir: "cleaned ''/var/s''" "rooted ''/var/s''" using demo_dir by auto
  note p = BlobPath_file [OF dir d]
  have c: "comps ?p = blobdir ''/var/s'' @ [abc]" using p(2) unfolding splitDigest_sha256 blobdir_def by simp
  have "cleaned ?p" "rooted ?p" using p(1) by (simp_all add: store_file_def)
  note rs = one_file_resolve [OF this c, where bs = "''abc''" and f = True]
  have rd: "ReadFile ?p ?s = (Inr ''abc'', ?s\<lparr>tick := Suc (tick ?s)\<rparr>)"
    using ReadFile_file [OF rs, where i = 0] by (simp add: one_file_ent del: append_Cons append_Nil)
  have "store_ok ''/var/s'' ?s" by (rule one_file_ok) (simp add: abc_def)
  from stored_blob_verified [OF dir this b rd] rd show ?thesis by simp
qed

text \<open>
  C28.  A document that \<open>WriteJSON\<close> has stored for a manifest, a configuration, a reference or a root
  file system reads back as the text that was encoded, and the blobs of the store stay good.
\<close>

theorem WriteJSON_ReadJSON:
  assumes "cleaned dir" "rooted dir" "plain_digest digest" "store_ok dir s"
    and "path \<in> {ManifestPath dir digest, ConfigPath dir digest, RootfsMetadataPath dir digest, RefPath dir ref}"
    and "WriteJSON path v s = (r, s')"
  shows "store_ok dir s' \<and> (r = Inr () \<longrightarrow> (\<exists>t. v = Some t \<and>
    (\<forall>decode x s''. ReadJSON decode path s' = (Inr x, s'') \<longrightarrow> decode t = Some x)))"
proof -
  have f: "json_file dir path" using assms(5) digest_json [OF assms(1-3)] RefPath_json [OF assms(1,2)] by auto
  note v = valid_WriteJSON [OF f, of v]
  show ?thesis
  proof (cases r)
    case (Inl e)
    then show ?thesis using valid_Inl [OF v assms(4)] assms(6) by simp
  next
    case (Inr u)
    then have ok: "store_ok dir s'" and "holds_text path v s'" using valid_Inr [OF v assms(4)] assms(6) by auto
    then obtain t where t: "v = Some t" "file_at (comps path) (\<lambda>d. contents d = t) s'" by blast
    have "decode t = Some x" if rj: "ReadJSON decode path s' = (Inr x, s'')" for decode x s''
    proof -
      obtain bs s1 where bs: "ReadFile path s' = (Inr bs, s1)" "decode bs = Some x"
        using rj unfolding ReadJSON_def andThen_def wrap_def throw_def ret_def
        by (cases "ReadFile path s'"; cases "fst (ReadFile path s')") (auto split: option.splits)
      have "file_at (comps path) (\<lambda>d. contents d = bs) s'"
        by (rule ReadFile_store [OF ok _ bs(1)]) (use f in \<open>simp add: json_file_def\<close>)
      then show ?thesis using t(2) bs(2) by (auto simp: file_at_def)
    qed
    then show ?thesis using ok t by blast
  qed
qed

theorem WriteJSON_ReadJSON_witness:
  "fst (WriteJSON (RefPath ''/var/s'' ''alpine:3'') (Some ''{}'') empty_os) = Inr () \<and>
   (let s' = snd (WriteJSON (RefPath ''/var/s'' ''alpine:3'') (Some ''{}'') empty_os)
    in fst (ReadJSON (\<lambda>t. Some (length t)) (RefPath ''/var/s'' ''alpine:3'') s') = Inr 2 \<and> store_ok ''/var/s'' s')"
proof -
  let ?p = "RefPath ''/var/s'' ''alpine:3''"
  let ?w = "WriteJSON ?p (Some ''{}'') empty_os"
  have w: "fst ?w = Inr ()" by code_simp
  have rd: "fst (ReadJSON (\<lambda>t. Some (length t)) ?p (snd ?w)) = Inr 2" by code_simp
  have d: "plain_digest ''sha256:0''" by code_simp
  have dir: "cleaned ''/var/s''" "rooted ''/var/s''" using demo_dir by auto
  have p: "?p \<in> {ManifestPath ''/var/s'' ''sha256:0'', ConfigPath ''/var/s'' ''sha256:0'',
      RootfsMetadataPath ''/var/s'' ''sha256:0'', ?p}" by blast
  have "store_ok ''/var/s'' (snd ?w)"
    by (rule conjunct1 [OF WriteJSON_ReadJSON [OF dir d empty_os_ok p prod.collapse [symmetric]]])
  then show ?thesis using w rd by (simp add: Let_def)
qed

end
