(* ===== verification/OciPull.thy ===== *)
theory OciPull
  imports StoreSafety
begin

text \<open>
  Pulling an image (\<open>internal/oci/pull.go\<close>, \<open>internal/oci/types.go\<close>): what the registry client
  delivers goes into the content store, blob by blob, and the reference is written last.  The
  registry client (\<open>go-containerregistry\<close>) is a parameter: what its calls return, \<open>None\<close> for an
  error.  The JSON encoders and the decoder of the image configuration are parameters too.
\<close>

section \<open>Types\<close>

record RuntimeConfig =
  rc_User :: string
  rc_Env :: "string list"
  rc_Entrypoint :: "string list"
  rc_Cmd :: "string list"
  rc_WorkingDir :: string
  rc_StopSignal :: string

record RootFS =
  rf_Type :: string
  rf_DiffIDs :: "string list"

record ImageConfig =
  ic_Architecture :: string
  ic_OS :: string
  ic_Config :: RuntimeConfig
  ic_RootFS :: RootFS

record Layer =
  l_Digest :: string
  l_DiffID :: string
  l_MediaType :: string
  l_CompressedBlobPath :: string
  l_Size :: int

record PulledImage =
  pi_Ref :: string
  pi_ManifestDigest :: string
  pi_ConfigDigest :: string
  pi_Config :: ImageConfig
  pi_Layers :: "Layer list"
  pi_Platform :: Platform

text \<open>The registry client's view of a layer and of an image.\<close>

record registry_layer =
  rl_Digest :: "string option"
  rl_MediaType :: "string option"
  rl_Size :: "int option"
  rl_Compressed :: "blob_reader option"

record registry_image =
  ri_RawManifest :: "string option"
  ri_Digest :: "string option"
  ri_RawConfigFile :: "string option"
  ri_ConfigName :: "string option"
  ri_Layers :: "registry_layer list option"

record 'ref registry =
  ParseReference :: "string \<Rightarrow> 'ref option"
  remote_Image :: "'ref \<Rightarrow> Platform \<Rightarrow> registry_image option"

record json_codec =
  enc_Raw :: "string \<Rightarrow> string option"
  enc_Ref :: "RefMetadata \<Rightarrow> string option"
  dec_Ref :: "string \<Rightarrow> RefMetadata option"
  dec_Image :: "string \<Rightarrow> ImageConfig option"

datatype pull_error =
    PullStore store_error
  | BadReference
  | RegistryError
  | ConfigDecode
  | LayerCount nat nat

section \<open>Pull\<close>

definition orFail :: "'e \<Rightarrow> 'a option \<Rightarrow> ('e, 'a) io" where
  "orFail e r = (case r of None \<Rightarrow> throw e | Some a \<Rightarrow> ret a)"

text \<open>The loop over the layers; \<open>config.RootFS.DiffIDs[i]\<close> is in range by the length check.\<close>

fun pullLayers :: "string \<Rightarrow> registry_layer list \<Rightarrow> string list \<Rightarrow> (pull_error, Layer list) io" where
  "pullLayers Dir0 [] ds = ret []"
| "pullLayers Dir0 (layer # layers) ds =
     andThen (orFail RegistryError (rl_Digest layer)) (\<lambda>digest.
     andThen (orFail RegistryError (rl_MediaType layer)) (\<lambda>mediaType.
     andThen (orFail RegistryError (rl_Size layer)) (\<lambda>size.
     andThen (orFail RegistryError (rl_Compressed layer)) (\<lambda>compressed.
     andThen (wrap PullStore (WriteBlob Dir0 digest compressed)) (\<lambda>path.
     andThen (pullLayers Dir0 layers (tl ds)) (\<lambda>rest.
       ret (\<lparr>l_Digest = digest, l_DiffID = hd ds, l_MediaType = mediaType,
             l_CompressedBlobPath = path, l_Size = size\<rparr> # rest)))))))"

definition pullManifest :: "json_codec \<Rightarrow> string \<Rightarrow> registry_image \<Rightarrow> (pull_error, string) io" where
  "pullManifest json Dir0 img =
     andThen (orFail RegistryError (ri_RawManifest img)) (\<lambda>manifest.
     andThen (orFail RegistryError (ri_Digest img)) (\<lambda>manifestDigest.
     andThen (wrap PullStore (WriteBlob Dir0 manifestDigest (manifest, False))) (\<lambda>_.
     andThen (wrap PullStore (WriteJSON (ManifestPath Dir0 manifestDigest) (enc_Raw json manifest))) (\<lambda>_.
     ret manifestDigest))))"

definition pullConfig :: "json_codec \<Rightarrow> string \<Rightarrow> registry_image \<Rightarrow> (pull_error, string \<times> ImageConfig) io" where
  "pullConfig json Dir0 img =
     andThen (orFail RegistryError (ri_RawConfigFile img)) (\<lambda>configBytes.
     andThen (orFail RegistryError (ri_ConfigName img)) (\<lambda>configDigest.
     andThen (wrap PullStore (WriteBlob Dir0 configDigest (configBytes, False))) (\<lambda>_.
     andThen (wrap PullStore (WriteJSON (ConfigPath Dir0 configDigest) (enc_Raw json configBytes))) (\<lambda>_.
     andThen (orFail ConfigDecode (dec_Image json configBytes)) (\<lambda>config.
     ret (configDigest, config))))))"

definition pullRest :: "json_codec \<Rightarrow> string \<Rightarrow> string \<Rightarrow> Platform \<Rightarrow> registry_image \<Rightarrow> string \<Rightarrow> string \<Rightarrow> ImageConfig
    \<Rightarrow> (pull_error, PulledImage) io" where
  "pullRest json Dir0 ref platform img manifestDigest configDigest config =
     andThen (orFail RegistryError (ri_Layers img)) (\<lambda>layers.
       let ids = rf_DiffIDs (ic_RootFS config) in
       if length layers \<noteq> length ids then throw (LayerCount (length layers) (length ids))
       else
         andThen (pullLayers Dir0 layers ids) (\<lambda>pulledLayers.
         andThen (reads now) (\<lambda>t.
         andThen (wrap PullStore (WriteJSON (RefPath Dir0 ref) (enc_Ref json
             \<lparr>rm_ImageRef = ref, rm_ManifestDigest = manifestDigest, rm_Platform = platform, rm_UpdatedAt = t\<rparr>)))
           (\<lambda>_. ret \<lparr>pi_Ref = ref, pi_ManifestDigest = manifestDigest, pi_ConfigDigest = configDigest,
                     pi_Config = config, pi_Layers = pulledLayers, pi_Platform = platform\<rparr>))))"

definition Pull :: "'ref registry \<Rightarrow> json_codec \<Rightarrow> string \<Rightarrow> string \<Rightarrow> Platform \<Rightarrow> (pull_error, PulledImage) io" where
  "Pull reg json Dir0 ref platform =
     andThen (orFail BadReference (ParseReference reg ref)) (\<lambda>parsed.
     andThen (orFail RegistryError (remote_Image reg parsed platform)) (\<lambda>img.
     andThen (pullManifest json Dir0 img) (\<lambda>manifestDigest.
     andThen (pullConfig json Dir0 img) (\<lambda>(configDigest, config).
     pullRest json Dir0 ref platform img manifestDigest configDigest config))))"

section \<open>Every pull keeps the store\<close>

text \<open>
  Digests that the client delivers have plain parts: \<open>v1.Hash\<close> prints an algorithm name and
  hexadecimal digits.
\<close>

definition wf_layer :: "registry_layer \<Rightarrow> bool" where
  "wf_layer l = pred_option plain_digest (rl_Digest l)"

definition wf_image :: "registry_image \<Rightarrow> bool" where
  "wf_image img = (pred_option plain_digest (ri_Digest img) \<and> pred_option plain_digest (ri_ConfigName img) \<and>
     pred_option (list_all wf_layer) (ri_Layers img))"

lemma andThen_throw: "andThen (throw e) k = throw e"
  by (simp add: fun_eq_iff andThen_def throw_def)

text \<open>A fact about the value carries over to the rest of the program.\<close>

lemma valid_orFail_then:
  "(\<And>a. r = Some a \<Longrightarrow> valid P (k a) Q P) \<Longrightarrow> valid P (andThen (orFail e r) k) Q P"
  unfolding orFail_def by (cases r) (auto simp: andThen_ret andThen_throw intro: valid_throw)

text \<open>What a pulled layer says of the registry's layer and of its diff ID.\<close>

definition pulled_from :: "string \<Rightarrow> registry_layer \<Rightarrow> string \<Rightarrow> Layer \<Rightarrow> bool" where
  "pulled_from dir rl d l = (rl_Digest rl = Some (l_Digest l) \<and> l_DiffID l = d \<and>
     rl_MediaType rl = Some (l_MediaType l) \<and> rl_Size rl = Some (l_Size l) \<and>
     l_CompressedBlobPath l = BlobPath dir (l_Digest l))"

fun layers_match :: "string \<Rightarrow> registry_layer list \<Rightarrow> string list \<Rightarrow> Layer list \<Rightarrow> bool" where
  "layers_match dir [] [] [] = True"
| "layers_match dir (r # rs) (d # ds) (l # ls) = (pulled_from dir r d l \<and> layers_match dir rs ds ls)"
| "layers_match dir _ _ _ = False"

lemma layers_match_maps:
  "layers_match dir rs ds ls \<Longrightarrow> map l_DiffID ls = ds \<and> map (Some \<circ> l_Digest) ls = map rl_Digest rs \<and>
     list_all (\<lambda>l. l_CompressedBlobPath l = BlobPath dir (l_Digest l)) ls"
  by (induction dir rs ds ls rule: layers_match.induct) (auto simp: pulled_from_def)

lemma valid_pullLayers:
  assumes dir: "cleaned dir" "rooted dir"
  shows "list_all wf_layer rs \<Longrightarrow> length rs = length ds \<Longrightarrow>
   valid (store_ok dir) (pullLayers dir rs ds) (\<lambda>ls s. store_ok dir s \<and> layers_match dir rs ds ls) (store_ok dir)"
proof (induction rs arbitrary: ds)
  case Nil
  then show ?case by (simp add: valid_ret)
next
  case (Cons r rs)
  obtain d ds' where ds: "ds = d # ds'" using Cons.prems(2) by (cases ds) auto
  have IH: "valid (store_ok dir) (pullLayers dir rs ds') (\<lambda>ls s. store_ok dir s \<and> layers_match dir rs ds' ls) (store_ok dir)"
    using Cons.prems ds by (intro Cons.IH) auto
  have blob: "valid (store_ok dir) (wrap PullStore (WriteBlob dir g c)) (\<lambda>p s. store_ok dir s \<and> p = BlobPath dir g) (store_ok dir)"
    if "rl_Digest r = Some g" for g c
    using Cons.prems(1) that
    by (intro valid_wrap valid_conseq [OF valid_WriteBlob [OF dir]]) (auto simp: wf_layer_def published_def)
  have rest: "valid (store_ok dir) (andThen (wrap PullStore (WriteBlob dir g c)) (\<lambda>p. andThen (pullLayers dir rs ds') (\<lambda>rest.
       ret (\<lparr>l_Digest = g, l_DiffID = d, l_MediaType = t, l_CompressedBlobPath = p, l_Size = z\<rparr> # rest))))
      (\<lambda>ls s. store_ok dir s \<and> layers_match dir (r # rs) (d # ds') ls) (store_ok dir)"
    if "rl_Digest r = Some g" "rl_MediaType r = Some t" "rl_Size r = Some z" for g t z c
  proof (rule valid_andThen [OF blob [OF that(1)]])
    fix p
    show "valid (\<lambda>s. store_ok dir s \<and> p = BlobPath dir g) (andThen (pullLayers dir rs ds') (\<lambda>rest.
       ret (\<lparr>l_Digest = g, l_DiffID = d, l_MediaType = t, l_CompressedBlobPath = p, l_Size = z\<rparr> # rest)))
      (\<lambda>ls s. store_ok dir s \<and> layers_match dir (r # rs) (d # ds') ls) (store_ok dir)"
    proof (cases "p = BlobPath dir g")
      case True
      then show ?thesis
        using that by (intro valid_pre [OF valid_andThen [OF IH]] valid_ret) (auto simp: pulled_from_def)
    qed (simp add: valid_def)
  qed
  show ?case unfolding ds pullLayers.simps list.sel by (intro valid_orFail_then rest)
qed

lemma valid_WriteBlob_store:
  assumes "cleaned dir" "rooted dir" "plain_digest digest"
  shows "valid (store_ok dir) (WriteBlob dir digest reader) (\<lambda>_. store_ok dir) (store_ok dir)"
  by (rule valid_conseq [OF valid_WriteBlob [OF assms]]) (auto simp: published_def)

lemma valid_WriteJSON_store:
  "json_file dir path \<Longrightarrow> valid (store_ok dir) (WriteJSON path v) (\<lambda>_. store_ok dir) (store_ok dir)"
  by (rule valid_conseq [OF valid_WriteJSON]) auto

lemma valid_pullManifest:
  assumes dir: "cleaned dir" "rooted dir" and img: "wf_image img"
  shows "valid (store_ok dir) (pullManifest json dir img)
    (\<lambda>g s. store_ok dir s \<and> ri_Digest img = Some g) (store_ok dir)"
proof -
  have "plain_digest g" if "ri_Digest img = Some g" for g using img that by (simp add: wf_image_def)
  then show ?thesis
    unfolding pullManifest_def
    by (intro valid_orFail_then valid_andThen [OF valid_wrap [OF valid_WriteBlob_store [OF dir]]]
        valid_andThen [OF valid_wrap [OF valid_WriteJSON_store]] valid_ret)
      (auto intro: digest_json [OF dir])
qed

lemma valid_pullConfig:
  assumes dir: "cleaned dir" "rooted dir" and img: "wf_image img"
  shows "valid (store_ok dir) (pullConfig json dir img)
    (\<lambda>(g, c) s. store_ok dir s \<and> ri_ConfigName img = Some g \<and>
       (\<exists>b. ri_RawConfigFile img = Some b \<and> dec_Image json b = Some c)) (store_ok dir)"
proof -
  have "plain_digest g" if "ri_ConfigName img = Some g" for g using img that by (simp add: wf_image_def)
  then show ?thesis
    unfolding pullConfig_def
    by (intro valid_orFail_then valid_andThen [OF valid_wrap [OF valid_WriteBlob_store [OF dir]]]
        valid_andThen [OF valid_wrap [OF valid_WriteJSON_store]] valid_ret)
      (auto intro: digest_json [OF dir])
qed


text \<open>What a pulled image says of the registry's image.\<close>

definition pulled_image :: "json_codec \<Rightarrow> string \<Rightarrow> registry_image \<Rightarrow> PulledImage \<Rightarrow> bool" where
  "pulled_image json dir img im =
     (ri_Digest img = Some (pi_ManifestDigest im) \<and> ri_ConfigName img = Some (pi_ConfigDigest im) \<and>
      (\<exists>b rs. ri_RawConfigFile img = Some b \<and> dec_Image json b = Some (pi_Config im) \<and> ri_Layers img = Some rs \<and>
         layers_match dir rs (rf_DiffIDs (ic_RootFS (pi_Config im))) (pi_Layers im)))"

lemma valid_pure:
  "(A \<Longrightarrow> valid P m Q E) \<Longrightarrow> valid (\<lambda>s. P s \<and> A) m Q E"
  by (cases A) (simp_all add: valid_def)

lemma valid_pullRest:
  assumes dir: "cleaned dir" "rooted dir" and wf: "wf_image img"
  shows "valid (store_ok dir) (pullRest json dir ref platform img md cd config)
    (\<lambda>im s. store_ok dir s \<and> (\<exists>rs ls. ri_Layers img = Some rs \<and>
       layers_match dir rs (rf_DiffIDs (ic_RootFS config)) ls \<and>
       im = \<lparr>pi_Ref = ref, pi_ManifestDigest = md, pi_ConfigDigest = cd, pi_Config = config,
             pi_Layers = ls, pi_Platform = platform\<rparr>)) (store_ok dir)"
  unfolding pullRest_def Let_def
proof (intro valid_orFail_then valid_if valid_throw)
  fix rs assume rs: "ri_Layers img = Some rs" and "\<not> length rs \<noteq> length (rf_DiffIDs (ic_RootFS config))"
  then have "valid (store_ok dir) (pullLayers dir rs (rf_DiffIDs (ic_RootFS config)))
      (\<lambda>ls s. store_ok dir s \<and> layers_match dir rs (rf_DiffIDs (ic_RootFS config)) ls) (store_ok dir)"
    using wf by (intro valid_pullLayers [OF dir]) (auto simp: wf_image_def)
  then show "valid (store_ok dir) (andThen (pullLayers dir rs (rf_DiffIDs (ic_RootFS config))) (\<lambda>ls.
      andThen (reads now) (\<lambda>t. andThen (wrap PullStore (WriteJSON (RefPath dir ref) (enc_Ref json
             \<lparr>rm_ImageRef = ref, rm_ManifestDigest = md, rm_Platform = platform, rm_UpdatedAt = t\<rparr>)))
           (\<lambda>_. ret \<lparr>pi_Ref = ref, pi_ManifestDigest = md, pi_ConfigDigest = cd,
                     pi_Config = config, pi_Layers = ls, pi_Platform = platform\<rparr>))))
    (\<lambda>im s. store_ok dir s \<and> (\<exists>rs ls. ri_Layers img = Some rs \<and>
       layers_match dir rs (rf_DiffIDs (ic_RootFS config)) ls \<and>
       im = \<lparr>pi_Ref = ref, pi_ManifestDigest = md, pi_ConfigDigest = cd, pi_Config = config,
             pi_Layers = ls, pi_Platform = platform\<rparr>)) (store_ok dir)"
    by (rule valid_andThen, intro valid_pure valid_andThen [OF valid_reads [where Q = "\<lambda>_. store_ok dir"]]
        valid_andThen [OF valid_wrap [OF valid_WriteJSON_store [OF RefPath_json [OF dir]]]] valid_ret)
      (use rs in auto)
qed

text \<open>
  Whatever fails, a pull keeps the store good.  A pull that succeeds describes the image the
  registry named: its manifest and configuration digests, and one layer per diff ID of the
  configuration, in order, each stored under its own digest.
\<close>

theorem Pull_keeps_store:
  assumes dir: "cleaned dir" "rooted dir"
    and reg: "\<And>x img. remote_Image reg x platform = Some img \<Longrightarrow> wf_image img"
  shows "valid (store_ok dir) (Pull reg json dir ref platform)
    (\<lambda>im s. store_ok dir s \<and> pi_Ref im = ref \<and> pi_Platform im = platform \<and>
      (\<exists>x img. ParseReference reg ref = Some x \<and> remote_Image reg x platform = Some img \<and> pulled_image json dir img im))
    (store_ok dir)"
  unfolding Pull_def
proof (intro valid_orFail_then)
  fix x img assume x: "ParseReference reg ref = Some x" and img: "remote_Image reg x platform = Some img"
  note wf = reg [OF img]
  have rest: "valid (store_ok dir) (pullRest json dir ref platform img md cd config)
     (\<lambda>im s. store_ok dir s \<and> pi_Ref im = ref \<and> pi_Platform im = platform \<and>
      (\<exists>x img. ParseReference reg ref = Some x \<and> remote_Image reg x platform = Some img \<and> pulled_image json dir img im))
     (store_ok dir)"
    if "ri_Digest img = Some md" "ri_ConfigName img = Some cd"
      "ri_RawConfigFile img = Some b" "dec_Image json b = Some config" for md cd config b
    by (rule valid_conseq [OF valid_pullRest [OF dir wf]])
      (use that x img in \<open>auto simp: pulled_image_def intro!: exI [of _ x] exI [of _ img]\<close>)
  let ?Q = "\<lambda>im s. store_ok dir s \<and> pi_Ref im = ref \<and> pi_Platform im = platform \<and>
      (\<exists>x img. ParseReference reg ref = Some x \<and> remote_Image reg x platform = Some img \<and> pulled_image json dir img im)"
  have config: "valid (store_ok dir) (andThen (pullConfig json dir img)
      (\<lambda>(cd, config). pullRest json dir ref platform img md cd config)) ?Q (store_ok dir)"
    if "ri_Digest img = Some md" for md
  proof (rule valid_andThen [OF valid_pullConfig [OF dir wf]])
    fix p :: "string \<times> ImageConfig"
    obtain cd config where p: "p = (cd, config)" by fastforce
    show "valid ((\<lambda>(g, c) s. store_ok dir s \<and> ri_ConfigName img = Some g \<and>
        (\<exists>b. ri_RawConfigFile img = Some b \<and> dec_Image json b = Some c)) p)
      (case p of (cd, config) \<Rightarrow> pullRest json dir ref platform img md cd config) ?Q (store_ok dir)"
      unfolding p prod.case by (rule valid_pure) (use rest that in blast)
  qed
  show "valid (store_ok dir) (andThen (pullManifest json dir img) (\<lambda>md. andThen (pullConfig json dir img)
      (\<lambda>(cd, config). pullRest json dir ref platform img md cd config))) ?Q (store_ok dir)"
    by (intro valid_andThen [OF valid_pullManifest [OF dir wf]] valid_pure config)
qed

text \<open>A registry with one image of one layer, whose digests are computed from the bytes.\<close>

definition sha :: "string \<Rightarrow> string" where
  "sha bs = ''sha256:'' @ hex_EncodeToString (Sum256 bs)"

lemma sha_plain: "plain_digest (sha bs)"
  unfolding sha_def plain_digest_def splitDigest_sha256 using blobname_plain [OF blobname_digest] by (simp add: plain_def)

definition demo_layer :: registry_layer where
  "demo_layer = \<lparr>rl_Digest = Some (sha ''gz''), rl_MediaType = Some ''tar+gzip'', rl_Size = Some 2, rl_Compressed = Some (''gz'', False)\<rparr>"

definition demo_registry :: "string registry" where
  "demo_registry = \<lparr>ParseReference = Some, remote_Image = (\<lambda>r p. Some
     \<lparr>ri_RawManifest = Some ''{m}'', ri_Digest = Some (sha ''{m}''), ri_RawConfigFile = Some ''{c}'',
      ri_ConfigName = Some (sha ''{c}''), ri_Layers = Some [demo_layer]\<rparr>)\<rparr>"

definition demo_config :: ImageConfig where
  "demo_config = \<lparr>ic_Architecture = ''amd64'', ic_OS = ''linux'', ic_Config = \<lparr>rc_User = '''', rc_Env = [], rc_Entrypoint = [],
     rc_Cmd = [''sh''], rc_WorkingDir = '''', rc_StopSignal = ''''\<rparr>, ic_RootFS = \<lparr>rf_Type = ''layers'', rf_DiffIDs = [sha ''tar'']\<rparr>\<rparr>"

definition demo_json :: json_codec where
  "demo_json = \<lparr>enc_Raw = Some, enc_Ref = (\<lambda>m. Some (rm_ImageRef m)), dec_Ref = (\<lambda>_. None), dec_Image = (\<lambda>_. Some demo_config)\<rparr>"

theorem Pull_keeps_store_witness:
  "(case Pull demo_registry demo_json ''/var/s'' ''alpine'' (cfg_Platform Default) empty_os of
      (Inr im, s') \<Rightarrow> store_ok ''/var/s'' s' \<and> map l_DiffID (pi_Layers im) = [sha ''tar'']
    | (Inl e, s') \<Rightarrow> store_ok ''/var/s'' s')"
proof -
  have wf: "wf_image img" if "remote_Image demo_registry x p = Some img" for x p img
    using that by (auto simp: demo_registry_def wf_image_def wf_layer_def demo_layer_def sha_plain)
  have v: "valid (store_ok ''/var/s'') (Pull demo_registry demo_json ''/var/s'' ''alpine'' (cfg_Platform Default))
     (\<lambda>im s. store_ok ''/var/s'' s \<and> pi_Ref im = ''alpine'' \<and> pi_Platform im = cfg_Platform Default \<and>
      (\<exists>x img. ParseReference demo_registry ''alpine'' = Some x \<and>
         remote_Image demo_registry x (cfg_Platform Default) = Some img \<and> pulled_image demo_json ''/var/s'' img im))
     (store_ok ''/var/s'')"
    by (rule Pull_keeps_store [OF conjunct1 [OF demo_dir] conjunct2 [OF demo_dir]]) (rule wf)
  have ids: "map l_DiffID (pi_Layers im) = [sha ''tar'']" if "pulled_image demo_json ''/var/s'' img im" for im img
  proof -
    have "pi_Config im = demo_config" "map l_DiffID (pi_Layers im) = rf_DiffIDs (ic_RootFS (pi_Config im))"
      using that by (auto simp: pulled_image_def demo_json_def dest!: layers_match_maps)
    then show ?thesis by (simp add: demo_config_def)
  qed
  obtain r s' where p: "Pull demo_registry demo_json ''/var/s'' ''alpine'' (cfg_Platform Default) empty_os = (r, s')"
    by fastforce
  show ?thesis
  proof (cases r)
    case (Inl e)
    then show ?thesis using valid_Inl [OF v empty_os_ok p [unfolded Inl]] by (simp add: p)
  next
    case (Inr im)
    then show ?thesis using valid_Inr [OF v empty_os_ok p [unfolded Inr]] ids by (auto simp: p)
  qed
qed

end
