(* ===== verification/Polling.thy ===== *)
theory Polling
  imports Main
begin

text \<open>
  The polling loops of the host (\<open>for { ...; select { ... } }\<close>): the file lock, the retried job
  request, and the waits for a socket and for the guest agent.  A loop is given by what one round
  decides: \<open>Some r\<close> to return \<open>r\<close>, \<open>None\<close> to go on.  It may run for ever, so it is a partial function.
\<close>

partial_function (option) poll :: "(nat \<Rightarrow> 'r option) \<Rightarrow> nat \<Rightarrow> 'r option" where
  "poll round k = (case round k of Some r \<Rightarrow> Some r | None \<Rightarrow> poll round (Suc k))"

declare poll.simps [code]

lemma poll_decides: "round k = Some r \<Longrightarrow> poll round k = Some r"
  by (subst poll.simps) simp

lemma poll_waits: "round k = None \<Longrightarrow> poll round k = poll round (Suc k)"
  by (subst poll.simps) simp

lemma poll_skip: "(\<And>j. k \<le> j \<Longrightarrow> j < k + n \<Longrightarrow> round j = None) \<Longrightarrow> poll round k = poll round (k + n)"
proof (induction n)
  case (Suc n)
  then have "poll round k = poll round (k + n)" by simp
  also have "\<dots> = poll round (Suc (k + n))" using Suc.prems by (intro poll_waits) simp
  finally show ?case by simp
qed simp

lemma poll_SomeD:
  assumes "poll round k = Some r"
  shows "\<exists>n\<ge>k. round n \<noteq> None"
proof (rule poll.raw_induct [OF _ assms, of "\<lambda>round k r. \<exists>n\<ge>k. round n \<noteq> None"])
  fix loop round k r
  assume IH: "\<And>round k r. loop round k = Some r \<Longrightarrow> \<exists>n\<ge>k. round n \<noteq> None"
    and st: "(case round k of None \<Rightarrow> loop round (Suc k) | Some r \<Rightarrow> Some r) = Some r"
  show "\<exists>n\<ge>k. round n \<noteq> None"
  proof (cases "round k")
    case None
    then have "loop round (Suc k) = Some r" using st by simp
    then obtain n where "Suc k \<le> n" "round n \<noteq> None" using IH by blast
    then show ?thesis by (intro exI [of _ n]) simp
  qed auto
qed

text \<open>The result is the decision of the first round that decides.\<close>

lemma poll_first:
  assumes "round n = Some r" "\<And>j. j < n \<Longrightarrow> round j = None"
  shows "poll round 0 = Some r"
proof -
  have "poll round 0 = poll round (0 + n)" by (rule poll_skip) (simp add: assms(2))
  then show ?thesis by (simp add: poll_decides assms(1))
qed

lemma first_round:
  fixes round :: "nat \<Rightarrow> 'r option"
  assumes "\<exists>n. round n \<noteq> None"
  shows "\<exists>n r. round n = Some r \<and> (\<forall>j<n. round j = None)"
proof -
  let ?P = "\<lambda>n. round n \<noteq> None"
  obtain r where "round (Least ?P) = Some r" using LeastI_ex [of ?P] assms by blast
  moreover have "round j = None" if "j < Least ?P" for j using not_less_Least [of j ?P] that by blast
  ultimately show ?thesis by blast
qed

lemma poll_result:
  assumes "poll round 0 = Some r"
  shows "\<exists>n. round n = Some r \<and> (\<forall>j<n. round j = None)"
proof -
  have "\<exists>n. round n \<noteq> None" using poll_SomeD [OF assms] by blast
  then obtain n r' where n: "round n = Some r'" "\<forall>j<n. round j = None" using first_round by metis
  then have "poll round 0 = Some r'" by (intro poll_first) auto
  then show ?thesis using assms n by (intro exI [of _ n]) simp
qed

lemma poll_returns_iff: "(\<exists>r. poll round 0 = Some r) \<longleftrightarrow> (\<exists>n. round n \<noteq> None)"
proof
  assume "\<exists>n. round n \<noteq> None"
  then obtain n r where "round n = Some r" "\<forall>j<n. round j = None" using first_round by metis
  then have "poll round 0 = Some r" by (intro poll_first) auto
  then show "\<exists>r. poll round 0 = Some r" by blast
next
  assume "\<exists>r. poll round 0 = Some r"
  then obtain r where "poll round 0 = Some r" ..
  from poll_SomeD [OF this] show "\<exists>n. round n \<noteq> None" by blast
qed

end
