(* ===== verification/FileLock.thy ===== *)
theory FileLock
  imports PosixLogic Polling
begin

text \<open>
  The advisory file lock (\<open>internal/lock/filelock.go\<close>).  \<open>flock\<close> is asked again every 50 ms until
  it answers with the lock or an error, or until the context is done; the answers and the moments
  at which the \<open>select\<close> statement takes the context's branch are arguments.  The loop may run for
  ever, so the result is optional: \<open>None\<close> means that the call does not return.
\<close>

datatype flock_answer = Granted | WouldBlock | FlockError errno

record lock_env =
  flock_try :: "nat \<Rightarrow> flock_answer"
  lock_cancelled :: "nat \<Rightarrow> bool"

datatype lock_error = LockOs errno | LockFailed string errno | LockCtx

record FileLock =
  lock_file :: "nat option"

text \<open>\<open>os.OpenFile\<close> with \<open>O_CREATE|O_RDWR\<close>.\<close>

definition OpenCreate :: "string \<Rightarrow> uint32 \<Rightarrow> (errno, nat) io" where
  "OpenCreate p m = sysop (\<lambda>s. case resolve s True p of Inl e \<Rightarrow> Inl e
     | Inr q \<Rightarrow> (case ent s q of
                   None \<Rightarrow> Inr (new_file q m s)
                 | Some (RegE i) \<Rightarrow> Inr (i, s)
                 | Some (DirE a) \<Rightarrow> Inl EISDIR
                 | Some (LnkE t a) \<Rightarrow> Inl ELOOP))"

definition lockRound :: "lock_env \<Rightarrow> string \<Rightarrow> nat \<Rightarrow> (lock_error + unit) option" where
  "lockRound env path k =
     (case flock_try env k of
        Granted \<Rightarrow> Some (Inr ())
      | FlockError e \<Rightarrow> Some (Inl (LockFailed path e))
      | WouldBlock \<Rightarrow> if lock_cancelled env k then Some (Inl LockCtx) else None)"

definition Acquire :: "lock_env \<Rightarrow> string \<Rightarrow> os \<Rightarrow> ((lock_error + FileLock) \<times> os) option" where
  "Acquire env path s =
     (case andThen (wrap LockOs (MkdirAll (Dir path) 493)) (\<lambda>_. wrap LockOs (OpenCreate path 420)) s of
        (Inl e, s') \<Rightarrow> Some (Inl e, s')
      | (Inr fd, s') \<Rightarrow>
          (case poll (lockRound env path) 0 of
             None \<Rightarrow> None
           | Some (Inr u) \<Rightarrow> Some (Inr \<lparr>lock_file = Some fd\<rparr>, s')
           | Some (Inl e) \<Rightarrow> Some (Inl e, snd (FClose fd s'))))"

text \<open>
  \<open>Close\<close> on a lock that is already closed does nothing.  The second component is the lock with
  its file set to \<open>nil\<close>; an unlock error wins over a close error.
\<close>

definition Close :: "FileLock \<Rightarrow> os \<Rightarrow> (errno option \<times> FileLock) \<times> os" where
  "Close l s =
     (case lock_file l of
        None \<Rightarrow> ((None, l), s)
      | Some fd \<Rightarrow>
          (case FClose fd s of (unlockErr, s1) \<Rightarrow>
           (case FClose fd s1 of (closeErr, s2) \<Rightarrow>
              ((case unlockErr of Inl e \<Rightarrow> Some e | Inr u \<Rightarrow>
                  (case closeErr of Inl e \<Rightarrow> Some e | Inr u \<Rightarrow> None), l\<lparr>lock_file := None\<rparr>), s2))))"

section \<open>Properties\<close>


definition lock_os :: os where
  "lock_os = \<lparr>ents = [([], DirE \<lparr>perm = 493, owner = 0, grp = 0\<rparr>)], inodes = (\<lambda>_. None), next_ino = 0,
     cwd = [], umask = 18, ruid = 0, rgid = 0, euid = 0, now = 0, rand = (\<lambda>n. n), tick = 0, fault = (\<lambda>_. None)\<rparr>"

definition busy_then_free :: lock_env where
  "busy_then_free = \<lparr>flock_try = (\<lambda>k. if k < 3 then WouldBlock else Granted), lock_cancelled = (\<lambda>_. False)\<rparr>"


text \<open>
  The lock is handed out only by the attempt that \<open>flock\<close> grants: every earlier attempt
  answered "would block", with the context not done in between.  Closing a lock twice is
  the same as closing it once.
\<close>

theorem Acquire_granted:
  assumes "Acquire env path s = Some (Inr l, s')"
  shows "\<exists>k. flock_try env k = Granted \<and> (\<forall>j<k. flock_try env j = WouldBlock \<and> \<not> lock_cancelled env j) \<and>
    lock_file l \<noteq> None \<and> (let ((e, l1), s1) = Close l s' in Close l1 s1 = ((None, l1), s1))"
proof -
  have p: "poll (lockRound env path) 0 = Some (Inr ())" and l: "lock_file l \<noteq> None"
    using assms unfolding Acquire_def by (auto split: prod.splits sum.splits option.splits)
  obtain k where k: "lockRound env path k = Some (Inr ())" "\<And>j. j < k \<Longrightarrow> lockRound env path j = None"
    using poll_result [OF p] by auto
  have "flock_try env k = Granted" using k(1) by (auto simp: lockRound_def split: flock_answer.splits if_splits)
  moreover have "let ((e, l1), s1) = Close l s' in Close l1 s1 = ((None, l1), s1)"
    using l by (auto simp: Close_def split: prod.splits)
  moreover have "flock_try env j = WouldBlock \<and> \<not> lock_cancelled env j" if "j < k" for j
    using k(2) [OF that] by (auto simp: lockRound_def split: flock_answer.splits if_splits)
  ultimately show ?thesis using l by blast
qed

theorem Acquire_granted_witness:
  "\<exists>l s'. Acquire busy_then_free ''/l/x.lock'' lock_os = Some (Inr l, s') \<and> lock_file l \<noteq> None"
proof -
  have f: "poll (lockRound busy_then_free ''/l/x.lock'') 0 = Some (Inr ())"
    by (rule poll_first [of _ 3]) (simp_all add: lockRound_def busy_then_free_def)
  have "fst (andThen (wrap LockOs (MkdirAll (Dir ''/l/x.lock'') 493)) (\<lambda>_. wrap LockOs (OpenCreate ''/l/x.lock'' 420)) lock_os) = Inr 0"
    by code_simp
  then have "\<exists>s'. Acquire busy_then_free ''/l/x.lock'' lock_os = Some (Inr \<lparr>lock_file = Some 0\<rparr>, s')"
    unfolding Acquire_def f by (auto split: prod.splits)
  then obtain s' where "Acquire busy_then_free ''/l/x.lock'' lock_os = Some (Inr \<lparr>lock_file = Some 0\<rparr>, s')" by blast
  with Acquire_granted [OF this] show ?thesis by blast
qed

end
