(* ===== verification/RootfsStore.thy ===== *)
theory RootfsStore
  imports OciPull FileLock DiskfsSafety
begin

text \<open>
  Root file systems of images (\<open>internal/rootfsbuilder/rootfs.go\<close>): the identity of a root file
  system, the size of its image file, and how it is built: in a separate place, under a lock,
  and renamed into place when it is complete.

  The image builder is the interface \<open>RootfsImageBuilder\<close> of the source: a function that returns
  or, as \<open>None\<close>, does not.  \<open>PureGoExt4Builder\<close> is its instance with the builder of
  \<open>pure_ext4.go\<close>; running out of fuel there counts as not returning.
\<close>

section \<open>Types\<close>

record Rootfs =
  rs_ChainID :: string
  rs_Path :: string

record Metadata =
  md_ChainID :: string
  md_ImageRef :: string
  md_ManifestDigest :: string
  md_Platform :: Platform
  md_DiffIDs :: "string list"
  md_SizeBytes :: int
  md_FSType :: string
  md_CreatedAt :: int

datatype rootfs_error =
    NoDiffIDs
  | UnsupportedDiffID string
  | RootfsOs errno
  | RootfsLock lock_error
  | BuildFailed layer_error
  | RootfsMeta store_error

type_synonym image_builder = "PulledImage \<Rightarrow> string \<Rightarrow> int \<Rightarrow> os \<Rightarrow> ((layer_error + unit) \<times> os) option"

definition PureGoExt4Builder :: "'fs ext4 \<Rightarrow> nat \<Rightarrow> (string \<Rightarrow> int \<Rightarrow> os \<Rightarrow> 'fs xres \<times> os) \<Rightarrow> (string \<Rightarrow> 'fs \<Rightarrow> os \<Rightarrow> os)
    \<Rightarrow> (string \<Rightarrow> stream option) \<Rightarrow> (stream \<Rightarrow> (tar_header \<times> stream) list \<times> bool) \<Rightarrow> build_ctx \<Rightarrow> image_builder" where
  "PureGoExt4Builder x n mkfs sync gunzip untar ctx img imagePath sz s =
     (case Build x n mkfs sync gunzip untar ctx (map (\<lambda>l. (l_CompressedBlobPath l, l_DiffID l)) (pi_Layers img)) imagePath sz s of
        (DOk u, s') \<Rightarrow> Some (Inr (), s')
      | (DErr e, s') \<Rightarrow> Some (Inl e, s')
      | (DPanic, s') \<Rightarrow> Some (Inl FsPanic, s')
      | (DFuel, s') \<Rightarrow> None)"

section \<open>Identity and size\<close>

definition defaultMinRootfsSize :: int where "defaultMinRootfsSize = 2 * 2 ^ 30"
definition defaultExtraSize :: int where "defaultExtraSize = 512 * 2 ^ 20"

fun checkDiffIDs :: "string list \<Rightarrow> rootfs_error option" where
  "checkDiffIDs [] = None"
| "checkDiffIDs (d # ds) = (if HasPrefix d ''sha256:'' then checkDiffIDs ds else Some (UnsupportedDiffID d))"

definition ComputeChainID :: "string list \<Rightarrow> rootfs_error + string" where
  "ComputeChainID diffIDs =
     (if diffIDs = [] then Inl NoDiffIDs
      else case checkDiffIDs diffIDs of
        Some e \<Rightarrow> Inl e
      | None \<Rightarrow> Inr (''sha256:'' @ hex_EncodeToString (Sum256 (join_with [CHR 0x0A] diffIDs))))"

fun sumSizes :: "int \<Rightarrow> Layer list \<Rightarrow> int" where
  "sumSizes t [] = t"
| "sumSizes t (l # ls) = sumSizes (i64 (t + l_Size l)) ls"

definition estimateRootfsSize :: "PulledImage \<Rightarrow> int" where
  "estimateRootfsSize img =
     (let sz = i64 (i64 (sumSizes 0 (pi_Layers img) * 4) + defaultExtraSize) in
      if sz < defaultMinRootfsSize then defaultMinRootfsSize else sz)"

section \<open>Building\<close>

definition WriteMetadata :: "(Metadata \<Rightarrow> string option) \<Rightarrow> string \<Rightarrow> PulledImage \<Rightarrow> string \<Rightarrow> int \<Rightarrow> (store_error, unit) io" where
  "WriteMetadata enc Dir0 img chainID sizeBytes =
     andThen (reads now) (\<lambda>t. WriteJSON (RootfsMetadataPath Dir0 chainID) (enc
       \<lparr>md_ChainID = chainID, md_ImageRef = pi_Ref img, md_ManifestDigest = pi_ManifestDigest img,
        md_Platform = pi_Platform img, md_DiffIDs = rf_DiffIDs (ic_RootFS (pi_Config img)),
        md_SizeBytes = sizeBytes, md_FSType = ''ext4'', md_CreatedAt = t\<rparr>))"

definition prepareDirs :: "string \<Rightarrow> string \<Rightarrow> (rootfs_error, unit) io" where
  "prepareDirs completePath buildingPath =
     andThen (wrap RootfsOs (MkdirAll (Dir completePath) 493)) (\<lambda>_.
     andThen (wrap RootfsOs (MkdirAll (Dir buildingPath) 493)) (\<lambda>_.
     andThen (attempt (Remove buildingPath)) (\<lambda>r. ret ())))"

definition build :: "image_builder \<Rightarrow> (Metadata \<Rightarrow> string option) \<Rightarrow> string \<Rightarrow> PulledImage \<Rightarrow> string \<Rightarrow> string
    \<Rightarrow> os \<Rightarrow> ((rootfs_error + unit) \<times> os) option" where
  "build builder enc Dir0 img chainID completePath s =
     (let buildingPath = RootfsBuildingPath Dir0 chainID; sz = estimateRootfsSize img in
      case prepareDirs completePath buildingPath s of
        (Inl e, s1) \<Rightarrow> Some (Inl e, s1)
      | (Inr u, s1) \<Rightarrow>
          (case builder img buildingPath sz s1 of
             None \<Rightarrow> None
           | Some (Inl e, s2) \<Rightarrow> Some (Inl (BuildFailed e), snd (Remove buildingPath s2))
           | Some (Inr u, s2) \<Rightarrow>
               (case Rename buildingPath completePath s2 of
                  (Inl e, s3) \<Rightarrow> Some (Inl (RootfsOs e), snd (Remove buildingPath s3))
                | (Inr u, s3) \<Rightarrow> Some (wrap RootfsMeta (WriteMetadata enc Dir0 img chainID sz) s3))))"

definition EnsureRootfs :: "image_builder \<Rightarrow> (Metadata \<Rightarrow> string option) \<Rightarrow> lock_env \<Rightarrow> string \<Rightarrow> PulledImage
    \<Rightarrow> os \<Rightarrow> ((rootfs_error + Rootfs) \<times> os) option" where
  "EnsureRootfs builder enc env Dir0 img s =
     (case ComputeChainID (rf_DiffIDs (ic_RootFS (pi_Config img))) of
        Inl e \<Rightarrow> Some (Inl e, s)
      | Inr chainID \<Rightarrow>
          let path = RootfsPath Dir0 chainID; rootfs = \<lparr>rs_ChainID = chainID, rs_Path = path\<rparr> in
          (case Stat path s of
             (Inr x, s1) \<Rightarrow> Some (Inr rootfs, s1)
           | (Inl e, s1) \<Rightarrow>
               (case Acquire env (LockPath Dir0 chainID) s1 of
                  None \<Rightarrow> None
                | Some (Inl e, s2) \<Rightarrow> Some (Inl (RootfsLock e), s2)
                | Some (Inr lock, s2) \<Rightarrow>
                    (case Stat path s2 of
                       (Inr x, s3) \<Rightarrow> Some (Inr rootfs, snd (Close lock s3))
                     | (Inl e, s3) \<Rightarrow>
                         (case build builder enc Dir0 img chainID path s3 of
                            None \<Rightarrow> None
                          | Some (Inl e, s4) \<Rightarrow> Some (Inl e, snd (Close lock s4))
                          | Some (Inr u, s4) \<Rightarrow> Some (Inr rootfs, snd (Close lock s4)))))))"

section \<open>Properties of the identity and the size\<close>

lemma checkDiffIDs_None: "checkDiffIDs ds = None \<longleftrightarrow> list_all (\<lambda>d. prefix ''sha256:'' d) ds"
  by (induction ds) (auto simp: HasPrefix_def)

text \<open>
  A chain ID is computed exactly for the non-empty lists of \<open>sha256\<close> diff IDs.  It is the digest
  of a text, so it names a plain file, and two lists of diff IDs without line feeds have the
  same text only if they are equal: order and number of the layers are part of the identity.
\<close>

theorem ComputeChainID_identity:
  "((\<exists>c. ComputeChainID ds = Inr c) \<longleftrightarrow> ds \<noteq> [] \<and> list_all (\<lambda>d. prefix ''sha256:'' d) ds) \<and>
   (\<forall>c. ComputeChainID ds = Inr c \<longrightarrow>
      (\<exists>text. c = ''sha256:'' @ hex_EncodeToString (Sum256 text) \<and> blobname (snd (splitDigest c)) \<and>
         (list_all (\<lambda>d. CHR 0x0A \<notin> set d) ds \<longrightarrow> Split (CHR 0x0A) text = ds)))"
proof (intro conjI allI impI)
  show "(\<exists>c. ComputeChainID ds = Inr c) \<longleftrightarrow> ds \<noteq> [] \<and> list_all (\<lambda>d. prefix ''sha256:'' d) ds"
    by (auto simp: ComputeChainID_def simp flip: checkDiffIDs_None split: option.splits)
next
  fix c assume c: "ComputeChainID ds = Inr c"
  let ?t = "join_with [CHR 0x0A] ds"
  have "ds \<noteq> []" "c = ''sha256:'' @ hex_EncodeToString (Sum256 ?t)"
    using c by (auto simp: ComputeChainID_def split: if_splits option.splits)
  then show "\<exists>text. c = ''sha256:'' @ hex_EncodeToString (Sum256 text) \<and> blobname (snd (splitDigest c)) \<and>
      (list_all (\<lambda>d. CHR 0x0A \<notin> set d) ds \<longrightarrow> Split (CHR 0x0A) text = ds)"
    using blobname_digest [of ?t] splitDigest_sha256 Split_join [of ds "CHR 0x0A"]
    by (intro exI [of _ ?t]) (auto simp: list_all_iff)
qed

theorem ComputeChainID_identity_witness:
  "\<exists>c text. ComputeChainID [''sha256:aa'', ''sha256:bb''] = Inr c \<and> c = ''sha256:'' @ hex_EncodeToString (Sum256 text) \<and>
     Split (CHR 0x0A) text = [''sha256:aa'', ''sha256:bb'']"
proof -
  have "\<exists>c. ComputeChainID [''sha256:aa'', ''sha256:bb''] = Inr c"
    using ComputeChainID_identity [of "[''sha256:aa'', ''sha256:bb'']"] by simp
  then show ?thesis using ComputeChainID_identity [of "[''sha256:aa'', ''sha256:bb'']"] by auto
qed

lemma sumSizes_exact:
  assumes "list_all (\<lambda>l. 0 \<le> l_Size l) ls" "0 \<le> n" "n + sum_list (map l_Size ls) < 2 ^ 62"
  shows "sumSizes n ls = n + sum_list (map l_Size ls)"
  using assms
proof (induction ls arbitrary: n)
  case (Cons l ls)
  have "0 \<le> sum_list (map l_Size ls)" using Cons.prems(1) by (intro sum_list_nonneg) (auto simp: list_all_iff)
  then have "i64 (n + l_Size l) = n + l_Size l" using Cons.prems by (intro i64_id) auto
  with Cons show ?case by simp
qed simp

text \<open>
  C32.  The image file is never smaller than two gigabytes, even if the sum of the layer sizes wraps
  around; and if the layer sizes are not negative and add up to less than \<open>2 ^ 60\<close> bytes, the
  file has room for four times the compressed size and the extra half gigabyte.
\<close>

theorem estimateRootfsSize_bounds:
  "2 * 2 ^ 30 \<le> estimateRootfsSize img \<and> estimateRootfsSize img < 2 ^ 63 \<and>
   (list_all (\<lambda>l. 0 \<le> l_Size l) (pi_Layers img) \<longrightarrow> sum_list (map l_Size (pi_Layers img)) < 2 ^ 60 \<longrightarrow>
    estimateRootfsSize img = max (2 * 2 ^ 30) (4 * sum_list (map l_Size (pi_Layers img)) + 512 * 2 ^ 20))"
proof (intro conjI impI)
  let ?z = "i64 (i64 (sumSizes 0 (pi_Layers img) * 4) + defaultExtraSize)"
  show "2 * 2 ^ 30 \<le> estimateRootfsSize img"
    by (simp add: estimateRootfsSize_def Let_def defaultMinRootfsSize_def)
  show "estimateRootfsSize img < 2 ^ 63"
    using i64_range [of "i64 (sumSizes 0 (pi_Layers img) * 4) + defaultExtraSize"]
    by (simp add: estimateRootfsSize_def Let_def defaultMinRootfsSize_def)
  assume n: "list_all (\<lambda>l. 0 \<le> l_Size l) (pi_Layers img)" and b: "sum_list (map l_Size (pi_Layers img)) < 2 ^ 60"
  let ?t = "sum_list (map l_Size (pi_Layers img))"
  have nn: "0 \<le> ?t" using n by (intro sum_list_nonneg) (auto simp: list_all_iff)
  have "sumSizes 0 (pi_Layers img) = ?t" using sumSizes_exact [OF n, of 0] b by simp
  moreover have "i64 (?t * 4) = ?t * 4" using nn b by (intro i64_id) auto
  moreover have "i64 (?t * 4 + defaultExtraSize) = ?t * 4 + defaultExtraSize"
    using nn b by (intro i64_id) (auto simp: defaultExtraSize_def)
  ultimately show "estimateRootfsSize img = max (2 * 2 ^ 30) (4 * ?t + 512 * 2 ^ 20)"
    by (simp add: estimateRootfsSize_def Let_def defaultMinRootfsSize_def defaultExtraSize_def max_def)
qed

definition plain_config :: ImageConfig where
  "plain_config = \<lparr>ic_Architecture = ''amd64'', ic_OS = ''linux'', ic_Config = \<lparr>rc_User = '''', rc_Env = [], rc_Entrypoint = [],
     rc_Cmd = [''sh''], rc_WorkingDir = '''', rc_StopSignal = ''''\<rparr>, ic_RootFS = \<lparr>rf_Type = ''layers'', rf_DiffIDs = [''sha256:aa'']\<rparr>\<rparr>"

definition sized_image :: "int list \<Rightarrow> PulledImage" where
  "sized_image zs = \<lparr>pi_Ref = ''alpine'', pi_ManifestDigest = '''', pi_ConfigDigest = '''', pi_Config = plain_config,
     pi_Layers = map (\<lambda>z. \<lparr>l_Digest = '''', l_DiffID = '''', l_MediaType = '''', l_CompressedBlobPath = '''', l_Size = z\<rparr>) zs,
     pi_Platform = cfg_Platform Default\<rparr>"

theorem estimateRootfsSize_bounds_witness:
  "estimateRootfsSize (sized_image [2 ^ 30, 2 ^ 29]) = 6 * 2 ^ 30 + 512 * 2 ^ 20 \<and>
   estimateRootfsSize (sized_image [2 ^ 62, 2 ^ 62]) = 2 * 2 ^ 30"
proof -
  have "estimateRootfsSize (sized_image [2 ^ 30, 2 ^ 29]) = 6 * 2 ^ 30 + 512 * 2 ^ 20"
    using estimateRootfsSize_bounds [of "sized_image [2 ^ 30, 2 ^ 29]"] by (simp add: sized_image_def)
  moreover have "estimateRootfsSize (sized_image [2 ^ 62, 2 ^ 62]) = 2 * 2 ^ 30"
    by (simp add: estimateRootfsSize_def sized_image_def i64_def defaultExtraSize_def defaultMinRootfsSize_def)
  ultimately show ?thesis ..
qed

section \<open>Building and publishing\<close>

lemma PureGoExt4Builder_verifies:
  assumes "PureGoExt4Builder x n mkfs sync gunzip untar ctx img p sz s = Some (Inr u, s')"
  shows "list_all (verified_layer gunzip (snd (mkfs p sz s))) (map (\<lambda>l. (l_CompressedBlobPath l, l_DiffID l)) (pi_Layers img))"
proof -
  have "\<exists>v s1. Build x n mkfs sync gunzip untar ctx (map (\<lambda>l. (l_CompressedBlobPath l, l_DiffID l)) (pi_Layers img)) p sz s = (DOk v, s1)"
    using assms unfolding PureGoExt4Builder_def by (auto split: prod.splits dres.splits)
  then show ?thesis using Build_verified by blast
qed

text \<open>The states in which \<open>EnsureRootfs\<close> looks for the image and builds it.\<close>

definition found_at :: "string \<Rightarrow> os \<Rightarrow> bool" where
  "found_at path s = (case fst (Stat path s) of Inl e \<Rightarrow> False | Inr x \<Rightarrow> True)"

lemma build_success:
  assumes "build builder enc dir img chain path s = Some (Inr u, s')"
  shows "\<exists>s1 s2. prepareDirs path (RootfsBuildingPath dir chain) s = (Inr (), s1) \<and>
     builder img (RootfsBuildingPath dir chain) (estimateRootfsSize img) s1 = Some (Inr (), s2)"
  using assms unfolding build_def Let_def
  by (auto split: prod.splits sum.splits option.splits)

text \<open>
  C12.  A root file system that \<open>EnsureRootfs\<close> returns has the chain ID of the image's diff IDs and
  the path of that ID.  It was there when the call began, or when it had the lock, or it has been
  built by this call, while it had the lock, from layers that decompress to their diff IDs.
\<close>

theorem EnsureRootfs_verified:
  assumes "EnsureRootfs (PureGoExt4Builder x n mkfs sync gunzip untar ctx) enc env dir img s = Some (Inr rf, s')"
  shows "\<exists>chain. ComputeChainID (rf_DiffIDs (ic_RootFS (pi_Config img))) = Inr chain \<and>
    rf = \<lparr>rs_ChainID = chain, rs_Path = RootfsPath dir chain\<rparr> \<and>
    (found_at (RootfsPath dir chain) s \<or>
     (\<exists>lock s2. Acquire env (LockPath dir chain) (snd (Stat (RootfsPath dir chain) s)) = Some (Inr lock, s2) \<and>
       (found_at (RootfsPath dir chain) s2 \<or>
        (\<exists>s4. prepareDirs (RootfsPath dir chain) (RootfsBuildingPath dir chain) (snd (Stat (RootfsPath dir chain) s2)) = (Inr (), s4) \<and>
           list_all (verified_layer gunzip (snd (mkfs (RootfsBuildingPath dir chain) (estimateRootfsSize img) s4)))
             (map (\<lambda>l. (l_CompressedBlobPath l, l_DiffID l)) (pi_Layers img))))))"
proof -
  obtain chain where c: "ComputeChainID (rf_DiffIDs (ic_RootFS (pi_Config img))) = Inr chain"
    and rf: "rf = \<lparr>rs_ChainID = chain, rs_Path = RootfsPath dir chain\<rparr>"
    using assms unfolding EnsureRootfs_def Let_def
    by (auto split: prod.splits sum.splits option.splits)
  let ?p = "RootfsPath dir chain"
  show ?thesis
  proof (cases "found_at ?p s")
    case False
    then obtain lock s2 where l: "Acquire env (LockPath dir chain) (snd (Stat ?p s)) = Some (Inr lock, s2)"
      using assms c unfolding EnsureRootfs_def Let_def found_at_def
      by (auto split: prod.splits sum.splits option.splits)
    show ?thesis
    proof (cases "found_at ?p s2")
      case nf: False
      then obtain u s5 where b: "build (PureGoExt4Builder x n mkfs sync gunzip untar ctx) enc dir img chain ?p (snd (Stat ?p s2)) = Some (Inr u, s5)"
        using assms c l False unfolding EnsureRootfs_def Let_def found_at_def
        by (auto split: prod.splits sum.splits option.splits)
      then show ?thesis using build_success [OF b] PureGoExt4Builder_verifies c rf l by blast
    qed (use c rf l in blast)
  qed (use c rf in blast)
qed

lemma RootfsPath_file:
  assumes "cleaned dir" "rooted dir" "blobname enc"
  shows "cleaned (RootfsPath dir (''sha256:'' @ enc))" "rooted (RootfsPath dir (''sha256:'' @ enc))"
    "comps (RootfsPath dir (''sha256:'' @ enc)) = comps dir @ [''rootfs'', ''complete''] @ [enc @ ''.ext4'']"
proof -
  have p: "plain (enc @ ''.ext4'')" using blobname_plain [OF assms(3)] by (intro plain_ext) auto
  have "list_all plain [''rootfs'', ''complete'', enc @ ''.ext4'']" using p by (simp add: plain_def)
  note j = store_file_Join [OF assms(1,2) this]
  have e: "RootfsPath dir (''sha256:'' @ enc) = Join (dir # [''rootfs'', ''complete'', enc @ ''.ext4''])"
    unfolding RootfsPath_def splitDigest_sha256 prod.case ..
  show "cleaned (RootfsPath dir (''sha256:'' @ enc))" "rooted (RootfsPath dir (''sha256:'' @ enc))"
    "comps (RootfsPath dir (''sha256:'' @ enc)) = comps dir @ [''rootfs'', ''complete''] @ [enc @ ''.ext4'']"
    unfolding e using j by (simp_all add: store_file_def)
qed

definition demo_chain :: string where
  "demo_chain = hex_EncodeToString (Sum256 ''sha256:aa'')"

definition cached_os :: os where
  "cached_os = one_file (comps ''/var/s'' @ [''rootfs'', ''complete'']) (demo_chain @ ''.ext4'') ''ext4''"

lemma demo_chain: "ComputeChainID (rf_DiffIDs (ic_RootFS plain_config)) = Inr (''sha256:'' @ demo_chain)"
  by (simp add: plain_config_def ComputeChainID_def demo_chain_def HasPrefix_def)

lemma cached_os_found: "\<exists>x. Stat (RootfsPath ''/var/s'' (''sha256:'' @ demo_chain)) cached_os = (Inr x, cached_os\<lparr>tick := 1\<rparr>)"
proof -
  have b: "blobname demo_chain" by (simp add: demo_chain_def blobname_digest)
  note p = RootfsPath_file [OF conjunct1 [OF demo_dir] conjunct2 [OF demo_dir] b]
  show ?thesis
    using one_file_resolve [OF p(1,2), where ds = "comps ''/var/s'' @ [''rootfs'', ''complete'']" and n = "demo_chain @ ''.ext4''"] p(3)
    by (simp add: Stat_def sysop_def Let_def cached_os_def one_file_ent del: append_Cons append_Nil)
qed

theorem EnsureRootfs_verified_witness:
  "let b = PureGoExt4Builder posix_ext4 10 (\<lambda>p z s. (XErr FsError, s)) (\<lambda>p fs s. s) (\<lambda>_. None) (\<lambda>_. ([], True)) (\<lambda>_ _. False);
       rf = \<lparr>rs_ChainID = ''sha256:'' @ demo_chain, rs_Path = RootfsPath ''/var/s'' (''sha256:'' @ demo_chain)\<rparr>
   in \<exists>s'. EnsureRootfs b (\<lambda>_. None) busy_then_free ''/var/s'' (sized_image []) cached_os = Some (Inr rf, s') \<and>
      ComputeChainID (rf_DiffIDs (ic_RootFS (pi_Config (sized_image [])))) = Inr (rs_ChainID rf)"
proof -
  let ?b = "PureGoExt4Builder posix_ext4 10 (\<lambda>p z s. (XErr FsError, s)) (\<lambda>p fs s. s) (\<lambda>_. None) (\<lambda>_. ([], True)) (\<lambda>_ _. False)"
  let ?rf = "\<lparr>rs_ChainID = ''sha256:'' @ demo_chain, rs_Path = RootfsPath ''/var/s'' (''sha256:'' @ demo_chain)\<rparr>"
  have cfg: "pi_Config (sized_image []) = plain_config" by (simp add: sized_image_def)
  have e: "EnsureRootfs ?b (\<lambda>_. None) busy_then_free ''/var/s'' (sized_image []) cached_os = Some (Inr ?rf, cached_os\<lparr>tick := 1\<rparr>)"
    using cached_os_found unfolding EnsureRootfs_def cfg demo_chain Let_def by auto
  from EnsureRootfs_verified [OF e] e show ?thesis unfolding Let_def by auto
qed

text \<open>No image file has the name \<open>c\<close>.\<close>

definition noreg :: "string list \<Rightarrow> os \<Rightarrow> bool" where
  "noreg c s = (\<forall>i. ent s c \<noteq> Some (RegE i))"

lemma stable_noreg [simp, intro]: "stable (noreg c)"
  by (simp add: stable_def noreg_def)

lemma noreg_MkdirAll: "valid (noreg c) (MkdirAll p m) (\<lambda>_. noreg c) (noreg c)"
proof -
  have "noreg c s'" if "noreg c s" "MkdirAll p m s = (r, s')" for s s' and r :: "errno + unit"
    using valid_both [OF valid_MkdirAll_grown grown_refl that(2)] that(1)
    unfolding grown_def noreg_def by (metis is_dir.simps(4))
  then show ?thesis by (intro validI)
qed

lemma noreg_Remove: "valid (noreg c) (Remove p) (\<lambda>_. noreg c) (noreg c)"
  unfolding Remove_def
  by (rule valid_sysop) (auto simp: noreg_def split: sum.splits option.splits if_splits)

lemma noreg_prepareDirs: "valid (noreg c) (prepareDirs cp bp) (\<lambda>_. noreg c) (noreg c)"
  unfolding prepareDirs_def
  by (intro valid_andThen [OF valid_wrap [OF noreg_MkdirAll]] valid_andThen [OF valid_attempt_same [OF noreg_Remove]] valid_ret)

text \<open>
  A build that ends in an error before the image is in place publishes nothing: if the builder
  writes no file with the name of the complete image, there is none afterwards.
\<close>

theorem failed_build_publishes_nothing:
  assumes builder: "\<And>sz t r t'. builder img (RootfsBuildingPath dir chain) sz t = Some (r, t') \<Longrightarrow>
      noreg (comps path) t \<Longrightarrow> noreg (comps path) t'"
    and s: "noreg (comps path) s"
    and b: "build builder enc dir img chain path s = Some (Inl e, s')" and e: "\<And>x. e \<noteq> RootfsMeta x"
  shows "noreg (comps path) s'"
proof -
  let ?bp = "RootfsBuildingPath dir chain" and ?c = "comps path"
  have rm: "noreg ?c t \<Longrightarrow> noreg ?c (snd (Remove ?bp t))" for t
    using valid_both [OF noreg_Remove] by (metis prod.collapse)
  have ren: "noreg ?c t'" if "noreg ?c t" "Rename ?bp path t = (Inl x, t')" for t t' x
  proof -
    have "\<exists>k. t' = t\<lparr>tick := k\<rparr>"
      using that(2) unfolding Rename_def sysop_def Let_def by (auto split: option.splits sum.splits if_splits)
    then show ?thesis using that(1) by (auto simp: noreg_def)
  qed
  obtain r1 s1 where p: "prepareDirs path ?bp s = (r1, s1)" by fastforce
  have s1: "noreg ?c s1" by (rule valid_both [OF noreg_prepareDirs s p])
  show ?thesis
  proof (cases "\<exists>x t. builder img ?bp (estimateRootfsSize img) s1 = Some (Inr x, t)")
    case True
    then obtain x t where t: "builder img ?bp (estimateRootfsSize img) s1 = Some (Inr x, t)" by blast
    have "noreg ?c t" by (rule builder [OF t s1])
    then show ?thesis
      using b e s1 p t rm ren unfolding build_def Let_def wrap_def
      by (auto split: prod.splits sum.splits option.splits)
  next
    case False
    then show ?thesis
      using b s1 p rm builder unfolding build_def Let_def
      by (auto split: prod.splits sum.splits option.splits)
  qed
qed

text \<open>A builder that fails, and one that writes its image file.\<close>

definition failing_builder :: image_builder where
  "failing_builder img p sz s = Some (Inl FsError, s)"

definition simple_builder :: image_builder where
  "simple_builder img p sz s = (case OpenExcl p 420 s of (Inl e, s') \<Rightarrow> Some (Inl (LayerOs e), s') | (Inr i, s') \<Rightarrow> Some (Inr (), s'))"

theorem failed_build_publishes_nothing_witness:
  "noreg (comps (RootfsPath ''/var/s'' ''sha256:aa''))
     (snd (the (build failing_builder (\<lambda>_. None) ''/var/s'' (sized_image []) ''sha256:aa'' (RootfsPath ''/var/s'' ''sha256:aa'') empty_os)))"
proof -
  let ?p = "RootfsPath ''/var/s'' ''sha256:aa''"
  let ?b = "build failing_builder (\<lambda>_. None) ''/var/s'' (sized_image []) ''sha256:aa'' ?p empty_os"
  have e: "map_option fst ?b = Some (Inl (BuildFailed FsError))" by code_simp
  then obtain s' where b: "?b = Some (Inl (BuildFailed FsError), s')" by (cases ?b) auto
  have "noreg (comps ?p) s'"
    by (rule failed_build_publishes_nothing [OF _ _ b]) (auto simp: failing_builder_def noreg_def empty_os_ent)
  then show ?thesis using b by simp
qed

text \<open>
  When the metadata cannot be written after the rename, \<open>build\<close> reports an error although the
  image is in place: a later call finds it and succeeds, with no metadata file beside it.
\<close>

theorem metadata_failure_leaves_rootfs:
  "let p = RootfsPath ''/var/s'' ''sha256:aa'';
       r = build simple_builder (\<lambda>_. Some ''{}'') ''/var/s'' (sized_image []) ''sha256:aa'' p
             (empty_os\<lparr>fault := (\<lambda>n. if n = 17 then Some EIO else None)\<rparr>);
       s' = snd (the r)
   in map_option fst r = Some (Inl (RootfsMeta (StoreOs EIO))) \<and>
      found_at p (s'\<lparr>fault := (\<lambda>_. None)\<rparr>) \<and> \<not> found_at (RootfsMetadataPath ''/var/s'' ''sha256:aa'') (s'\<lparr>fault := (\<lambda>_. None)\<rparr>)"
  unfolding Let_def by code_simp

end
