(* ===== verification/RootfsProtocol.thy ===== *)
theory RootfsProtocol
  imports RootfsStore 
begin

text \<open>
  Several callers of \<open>EnsureRootfs\<close> (\<open>internal/rootfsbuilder/rootfs.go\<close>) for the same image, in one
  process or in several, interleaved at the granularity of their system calls.  \<open>RootfsStore\<close> models
  one call on its own; here the calls share the complete image, the file under construction and
  the lock.  A caller may be killed at any point: the kernel then releases its lock and leaves
  the file under construction as it is.  \<open>DeleteImage\<close> of the manager may remove the complete
  image at any time, since it takes no lock.
\<close>

section \<open>State\<close>

text \<open>An image file: who wrote it, and whether its build has finished.\<close>

datatype image_file = Image (writer: nat) (finished: bool)

text \<open>Where a caller stands; the argument of the last two is whether it reports success.\<close>

datatype pc = FirstStat | Acquiring | SecondStat | Removing | BuildStep | Renaming | Metadata_step
  | Cleanup | Unlocking bool | Returned bool

record pstate =
  complete :: "image_file option"
  building :: "image_file option"
  lock_owner :: "nat option"
  at :: "nat \<Rightarrow> pc"

definition pinit :: pstate where
  "pinit = \<lparr>complete = None, building = None, lock_owner = None, at = (\<lambda>_. FirstStat)\<rparr>"

definition goto :: "nat \<Rightarrow> pc \<Rightarrow> pstate \<Rightarrow> pstate" where
  "goto p l s = s\<lparr>at := (at s)(p := l)\<rparr>"

text \<open>
  One step of one caller.  \<open>os.Stat\<close> can fail on an image that is there, so a miss is always possible; every
  call can fail; the builder writes any number of times before it finishes or fails.
\<close>

inductive pstep :: "pstate \<Rightarrow> pstate \<Rightarrow> bool" where
  stat1_hit: "at s p = FirstStat \<Longrightarrow> complete s \<noteq> None \<Longrightarrow> pstep s (goto p (Returned True) s)"
| stat1_miss: "at s p = FirstStat \<Longrightarrow> pstep s (goto p Acquiring s)"
| acquire: "at s p = Acquiring \<Longrightarrow> lock_owner s = None \<Longrightarrow> pstep s (goto p SecondStat (s\<lparr>lock_owner := Some p\<rparr>))"
| acquire_fails: "at s p = Acquiring \<Longrightarrow> pstep s (goto p (Returned False) s)"
| stat2_hit: "at s p = SecondStat \<Longrightarrow> complete s \<noteq> None \<Longrightarrow> pstep s (goto p (Unlocking True) s)"
| stat2_miss: "at s p = SecondStat \<Longrightarrow> pstep s (goto p Removing s)"
| mkdir_fails: "at s p = Removing \<Longrightarrow> pstep s (goto p (Unlocking False) s)"
| remove: "at s p = Removing \<Longrightarrow> pstep s (goto p BuildStep (s\<lparr>building := None\<rparr>))"
| remove_fails: "at s p = Removing \<Longrightarrow> pstep s (goto p BuildStep s)"
| builder_writes: "at s p = BuildStep \<Longrightarrow> pstep s (s\<lparr>building := Some (Image p False)\<rparr>)"
| builder_finishes: "at s p = BuildStep \<Longrightarrow> pstep s (goto p Renaming (s\<lparr>building := Some (Image p True)\<rparr>))"
| builder_fails: "at s p = BuildStep \<Longrightarrow> pstep s (goto p Cleanup s)"
| rename: "at s p = Renaming \<Longrightarrow> building s = Some f \<Longrightarrow> pstep s (goto p Metadata_step (s\<lparr>complete := Some f, building := None\<rparr>))"
| rename_fails: "at s p = Renaming \<Longrightarrow> pstep s (goto p Cleanup s)"
| metadata: "at s p = Metadata_step \<Longrightarrow> pstep s (goto p (Unlocking b) s)"
| cleanup: "at s p = Cleanup \<Longrightarrow> pstep s (goto p (Unlocking False) (s\<lparr>building := None\<rparr>))"
| cleanup_fails: "at s p = Cleanup \<Longrightarrow> pstep s (goto p (Unlocking False) s)"
| unlock: "at s p = Unlocking b \<Longrightarrow> pstep s (goto p (Returned b) (s\<lparr>lock_owner := None\<rparr>))"

text \<open>What happens around the callers.\<close>

inductive env_step :: "pstate \<Rightarrow> pstate \<Rightarrow> bool" where
  crash: "env_step s (goto p (Returned False) (s\<lparr>lock_owner := (if lock_owner s = Some p then None else lock_owner s)\<rparr>))"
| delete: "env_step s (s\<lparr>complete := None\<rparr>)"

inductive reachable_p :: "pstate \<Rightarrow> bool" where
  init: "reachable_p pinit"
| call: "reachable_p s \<Longrightarrow> pstep s s' \<Longrightarrow> reachable_p s'"
| env: "reachable_p s \<Longrightarrow> env_step s s' \<Longrightarrow> reachable_p s'"

section \<open>The invariant\<close>

fun critical :: "pc \<Rightarrow> bool" where
  "critical FirstStat = False"
| "critical Acquiring = False"
| "critical (Returned b) = False"
| "critical _ = True"

text \<open>
  Only the owner of the lock is past the lock; a caller that is about to rename has just
  finished the file under construction; and a complete image is a finished one.
\<close>

definition pinv :: "pstate \<Rightarrow> bool" where
  "pinv s = ((\<forall>p. critical (at s p) \<longleftrightarrow> lock_owner s = Some p) \<and>
     (\<forall>p. at s p = Renaming \<longrightarrow> building s = Some (Image p True)) \<and>
     (\<forall>f. complete s = Some f \<longrightarrow> finished f))"

lemma goto_simps [simp]:
  "at (goto p l s) q = (if q = p then l else at s q)" "complete (goto p l s) = complete s"
  "building (goto p l s) = building s" "lock_owner (goto p l s) = lock_owner s"
  by (simp_all add: goto_def)

lemma pinv_init: "pinv pinit"
  by (simp add: pinv_def pinit_def)

lemma pinvD:
  assumes "pinv s"
  shows "critical (at s p) \<longleftrightarrow> lock_owner s = Some p" "at s p = Renaming \<Longrightarrow> building s = Some (Image p True)"
    "complete s = Some f \<Longrightarrow> finished f"
  using assms by (auto simp: pinv_def)

lemma pinv_alone: "pinv s \<Longrightarrow> critical (at s p) \<Longrightarrow> critical (at s q) \<Longrightarrow> q = p"
  using pinvD(1) [of s p] pinvD(1) [of s q] by simp

text \<open>A step of the owner of the lock that stays past the lock.\<close>

lemma pinv_inside:
  assumes "pinv s" "critical (at s p)" "critical l" "l = Renaming \<Longrightarrow> b = Some (Image p True)"
    "\<And>f. c = Some f \<Longrightarrow> finished f"
  shows "pinv (goto p l (s\<lparr>complete := c, building := b\<rparr>))"
proof -
  have own: "lock_owner s = Some p" using pinvD(1) [OF assms(1)] assms(2) by blast
  have "q = p" if "at s q = Renaming" for q using pinv_alone [OF assms(1,2), of q] that by simp
  then show ?thesis using assms own unfolding pinv_def by auto
qed

lemma pinv_move:
  assumes "pinv s" "critical (at s p)" "critical l" "l \<noteq> Renaming"
  shows "pinv (goto p l s)"
  using pinv_inside [OF assms(1-3), of "building s" "complete s"] assms(4) pinvD(3) [OF assms(1)] by simp

lemma pinv_clear:
  assumes "pinv s" "critical (at s p)" "critical l" "l \<noteq> Renaming"
  shows "pinv (goto p l (s\<lparr>building := None\<rparr>))"
  using pinv_inside [OF assms(1-3), of None "complete s"] assms(4) pinvD(3) [OF assms(1)] by simp

text \<open>A step of a caller that is not past the lock and does not get past it.\<close>

lemma pinv_outside:
  "pinv s \<Longrightarrow> \<not> critical (at s p) \<Longrightarrow> \<not> critical l \<Longrightarrow> pinv (goto p l s)"
  unfolding pinv_def by auto

lemma goto_self: "goto p (at s p) s = s"
  by (simp add: goto_def)

lemma pstep_pinv: "pstep s s' \<Longrightarrow> pinv s \<Longrightarrow> pinv s'"
proof (induction rule: pstep.induct)
  case (builder_writes s p)
  then show ?case
    using pinv_inside [of s p BuildStep "Some (Image p False)" "complete s"] pinvD(3) [of s] goto_self [of p "s\<lparr>building := Some (Image p False)\<rparr>"]
    by simp
next
  case (rename s p f)
  then have "f = Image p True" using pinvD(2) [of s p] by simp
  with rename show ?case using pinv_inside [of s p Metadata_step None "Some f"] by simp
next
  case (builder_finishes s p)
  then show ?case using pinv_inside [of s p Renaming "Some (Image p True)" "complete s"] pinvD(3) [of s] by simp
next
  case (acquire s p)
  then show ?case unfolding pinv_def by auto
next
  case (unlock s p b)
  then have "lock_owner s = Some p" using pinvD(1) [of s p] by simp
  with unlock show ?case unfolding pinv_def by auto
qed (simp_all add: pinv_outside pinv_move pinv_clear)

lemma env_step_pinv: "env_step s s' \<Longrightarrow> pinv s \<Longrightarrow> pinv s'"
  by (induction rule: env_step.induct) (auto simp: pinv_def split: if_splits)

lemma reachable_pinv: "reachable_p s \<Longrightarrow> pinv s"
  by (induction rule: reachable_p.induct) (auto intro: pinv_init pstep_pinv env_step_pinv)

lemma reachable_steps: "pstep\<^sup>*\<^sup>* s s' \<Longrightarrow> reachable_p s \<Longrightarrow> reachable_p s'"
  by (induction rule: rtranclp_induct) (auto intro: reachable_p.call)

section \<open>Progress\<close>

lemma pstep_star: "pstep s t \<Longrightarrow> pstep\<^sup>*\<^sup>* t u \<Longrightarrow> pstep\<^sup>*\<^sup>* s u"
  by (rule converse_rtranclp_into_rtranclp)

text \<open>The owner of the lock can always finish and release it; the other callers stay where they are.\<close>

definition can_finish :: "nat \<Rightarrow> pstate \<Rightarrow> bool" where
  "can_finish p s = (\<exists>s'. pstep\<^sup>*\<^sup>* s s' \<and> lock_owner s' = None \<and> (\<forall>q. q \<noteq> p \<longrightarrow> at s' q = at s q))"

lemma can_finish_step:
  assumes "pstep s t" "\<And>q. q \<noteq> p \<Longrightarrow> at t q = at s q" "can_finish p t"
  shows "can_finish p s"
  using assms(2,3) pstep_star [OF assms(1)] unfolding can_finish_def by metis

lemma can_finish_unlocking: "at s p = Unlocking b \<Longrightarrow> can_finish p s"
  unfolding can_finish_def
  by (intro exI [of _ "goto p (Returned b) (s\<lparr>lock_owner := None\<rparr>)"]) (auto dest: pstep.unlock)

lemma can_finish_cleanup: "at s p = Cleanup \<Longrightarrow> can_finish p s"
  by (rule can_finish_step [OF pstep.cleanup_fails]) (auto intro: can_finish_unlocking)

lemma can_finish_removing: "at s p = Removing \<Longrightarrow> can_finish p s"
  by (rule can_finish_step [OF pstep.mkdir_fails]) (auto intro: can_finish_unlocking)

lemma owner_can_finish: "critical (at s p) \<Longrightarrow> can_finish p s"
proof (cases "at s p")
  case SecondStat
  then show ?thesis by (rule can_finish_step [OF pstep.stat2_miss]) (auto intro: can_finish_removing)
next
  case BuildStep
  then show ?thesis by (rule can_finish_step [OF pstep.builder_fails]) (auto intro: can_finish_cleanup)
next
  case Renaming
  then show ?thesis by (rule can_finish_step [OF pstep.rename_fails]) (auto intro: can_finish_cleanup)
next
  case Metadata_step
  then show ?thesis by (rule can_finish_step [OF pstep.metadata]) (auto intro: can_finish_unlocking)
qed (simp_all add: can_finish_unlocking can_finish_cleanup can_finish_removing)

lemma lock_released:
  assumes "pinv s" "\<not> critical (at s p)"
  shows "\<exists>s'. pstep\<^sup>*\<^sup>* s s' \<and> lock_owner s' = None \<and> at s' p = at s p"
proof (cases "lock_owner s")
  case (Some q)
  then have "critical (at s q)" using pinvD(1) [OF assms(1)] by blast
  then have "can_finish q s" "p \<noteq> q" using owner_can_finish assms(2) by auto
  then show ?thesis unfolding can_finish_def by metis
qed auto

text \<open>With the lock, a caller can build and publish the image.\<close>

lemma holder_publishes:
  assumes "at s p = SecondStat"
  shows "\<exists>s'. pstep\<^sup>*\<^sup>* s s' \<and> at s' p = Returned True \<and> complete s' = Some (Image p True)"
proof -
  let ?t1 = "goto p Removing s"
  let ?t2 = "goto p BuildStep (?t1\<lparr>building := None\<rparr>)"
  let ?t3 = "goto p Renaming (?t2\<lparr>building := Some (Image p True)\<rparr>)"
  let ?t4 = "goto p Metadata_step (?t3\<lparr>complete := Some (Image p True), building := None\<rparr>)"
  let ?t5 = "goto p (Unlocking True) ?t4"
  let ?t6 = "goto p (Returned True) (?t5\<lparr>lock_owner := None\<rparr>)"
  have "pstep s ?t1" "pstep ?t1 ?t2" "pstep ?t2 ?t3" "pstep ?t3 ?t4" "pstep ?t4 ?t5" "pstep ?t5 ?t6"
    using assms by (auto intro: pstep.intros)
  then have "pstep\<^sup>*\<^sup>* s ?t6" by (meson pstep_star rtranclp.rtrancl_refl)
  then show ?thesis by (intro exI [of _ ?t6]) simp
qed

section \<open>Properties\<close>

text \<open>
  C4.  Mutual exclusion: at any time at most one caller is between taking and releasing the lock, it is
  the one that owns it, and whatever is at the path of the complete image is the result of a
  finished build, even if callers are killed half-way and images are deleted meanwhile.
\<close>

theorem rootfs_mutual_exclusion:
  assumes "reachable_p s"
  shows "(critical (at s p) \<longrightarrow> critical (at s q) \<longrightarrow> p = q) \<and> (critical (at s p) \<longleftrightarrow> lock_owner s = Some p) \<and>
    (\<forall>f. complete s = Some f \<longrightarrow> finished f)"
  using pinv_alone [OF reachable_pinv [OF assms], of p q] pinvD [OF reachable_pinv [OF assms]] by auto

lemma one_waits: "reachable_p (goto 1 Acquiring (goto 0 BuildStep
    (goto 0 Removing (goto 0 SecondStat ((goto 0 Acquiring pinit)\<lparr>lock_owner := Some 0\<rparr>))\<lparr>building := None\<rparr>)))"
proof -
  let ?s1 = "goto 0 Acquiring pinit"
  let ?s2 = "goto 0 SecondStat (?s1\<lparr>lock_owner := Some 0\<rparr>)"
  let ?s3 = "goto 0 Removing ?s2"
  let ?s4 = "goto 0 BuildStep (?s3\<lparr>building := None\<rparr>)"
  let ?s5 = "goto 1 Acquiring ?s4"
  have "pstep pinit ?s1" "pstep ?s1 ?s2" "pstep ?s2 ?s3" "pstep ?s3 ?s4" "pstep ?s4 ?s5"
    by (auto intro!: pstep.intros simp: pinit_def)
  then have "pstep\<^sup>*\<^sup>* pinit ?s5" by (meson pstep_star rtranclp.rtrancl_refl)
  then show ?thesis by (rule reachable_steps) (rule reachable_p.init)
qed

definition waiting_state :: pstate where
  "waiting_state = goto 1 Acquiring (goto 0 BuildStep
    (goto 0 Removing (goto 0 SecondStat ((goto 0 Acquiring pinit)\<lparr>lock_owner := Some 0\<rparr>))\<lparr>building := None\<rparr>))"

lemma waiting_state: "reachable_p waiting_state" "at waiting_state 0 = BuildStep" "at waiting_state 1 = Acquiring"
  using one_waits by (simp_all add: waiting_state_def)

theorem rootfs_mutual_exclusion_witness:
  "critical (at waiting_state 0) \<and> lock_owner waiting_state = Some 0 \<and> \<not> critical (at waiting_state 1)"
  using rootfs_mutual_exclusion [OF waiting_state(1), of 0 1] waiting_state(2) by auto

text \<open>
  The abstract specification: an image and a lock.  What a caller \<open>p\<close> may do to them: take the lock for itself when it is free, release it when
  it holds it, and while it holds it put a finished image of its own in place, in one step.
\<close>

type_synonym image_and_lock = "image_file option \<times> nat option"

inductive caller_spec :: "nat \<Rightarrow> image_and_lock \<Rightarrow> image_and_lock \<Rightarrow> bool" for p where
  stutter: "caller_spec p a a"
| take: "caller_spec p (img, None) (img, Some p)"
| release: "caller_spec p (img, Some p) (img, None)"
| publish: "caller_spec p (img, Some p) (Some (Image p True), Some p)"

text \<open>What crashes and deletions may do: nothing, free the lock of a caller that died, or withdraw the image.\<close>

inductive env_spec :: "image_and_lock \<Rightarrow> image_and_lock \<Rightarrow> bool" where
  unseen: "env_spec a a"
| lost: "env_spec (img, Some p) (img, None)"
| withdraw: "env_spec (img, h) (None, h)"

inductive_simps caller_spec_simps: "caller_spec p (a, b) (c, d)"
inductive_simps env_spec_simps: "env_spec (a, b) (c, d)"

definition abs_p :: "pstate \<Rightarrow> image_and_lock" where
  "abs_p s = (complete s, lock_owner s)"

definition moves_only :: "nat \<Rightarrow> pstate \<Rightarrow> pstate \<Rightarrow> bool" where
  "moves_only p s s' = (\<forall>q. q \<noteq> p \<longrightarrow> at s' q = at s q)"

lemma pstep_refines: "pstep s s' \<Longrightarrow> pinv s \<Longrightarrow> \<exists>p. moves_only p s s' \<and> caller_spec p (abs_p s) (abs_p s')"
proof (induction rule: pstep.induct)
  case (acquire s p)
  then show ?case by (intro exI [of _ p]) (simp add: abs_p_def moves_only_def caller_spec.take)
next
  case (rename s p f)
  then have "f = Image p True" "lock_owner s = Some p" using pinvD(1,2) [of s p] by auto
  then show ?case by (intro exI [of _ p]) (simp add: abs_p_def moves_only_def caller_spec.publish)
next
  case (unlock s p b)
  then have "lock_owner s = Some p" using pinvD(1) [of s p] by simp
  then show ?case by (intro exI [of _ p]) (simp add: abs_p_def moves_only_def caller_spec.release)
qed (auto simp: abs_p_def moves_only_def intro: caller_spec.stutter)

lemma env_step_refines: "env_step s s' \<Longrightarrow> env_spec (abs_p s) (abs_p s')"
  by (induction rule: env_step.induct) (auto simp: abs_p_def intro: env_spec.intros)

text \<open>
  C11.  The interleaved calls refine that specification.  Every step of the callers is a step of one of them, which does to the image and the
  lock at most what it may: it takes the lock when it is free, releases its own, or, holding it, puts the finished image of its own build in
  place.  Every crash and every deletion at most frees the lock or withdraws the image.
\<close>

theorem rootfs_refines_image_spec:
  assumes "reachable_p s"
  shows "(pstep s s' \<longrightarrow> (\<exists>p. moves_only p s s' \<and> caller_spec p (abs_p s) (abs_p s'))) \<and>
    (env_step s s' \<longrightarrow> env_spec (abs_p s) (abs_p s'))"
  using pstep_refines [OF _ reachable_pinv [OF assms]] env_step_refines by blast

text \<open>The caller that holds the lock publishes, and the other one, which waits, does not move.\<close>

definition renaming_state :: pstate where
  "renaming_state = goto 0 Renaming (waiting_state\<lparr>building := Some (Image 0 True)\<rparr>)"

lemma renaming_state: "reachable_p renaming_state" "at renaming_state 0 = Renaming" "building renaming_state = Some (Image 0 True)"
  "complete renaming_state = None" "lock_owner renaming_state = Some 0"
proof -
  show "reachable_p renaming_state" unfolding renaming_state_def
    by (rule reachable_p.call [OF waiting_state(1)]) (rule pstep.builder_finishes, rule waiting_state(2))
qed (simp_all add: renaming_state_def waiting_state_def pinit_def)

theorem rootfs_refines_image_spec_witness:
  "caller_spec 0 (None, Some 0) (Some (Image 0 True), Some 0)"
proof -
  let ?t = "goto 0 Metadata_step (renaming_state\<lparr>complete := Some (Image 0 True), building := None\<rparr>)"
  have "pstep renaming_state ?t" using renaming_state(2,3) by (rule pstep.rename)
  then obtain p where p: "moves_only p renaming_state ?t" "caller_spec p (abs_p renaming_state) (abs_p ?t)"
    using rootfs_refines_image_spec [OF renaming_state(1)] by blast
  have "at ?t 0 \<noteq> at renaming_state 0" using renaming_state(2) by simp
  then have "p = 0" using p(1) by (auto simp: moves_only_def)
  with p(2) show ?thesis using renaming_state(4,5) by (simp add: abs_p_def)
qed

text \<open>
  C25.  No caller is locked out: from every reachable state, a caller that has not got the lock yet
  can still return with success and with the image in place, by steps of the callers alone.
\<close>

theorem waiting_caller_can_succeed:
  assumes "reachable_p s" "at s p \<in> {FirstStat, Acquiring}"
  shows "\<exists>s'. pstep\<^sup>*\<^sup>* s s' \<and> at s' p = Returned True \<and> complete s' = Some (Image p True)"
proof -
  have nc: "\<not> critical (at s p)" using assms(2) by auto
  obtain t where t: "pstep\<^sup>*\<^sup>* s t" "lock_owner t = None" "at t p = at s p"
    using lock_released [OF reachable_pinv [OF assms(1)] nc] by blast
  have acq: "\<exists>s'. pstep\<^sup>*\<^sup>* u s' \<and> at s' p = Returned True \<and> complete s' = Some (Image p True)"
    if "at u p = Acquiring" "lock_owner u = None" for u
    using holder_publishes [of "goto p SecondStat (u\<lparr>lock_owner := Some p\<rparr>)" p] pstep_star [OF pstep.acquire [OF that]] by auto
  have "\<exists>s'. pstep\<^sup>*\<^sup>* t s' \<and> at s' p = Returned True \<and> complete s' = Some (Image p True)"
  proof (cases "at t p = Acquiring")
    case False
    then have "at t p = FirstStat" using t(3) assms(2) by auto
    then show ?thesis using acq [of "goto p Acquiring t"] t(2) pstep_star [OF pstep.stat1_miss] by auto
  qed (use acq t(2) in blast)
  then show ?thesis using t(1) by (meson rtranclp_trans)
qed

theorem waiting_caller_can_succeed_witness:
  "\<exists>s'. pstep\<^sup>*\<^sup>* waiting_state s' \<and> at s' 1 = Returned True \<and> complete s' = Some (Image 1 True)"
  by (rule waiting_caller_can_succeed [OF waiting_state(1)]) (use waiting_state(3) in simp)

end
