(* ===== verification/ImageRuntime.thy ===== *)
theory ImageRuntime
  imports RootfsStore
begin

text \<open>
  Preparing an image (\<open>internal/runtime/runtime.go\<close>): answer from the cache when reference, manifest,
  configuration and root file system are all in the store, otherwise pull and build.  What the
  runtime uses from outside is collected in one record: registry client, JSON codecs, image
  builder and the answers of the lock.
\<close>

record PreparedImage =
  pp_ImageRef :: string
  pp_ManifestDigest :: string
  pp_ChainID :: string
  pp_RootfsPath :: string
  pp_OCIConfigPath :: string
  pp_CacheHit :: bool

record 'ref runtime_env =
  env_registry :: "'ref registry"
  env_json :: json_codec
  env_builder :: image_builder
  env_encMeta :: "Metadata \<Rightarrow> string option"
  env_decManifest :: "string \<Rightarrow> string option"
  env_lock :: lock_env

datatype prepare_error =
    ImageRefRequired
  | PrepareInit store_error
  | PreparePull pull_error
  | PrepareRootfs rootfs_error

datatype cache_error =
    CacheStore store_error
  | PlatformMismatch
  | NoConfigDigest
  | CacheOs errno
  | CacheDecode
  | CacheChain rootfs_error

text \<open>The manifest decoder delivers \<open>manifest.Config.Digest\<close>, the empty string when it is missing.\<close>

definition preparedFromCache :: "'ref runtime_env \<Rightarrow> string \<Rightarrow> string \<Rightarrow> Platform \<Rightarrow> (cache_error, PreparedImage) io" where
  "preparedFromCache env Dir0 ref platform =
     andThen (wrap CacheStore (ReadJSON (dec_Ref (env_json env)) (RefPath Dir0 ref))) (\<lambda>refMeta.
     if OS (rm_Platform refMeta) \<noteq> OS platform \<or> Architecture (rm_Platform refMeta) \<noteq> Architecture platform
     then throw PlatformMismatch
     else
       andThen (wrap CacheStore (ReadJSON (env_decManifest env) (ManifestPath Dir0 (rm_ManifestDigest refMeta)))) (\<lambda>configDigest.
       if configDigest = '''' then throw NoConfigDigest
       else
         let configPath = ConfigPath Dir0 configDigest in
         andThen (wrap CacheOs (ReadFile configPath)) (\<lambda>configBytes.
         case dec_Image (env_json env) configBytes of
           None \<Rightarrow> throw CacheDecode
         | Some imageConfig \<Rightarrow>
             (case ComputeChainID (rf_DiffIDs (ic_RootFS imageConfig)) of
                Inl e \<Rightarrow> throw (CacheChain e)
              | Inr chainID \<Rightarrow>
                  let rootfsPath = RootfsPath Dir0 chainID in
                  andThen (wrap CacheOs (Stat rootfsPath)) (\<lambda>_.
                  ret \<lparr>pp_ImageRef = ref, pp_ManifestDigest = rm_ManifestDigest refMeta, pp_ChainID = chainID,
                       pp_RootfsPath = rootfsPath, pp_OCIConfigPath = configPath, pp_CacheHit = True\<rparr>)))))"

definition pullAndBuild :: "'ref runtime_env \<Rightarrow> string \<Rightarrow> string \<Rightarrow> Platform \<Rightarrow> os \<Rightarrow> ((prepare_error + PreparedImage) \<times> os) option" where
  "pullAndBuild env Dir0 ref platform s =
     (case Pull (env_registry env) (env_json env) Dir0 ref platform s of
        (Inl e, s1) \<Rightarrow> Some (Inl (PreparePull e), s1)
      | (Inr pulled, s1) \<Rightarrow>
          (case EnsureRootfs (env_builder env) (env_encMeta env) (env_lock env) Dir0 pulled s1 of
             None \<Rightarrow> None
           | Some (Inl e, s2) \<Rightarrow> Some (Inl (PrepareRootfs e), s2)
           | Some (Inr rootfs, s2) \<Rightarrow> Some (Inr
               \<lparr>pp_ImageRef = ref, pp_ManifestDigest = pi_ManifestDigest pulled, pp_ChainID = rs_ChainID rootfs,
                pp_RootfsPath = rs_Path rootfs, pp_OCIConfigPath = ConfigPath Dir0 (pi_ConfigDigest pulled),
                pp_CacheHit = False\<rparr>, s2)))"

definition PrepareImage :: "'ref runtime_env \<Rightarrow> Config \<Rightarrow> string \<Rightarrow> Platform \<Rightarrow> os \<Rightarrow> ((prepare_error + PreparedImage) \<times> os) option" where
  "PrepareImage env cfg ref platform0 s =
     (if ref = '''' then Some (Inl ImageRefRequired, s)
      else
        let platform = platform0\<lparr>OS := orString (OS platform0) (OS (cfg_Platform cfg)),
              Architecture := orString (Architecture platform0) (Architecture (cfg_Platform cfg))\<rparr>;
            Dir0 = StoreDir cfg in
        case Init Dir0 s of
          (Inl e, s1) \<Rightarrow> Some (Inl (PrepareInit e), s1)
        | (Inr u, s1) \<Rightarrow>
            (case preparedFromCache env Dir0 ref platform s1 of
               (Inr prepared, s2) \<Rightarrow> Some (Inr prepared, s2)
             | (Inl e, s2) \<Rightarrow> pullAndBuild env Dir0 ref platform s2))"

section \<open>What a prepared image is\<close>

text \<open>The paths of a prepared image are those of its own chain ID, inside the store.\<close>

definition wf_prepared :: "string \<Rightarrow> string \<Rightarrow> PreparedImage \<Rightarrow> bool" where
  "wf_prepared dir ref p = (pp_ImageRef p = ref \<and> pp_RootfsPath p = RootfsPath dir (pp_ChainID p) \<and>
     (\<exists>d. pp_OCIConfigPath p = ConfigPath dir d) \<and> blobname (snd (splitDigest (pp_ChainID p))) \<and>
     HasPrefix (pp_ChainID p) ''sha256:'')"

lemma ComputeChainID_digest: "ComputeChainID ds = Inr c \<Longrightarrow> blobname (snd (splitDigest c)) \<and> HasPrefix c ''sha256:''"
  unfolding ComputeChainID_def
  by (auto simp: splitDigest_sha256 [simplified] blobname_digest HasPrefix_def split: if_splits option.splits)

lemma preparedFromCache_wf:
  "valid (\<lambda>_. True) (preparedFromCache env dir ref platform) (\<lambda>p s. wf_prepared dir ref p \<and> pp_CacheHit p) (\<lambda>_. True)"
proof (rule validI)
  fix s p s' assume "preparedFromCache env dir ref platform s = (Inr p, s')"
  then show "wf_prepared dir ref p \<and> pp_CacheHit p"
    unfolding preparedFromCache_def andThen_def wrap_def throw_def ret_def Let_def
    by (auto simp: wf_prepared_def dest!: ComputeChainID_digest split: prod.splits sum.splits option.splits if_splits)
qed simp

lemma EnsureRootfs_chain:
  assumes "EnsureRootfs b enc env dir img s = Some (Inr rf, s')"
  shows "ComputeChainID (rf_DiffIDs (ic_RootFS (pi_Config img))) = Inr (rs_ChainID rf) \<and> rs_Path rf = RootfsPath dir (rs_ChainID rf)"
  using assms unfolding EnsureRootfs_def Let_def by (auto split: prod.splits sum.splits option.splits)

lemma pullAndBuild_wf:
  assumes "pullAndBuild env dir ref platform s = Some (Inr p, s')"
  shows "wf_prepared dir ref p \<and> \<not> pp_CacheHit p"
proof -
  obtain pulled s1 rf s2 where e: "EnsureRootfs (env_builder env) (env_encMeta env) (env_lock env) dir pulled s1 = Some (Inr rf, s2)"
    and p: "p = \<lparr>pp_ImageRef = ref, pp_ManifestDigest = pi_ManifestDigest pulled, pp_ChainID = rs_ChainID rf,
                pp_RootfsPath = rs_Path rf, pp_OCIConfigPath = ConfigPath dir (pi_ConfigDigest pulled), pp_CacheHit = False\<rparr>"
    using assms unfolding pullAndBuild_def by (auto split: prod.splits sum.splits option.splits)
  then show ?thesis using EnsureRootfs_chain [OF e] ComputeChainID_digest by (auto simp: wf_prepared_def)
qed

lemma PrepareImage_cases:
  "case PrepareImage env cfg ref platform s of
     Some (Inr p, s') \<Rightarrow> ref \<noteq> '''' \<and> wf_prepared (StoreDir cfg) ref p
   | Some (Inl e, s') \<Rightarrow> (e = ImageRefRequired) = (ref = '''')
   | None \<Rightarrow> ref \<noteq> ''''"
proof (cases "ref = ''''")
  case True
  then show ?thesis by (simp add: PrepareImage_def)
next
  case False
  have built: "case pullAndBuild env dir ref pl t of Some (Inr p, t') \<Rightarrow> wf_prepared dir ref p
      | Some (Inl e, t') \<Rightarrow> e \<noteq> ImageRefRequired | None \<Rightarrow> True" for dir pl t
    using pullAndBuild_wf [of env dir ref pl t]
    by (auto simp: pullAndBuild_def split: prod.splits sum.splits option.splits)
  let ?pl = "platform\<lparr>OS := orString (OS platform) (OS (cfg_Platform cfg)),
              Architecture := orString (Architecture platform) (Architecture (cfg_Platform cfg))\<rparr>"
  obtain r1 s1 where i: "Init (StoreDir cfg) s = (r1, s1)" by fastforce
  show ?thesis
  proof (cases r1)
    case (Inl e)
    then show ?thesis using False i by (simp add: PrepareImage_def Let_def)
  next
    case (Inr u)
    obtain r2 s2 where c: "preparedFromCache env (StoreDir cfg) ref ?pl s1 = (r2, s2)" by fastforce
    show ?thesis
    proof (cases r2)
      case (Inr p)
      then have "wf_prepared (StoreDir cfg) ref p" using valid_Inr [OF preparedFromCache_wf _ c [unfolded Inr]] by simp
      then show ?thesis using False i \<open>r1 = Inr u\<close> c Inr by (simp add: PrepareImage_def Let_def)
    next
      case (Inl e)
      then show ?thesis
        using False i \<open>r1 = Inr u\<close> c built [of "StoreDir cfg" ?pl s2]
        by (simp add: PrepareImage_def Let_def split: option.splits prod.splits sum.splits)
    qed
  qed
qed

lemma PrepareImage_prepared:
  "PrepareImage env cfg ref platform s = Some (Inr p, s') \<Longrightarrow> wf_prepared (StoreDir cfg) ref p \<and> ref \<noteq> ''''"
  using PrepareImage_cases [where env = env and cfg = cfg and ref = ref and platform = platform and s = s] by simp

section \<open>Properties\<close>


definition retag :: "string \<Rightarrow> (cache_error + PreparedImage) \<times> os \<Rightarrow> (cache_error + PreparedImage) \<times> os" where
  "retag ref r = (map_sum id (\<lambda>p. p\<lparr>pp_ImageRef := ref\<rparr>) (fst r), snd r)"

lemma RefPath_escape: "EscapeRef ref = EscapeRef ref' \<Longrightarrow> RefPath dir ref = RefPath dir ref'"
  by (simp add: RefPath_def)

text \<open>
  C34.  References that differ only in the characters that \<open>EscapeRef\<close> replaces share their
  cache entry: the answer for one of them is the image of the other, under the requested name.
  The stored reference is never compared.
\<close>

theorem cached_ref_confusion:
  assumes "EscapeRef ref = EscapeRef ref'"
  shows "preparedFromCache env dir ref' platform s = retag ref' (preparedFromCache env dir ref platform s)"
  unfolding preparedFromCache_def RefPath_escape [OF assms] retag_def andThen_def wrap_def throw_def ret_def Let_def
  by (auto split: prod.splits sum.splits option.splits)

theorem cached_ref_confusion_witness:
  "\<forall>(env :: unit runtime_env) platform s. preparedFromCache env ''/var/s'' ''team_app_1'' platform s =
     retag ''team_app_1'' (preparedFromCache env ''/var/s'' ''team/app:1'' platform s)"
proof (intro allI)
  fix env :: "unit runtime_env" and platform s
  have "EscapeRef ''team/app:1'' = EscapeRef ''team_app_1''" by code_simp
  then show "preparedFromCache env ''/var/s'' ''team_app_1'' platform s =
     retag ''team_app_1'' (preparedFromCache env ''/var/s'' ''team/app:1'' platform s)"
    by (rule cached_ref_confusion)
qed

end
