(* ===== verification/GoBase64.thy ===== *)
theory GoBase64
  imports Prelude
begin

text \<open>
  \<open>base64.StdEncoding\<close>, which carries file contents and captured output through the job
  API: the padded RFC 4648 alphabet.  \<open>DecodeString\<close> skips line breaks, wants the padding,
  and does not look at the unused low bits of the last group.
\<close>

definition alphabet :: string where
  "alphabet = ''ABCDEFGHIJKLMNOPQRSTUVWXYZabcdefghijklmnopqrstuvwxyz0123456789+/''"

definition sym :: "nat \<Rightarrow> char" where
  "sym k = alphabet ! k"

fun index_of :: "char \<Rightarrow> string \<Rightarrow> nat \<Rightarrow> nat option" where
  "index_of c [] k = None"
| "index_of c (x # xs) k = (if x = c then Some k else index_of c xs (Suc k))"

definition digit :: "char \<Rightarrow> nat option" where
  "digit c = index_of c alphabet 0"

definition byte :: "char \<Rightarrow> nat" where
  "byte c = of_char c"

definition chr :: "nat \<Rightarrow> char" where
  "chr n = char_of n"

fun EncodeToString :: "string \<Rightarrow> string" where
  "EncodeToString [] = []"
| "EncodeToString [a] =
     [sym (byte a div 4), sym (byte a mod 4 * 16), CHR ''='', CHR ''='']"
| "EncodeToString [a, b] =
     [sym (byte a div 4), sym (byte a mod 4 * 16 + byte b div 16), sym (byte b mod 16 * 4), CHR ''='']"
| "EncodeToString (a # b # c # rest) =
     [sym (byte a div 4), sym (byte a mod 4 * 16 + byte b div 16),
      sym (byte b mod 16 * 4 + byte c div 64), sym (byte c mod 64)] @ EncodeToString rest"

text \<open>One group of four symbols; \<open>None\<close> is \<open>CorruptInputError\<close>.\<close>

definition quantum :: "char \<Rightarrow> char \<Rightarrow> char \<Rightarrow> char \<Rightarrow> string option" where
  "quantum a b c d =
     (case (digit a, digit b, digit c, digit d) of
        (Some w, Some x, Some y, Some z) \<Rightarrow>
          Some [chr (w * 4 + x div 16), chr (x mod 16 * 16 + y div 4), chr (y mod 4 * 64 + z)]
      | _ \<Rightarrow> None)"

definition last_quantum :: "char \<Rightarrow> char \<Rightarrow> char \<Rightarrow> string option" where
  "last_quantum a b c =
     (case (digit a, digit b) of
        (Some w, Some x) \<Rightarrow>
          if c = CHR ''='' then Some [chr (w * 4 + x div 16)]
          else (case digit c of
                  Some y \<Rightarrow> Some [chr (w * 4 + x div 16), chr (x mod 16 * 16 + y div 4)]
                | None \<Rightarrow> None)
      | _ \<Rightarrow> None)"

fun decode_groups :: "string \<Rightarrow> string option" where
  "decode_groups [] = Some []"
| "decode_groups (a # b # c # d # rest) =
     (if d = CHR ''='' then (if rest = [] then last_quantum a b c else None)
      else (case quantum a b c d of
              None \<Rightarrow> None
            | Some xs \<Rightarrow> map_option (\<lambda>ys. xs @ ys) (decode_groups rest)))"
| "decode_groups _ = None"

definition DecodeString :: "string \<Rightarrow> string option" where
  "DecodeString s = decode_groups (filter (\<lambda>c. c \<noteq> CHR 0x0A \<and> c \<noteq> CHR 0x0D) s)"

section \<open>Round trip\<close>

lemma byte_less: "byte c < 256"
  by (simp add: byte_def)

lemma chr_byte [simp]: "chr (byte c) = c"
  by (simp add: chr_def byte_def)

lemma alphabet_length: "length alphabet = 64"
  by (simp add: alphabet_def)

lemma sym_table:
  "list_all (\<lambda>k. digit (sym k) = Some k \<and> sym k \<noteq> CHR ''='' \<and> sym k \<noteq> CHR 0x0A \<and> sym k \<noteq> CHR 0x0D)
     [0..<64]"
  by code_simp

lemma digit_sym [simp]: "k < 64 \<Longrightarrow> digit (sym k) = Some k"
  and sym_not_special [simp]: "k < 64 \<Longrightarrow> sym k \<noteq> CHR ''=''"
    "k < 64 \<Longrightarrow> sym k \<noteq> CHR 0x0A" "k < 64 \<Longrightarrow> sym k \<noteq> CHR 0x0D"
  using sym_table by (simp_all add: list_all_iff)

lemma group_bounds [simp]:
  "byte a div 4 < 64" "byte a mod 4 * 16 < 64" "byte a mod 4 * 16 + byte b div 16 < 64"
  "byte b mod 16 * 4 < 64" "byte b mod 16 * 4 + byte c div 64 < 64" "byte c mod 64 < 64"
  using byte_less [of a] byte_less [of b] byte_less [of c] by auto

lemma high_bits: "byte b div 16 < 16" "byte c div 64 < 4"
  using byte_less [of b] byte_less [of c] by auto

lemma high_bits_simps [simp]:
  "byte b div 16 div 16 = 0" "byte b div 16 mod 16 = byte b div 16"
  "byte c div 64 div 4 = 0" "byte c div 64 mod 4 = byte c div 64"
  using high_bits(1) [of b] high_bits(2) [of c] by (simp_all only: div_less mod_less)

lemma decode_encode_groups: "decode_groups (EncodeToString bs) = Some bs"
  by (induction bs rule: EncodeToString.induct)
    (simp_all add: quantum_def last_quantum_def)

lemma encode_no_breaks:
  "filter (\<lambda>c. c \<noteq> CHR 0x0A \<and> c \<noteq> CHR 0x0D) (EncodeToString bs) = EncodeToString bs"
  by (induction bs rule: EncodeToString.induct) simp_all

lemma decode_encode: "DecodeString (EncodeToString bs) = Some bs"
  by (simp add: DecodeString_def encode_no_breaks decode_encode_groups)

section \<open>Lengths\<close>

lemma length_EncodeToString: "length (EncodeToString bs) = (length bs + 2) div 3 * 4"
proof (induction bs rule: EncodeToString.induct)
  case (4 a b c rest)
  have "(length (a # b # c # rest) + 2) div 3 = Suc ((length rest + 2) div 3)"
    using div_add_self1 [of 3 "length rest + 2"] by (simp add: add.commute)
  with 4 show ?case by simp
qed simp_all

lemma quantum_length: "quantum a b c d = Some xs \<Longrightarrow> length xs = 3"
  by (auto simp: quantum_def split: option.splits)

lemma last_quantum_length: "last_quantum a b c = Some xs \<Longrightarrow> length xs \<le> 3"
  by (auto simp: last_quantum_def split: option.splits if_splits)

lemma decode_groups_length: "decode_groups s = Some bs \<Longrightarrow> length bs \<le> length s div 4 * 3"
proof (induction s arbitrary: bs rule: decode_groups.induct)
  case (2 a b c d rest)
  have len: "length (a # b # c # d # rest) div 4 = Suc (length rest div 4)"
    using div_add_self1 [of 4 "length rest"] by (simp add: add.commute)
  show ?case
  proof (cases "d = CHR ''=''")
    case True
    with 2 have "last_quantum a b c = Some bs" "rest = []" by (auto split: if_splits)
    then show ?thesis using last_quantum_length by simp
  next
    case False
    with 2 obtain xs ys where q: "quantum a b c d = Some xs" and r: "decode_groups rest = Some ys"
      and "bs = xs @ ys" by (auto split: option.splits)
    moreover have "length ys \<le> length rest div 4 * 3" using "2.IH" [OF False q r] .
    ultimately show ?thesis using len quantum_length [OF q] by simp
  qed
qed auto

end
