(* ===== verification/AgentApi.thy ===== *)
theory AgentApi
  imports PosixFS GoBase64
begin

text \<open>
  The types the host and the guest agent share (\<open>internal/agentapi/api.go\<close>).  A Go pointer
  that may be nil is an option.  A result's error text is the error value itself, \<open>None\<close>
  for the empty string: the wording of messages is not modelled.
\<close>

definition Version :: int where "Version = 1"
definition JobMkdir :: string where "JobMkdir = ''mkdir''"
definition JobWriteFile :: string where "JobWriteFile = ''write_file''"
definition JobExec :: string where "JobExec = ''exec''"

text \<open>Every error the agent puts in a result, with the data its message carries.\<close>

datatype agent_error =
    UnsupportedVersion int
  | WorkspaceNotAbsolute
  | WorkspaceNotAllowed string
  | CreateWorkspace errno
  | JobsEmpty
  | UnsupportedJob string
  | PathEmpty
  | PathNotAbsolute string
  | RelError
  | PathEscapes string
  | SetidBits
  | UnsafeParent string errno
  | SymlinkParent string
  | MkdirFailed errno
  | ChownFailed errno
  | BadBase64
  | FileTooBig
  | UploadTooBig
  | CreateParentsFailed errno
  | OverwriteSymlink string
  | OpenFailed errno
  | WriteFailed errno
  | CloseFailed errno
  | ChmodFailed errno
  | ArgvEmpty
  | BadWorkingDir
  | CredentialsNotRoot
  | ExecFailed

record JobDefaults =
  d_UID :: "int option"
  d_GID :: "int option"
  d_Env :: "string list"
  d_TimeoutMillis :: int
  d_MaxOutputBytes :: int

record Job =
  j_Type :: string
  j_Path :: string
  j_Mode :: uint32
  j_ContentsBase64 :: string
  j_CreateParents :: bool
  j_Argv :: "string list"
  j_Env :: "string list"
  j_WorkingDir :: string
  j_UID :: "int option"
  j_GID :: "int option"
  j_TimeoutMillis :: int
  j_MaxOutputBytes :: int

record BatchRequest =
  b_Version :: int
  b_Workspace :: string
  b_Defaults :: JobDefaults
  b_Jobs :: "Job list"
  b_Shutdown :: bool

record JobResult =
  r_Type :: string
  r_OK :: bool
  r_Error :: "agent_error option"
  r_ExitCode :: int
  r_TimedOut :: bool
  r_StdoutBase64 :: string
  r_StderrBase64 :: string

type_synonym BatchResponse = "JobResult list"

text \<open>A job with every field at Go's zero value, and the empty defaults.\<close>

definition zero_job :: Job where
  "zero_job = \<lparr>j_Type = '''', j_Path = '''', j_Mode = 0, j_ContentsBase64 = '''',
     j_CreateParents = False, j_Argv = [], j_Env = [], j_WorkingDir = '''', j_UID = None,
     j_GID = None, j_TimeoutMillis = 0, j_MaxOutputBytes = 0\<rparr>"

definition zero_defaults :: JobDefaults where
  "zero_defaults = \<lparr>d_UID = None, d_GID = None, d_Env = [], d_TimeoutMillis = 0, d_MaxOutputBytes = 0\<rparr>"

end
