(* ===== verification/ServeMux.thy ===== *)
theory ServeMux
  imports GoPath
begin

text \<open>
  The request router of package \<open>net/http\<close>, as far as the two HTTP servers use it: a table of
  methods and path patterns.  A segment in braces matches one segment that is not empty and is passed to the handler;
  \<open>GET\<close> also serves \<open>HEAD\<close>.  Paths are taken as clean: the router redirects others to their clean form.
\<close>

datatype 'op routing = Routed 'op "string list" | MethodNotAllowed | NoRoute

definition wildcard :: "string \<Rightarrow> bool" where
  "wildcard seg = HasPrefix seg ''{''"

fun matchSegs :: "string list \<Rightarrow> string list \<Rightarrow> string list option" where
  "matchSegs [] [] = Some []"
| "matchSegs (p # ps) (s # ss) =
     (if wildcard p then (if s = '''' then None else map_option (\<lambda>vs. s # vs) (matchSegs ps ss))
      else if p = s then matchSegs ps ss else None)"
| "matchSegs _ _ = None"

definition methodMatches :: "string \<Rightarrow> string \<Rightarrow> bool" where
  "methodMatches pat m = (m = pat \<or> pat = ''GET'' \<and> m = ''HEAD'')"

definition matches :: "string \<Rightarrow> ('op \<times> string \<times> string) \<Rightarrow> bool" where
  "matches path r = (matchSegs (Split slash (snd (snd r))) (Split slash path) \<noteq> None)"

definition mux :: "('op \<times> string \<times> string) list \<Rightarrow> string \<Rightarrow> string \<Rightarrow> 'op routing" where
  "mux routes meth path =
     (case filter (\<lambda>r. matches path r \<and> methodMatches (fst (snd r)) meth) routes of
        r # _ \<Rightarrow> Routed (fst r) (the (matchSegs (Split slash (snd (snd r))) (Split slash path)))
      | [] \<Rightarrow> if list_ex (matches path) routes then MethodNotAllowed else NoRoute)"

text \<open>
  A table whose routes never match the same request does not depend on its order: the router picks the
  only one.
\<close>

definition unambiguous :: "('op \<times> string \<times> string) list \<Rightarrow> bool" where
  "unambiguous routes = (\<forall>meth path. length (filter (\<lambda>r. matches path r \<and> methodMatches (fst (snd r)) meth) routes) \<le> 1)"

lemma mux_sound:
  "mux routes meth path = Routed op vs \<Longrightarrow>
    \<exists>m pat. (op, m, pat) \<in> set routes \<and> methodMatches m meth \<and> matchSegs (Split slash pat) (Split slash path) = Some vs"
proof -
  assume a: "mux routes meth path = Routed op vs"
  obtain r rs where f: "filter (\<lambda>r. matches path r \<and> methodMatches (fst (snd r)) meth) routes = r # rs"
    using a by (auto simp: mux_def split: list.splits if_splits)
  then have "r \<in> set (filter (\<lambda>r. matches path r \<and> methodMatches (fst (snd r)) meth) routes)" by simp
  then have "r \<in> set routes" "matches path r" "methodMatches (fst (snd r)) meth" by auto
  moreover have "op = fst r" "vs = the (matchSegs (Split slash (snd (snd r))) (Split slash path))"
    using a by (simp_all add: mux_def f)
  ultimately show ?thesis by (metis matches_def option.collapse prod.collapse)
qed

lemma mux_complete:
  assumes "unambiguous routes" "(op, m, pat) \<in> set routes" "methodMatches m meth"
    and "matchSegs (Split slash pat) (Split slash path) = Some vs"
  shows "mux routes meth path = Routed op vs"
proof -
  let ?fs = "filter (\<lambda>r. matches path r \<and> methodMatches (fst (snd r)) meth) routes"
  have "(op, m, pat) \<in> set ?fs" using assms by (simp add: matches_def)
  moreover have "length ?fs \<le> 1" using assms(1) by (simp add: unambiguous_def)
  ultimately have "?fs = [(op, m, pat)]" by (cases ?fs) auto
  then show ?thesis using assms(4) by (simp add: mux_def)
qed

lemma matchSegs_length: "matchSegs ps ss = Some vs \<Longrightarrow> length ps = length ss"
  by (induction ps ss arbitrary: vs rule: matchSegs.induct) (auto split: if_splits)

text \<open>Patterns of different lengths, or with different fixed segments in one place, do not match the same path.\<close>

fun apart :: "string list \<Rightarrow> string list \<Rightarrow> bool" where
  "apart [] [] = False"
| "apart (p # ps) (q # qs) = (\<not> wildcard p \<and> \<not> wildcard q \<and> p \<noteq> q \<or> apart ps qs)"
| "apart _ _ = True"

lemma apart_no_match: "apart ps qs \<Longrightarrow> matchSegs ps ss = Some vs \<Longrightarrow> matchSegs qs ss = None"
  by (induction ps qs arbitrary: ss vs rule: apart.induct; case_tac ss) (auto split: if_splits)

lemma apart_pairs_unambiguous:
  assumes "sorted_wrt (\<lambda>r r'. apart (Split slash (snd (snd r))) (Split slash (snd (snd r'))) \<or>
      (fst (snd r) \<noteq> fst (snd r') \<and> fst (snd r) \<noteq> ''HEAD'' \<and> fst (snd r') \<noteq> ''HEAD'')) routes"
  shows "unambiguous routes"
proof -
  have "length (filter (\<lambda>r. matches path r \<and> methodMatches (fst (snd r)) meth) routes) \<le> 1" for meth path
    using assms
  proof (induction routes)
    case (Cons r rs)
    show ?case
    proof (cases "matches path r \<and> methodMatches (fst (snd r)) meth")
      case True
      have "\<not> (matches path r' \<and> methodMatches (fst (snd r')) meth)" if "r' \<in> set rs" for r'
        using True that Cons.prems apart_no_match by (fastforce simp: matches_def methodMatches_def)
      then have "filter (\<lambda>r. matches path r \<and> methodMatches (fst (snd r)) meth) rs = []" by (auto simp: filter_empty_conv)
      then show ?thesis by simp
    qed (use Cons in auto)
  qed simp
  then show ?thesis by (simp add: unambiguous_def)
qed

end
