(* ===== verification/AgentServer.thy ===== *)
theory AgentServer
  imports AgentApi PosixLogic ServeMux
begin

text \<open>
  The guest agent's job server (\<open>internal/agentserver/server.go\<close>): configuration defaults,
  the one-shot \<open>POST /jobs\<close> handler, the batch loop, and the three jobs \<open>mkdir\<close>,
  \<open>write_file\<close> and \<open>exec\<close> over the guest file system.

  Two things the agent calls are parameters: \<open>json_first\<close>, the first JSON document of a
  request body decoded with unknown fields disallowed (\<open>None\<close> when that fails), with what
  follows it; and \<open>run\<close>, the effect of running a command and of killing a process group,
  which may change the file system in any way.  The theorems say which file-system objects a job can change, that a batch
  stops at its first failing job, that the endpoint runs one batch only, and that captured
  output and uploads respect the configured limits.
\<close>

section \<open>Configuration\<close>

record Config =
  c_Workspace :: string
  c_MaxBodyBytes :: int
  c_MaxFileBytes :: int
  c_MaxOutputBytes :: int
  c_DefaultTimeout :: int
  c_DefaultUID :: int
  c_DefaultGID :: int
  c_HasShutdown :: bool
  c_ShutdownAfterJobs :: bool

record Server =
  s_cfg :: Config
  s_usedJobs :: bool

definition DefaultWorkspace :: string where "DefaultWorkspace = ''/workspace''"
definition DefaultMaxBodyBytes :: int where "DefaultMaxBodyBytes = 16 * 2 ^ 20"
definition DefaultMaxFileBytes :: int where "DefaultMaxFileBytes = 8 * 2 ^ 20"
definition DefaultMaxOutputBytes :: int where "DefaultMaxOutputBytes = 2 ^ 20"
definition DefaultTimeout :: int where "DefaultTimeout = 30 * second"

definition New :: "os \<Rightarrow> Config \<Rightarrow> Server" where
  "New s cfg =
     (let cfg = (if c_Workspace cfg = '''' then cfg\<lparr>c_Workspace := DefaultWorkspace\<rparr> else cfg);
          cfg = (if c_MaxBodyBytes cfg \<le> 0 then cfg\<lparr>c_MaxBodyBytes := DefaultMaxBodyBytes\<rparr> else cfg);
          cfg = (if c_MaxFileBytes cfg \<le> 0 then cfg\<lparr>c_MaxFileBytes := DefaultMaxFileBytes\<rparr> else cfg);
          cfg = (if c_MaxOutputBytes cfg \<le> 0 then cfg\<lparr>c_MaxOutputBytes := DefaultMaxOutputBytes\<rparr> else cfg);
          cfg = (if c_DefaultTimeout cfg \<le> 0 then cfg\<lparr>c_DefaultTimeout := DefaultTimeout\<rparr> else cfg);
          cfg = (if c_DefaultUID cfg = 0 \<and> c_DefaultGID cfg = 0
                 then cfg\<lparr>c_DefaultUID := ruid s, c_DefaultGID := rgid s\<rparr> else cfg)
      in \<lparr>s_cfg = cfg, s_usedJobs = False\<rparr>)"

section \<open>Paths and modes\<close>

definition safePath :: "string \<Rightarrow> string \<Rightarrow> agent_error + string" where
  "safePath workspace requested =
     (if requested = '''' then Inl PathEmpty
      else if \<not> IsAbs requested then Inl (PathNotAbsolute requested)
      else let clean = Clean requested in
        (case Rel workspace clean of
           None \<Rightarrow> Inl RelError
         | Some rel \<Rightarrow>
             if HasPrefix rel ''../'' \<or> rel = ''..'' then Inl (PathEscapes requested)
             else Inr clean))"

definition rejectSymlink :: "string \<Rightarrow> (agent_error, unit) io" where
  "rejectSymlink p =
     andThen (wrap (UnsafeParent p) (Lstat p)) (\<lambda>info.
       if is_lnk (Some info) then throw (SymlinkParent p) else ret ())"

text \<open>The loop of \<open>ensureSafeParents\<close> over the elements below the workspace.\<close>

fun checkParts :: "string \<Rightarrow> string list \<Rightarrow> (agent_error, unit) io" where
  "checkParts current [] = ret ()"
| "checkParts current (part # parts) =
     andThen (rejectSymlink (Join [current, part])) (\<lambda>_. checkParts (Join [current, part]) parts)"

definition ensureSafeParents :: "string \<Rightarrow> string \<Rightarrow> (agent_error, unit) io" where
  "ensureSafeParents workspace target =
     (if Clean target = Clean workspace then rejectSymlink workspace
      else case Rel workspace (Dir target) of
        None \<Rightarrow> throw RelError
      | Some rel \<Rightarrow>
          if rel = ''.'' then rejectSymlink workspace
          else checkParts workspace (Split slash rel))"

definition safeMode :: "uint32 \<Rightarrow> uint32 \<Rightarrow> agent_error + uint32" where
  "safeMode mode fallback =
     (let mode = (if mode = 0 then fallback else mode) in
      if mode AND 3072 \<noteq> 0 then Inl SetidBits else Inr (mode AND 511))"

definition credentials :: "Config \<Rightarrow> JobDefaults \<Rightarrow> Job \<Rightarrow> int \<times> int" where
  "credentials cfg defaults job =
     (let uid = c_DefaultUID cfg; gid = c_DefaultGID cfg;
          uid = (case d_UID defaults of Some u \<Rightarrow> u | None \<Rightarrow> uid);
          gid = (case d_GID defaults of Some g \<Rightarrow> g | None \<Rightarrow> gid);
          uid = (case j_UID job of Some u \<Rightarrow> u | None \<Rightarrow> uid);
          gid = (case j_GID job of Some g \<Rightarrow> g | None \<Rightarrow> gid)
      in (uid, gid))"

definition chownIfNeeded :: "string \<Rightarrow> int \<Rightarrow> int \<Rightarrow> (agent_error, unit) io" where
  "chownIfNeeded p uid gid =
     andThen (reads (\<lambda>s. uid = ruid s \<and> gid = rgid s)) (\<lambda>same.
       if same then ret () else wrap ChownFailed (Chown p uid gid))"

definition timeout :: "Config \<Rightarrow> JobDefaults \<Rightarrow> Job \<Rightarrow> int" where
  "timeout cfg defaults job =
     (let ms = d_TimeoutMillis defaults;
          ms = (if j_TimeoutMillis job > 0 then j_TimeoutMillis job else ms)
      in if ms \<le> 0 then c_DefaultTimeout cfg else i64 (ms * millisecond))"

definition maxOutput :: "Config \<Rightarrow> JobDefaults \<Rightarrow> Job \<Rightarrow> int" where
  "maxOutput cfg defaults job =
     (let m = d_MaxOutputBytes defaults;
          m = (if j_MaxOutputBytes job > 0 then j_MaxOutputBytes job else m)
      in if m \<le> 0 then c_MaxOutputBytes cfg else m)"

section \<open>The limited output buffer\<close>

record limitedBuffer =
  lb_buf :: string
  lb_limit :: int

text \<open>\<open>Write\<close> always reports the whole slice as written.\<close>

definition lb_Write :: "limitedBuffer \<Rightarrow> string \<Rightarrow> int \<times> limitedBuffer" where
  "lb_Write b p =
     (let remaining = lb_limit b - int (length (lb_buf b)) in
      if remaining \<le> 0 then (int (length p), b)
      else if int (length p) > remaining
        then (int (length p), b\<lparr>lb_buf := lb_buf b @ take (nat remaining) p\<rparr>)
      else (int (length p), b\<lparr>lb_buf := lb_buf b @ p\<rparr>))"

fun lb_WriteAll :: "limitedBuffer \<Rightarrow> string list \<Rightarrow> limitedBuffer" where
  "lb_WriteAll b [] = b"
| "lb_WriteAll b (p # ps) = lb_WriteAll (snd (lb_Write b p)) ps"

section \<open>Jobs\<close>

definition ok :: "string \<Rightarrow> JobResult" where
  "ok ty = \<lparr>r_Type = ty, r_OK = True, r_Error = None, r_ExitCode = 0, r_TimedOut = False,
     r_StdoutBase64 = '''', r_StderrBase64 = ''''\<rparr>"

definition fail :: "string \<Rightarrow> agent_error \<Rightarrow> JobResult" where
  "fail ty e = \<lparr>r_Type = ty, r_OK = False, r_Error = Some e, r_ExitCode = 0, r_TimedOut = False,
     r_StdoutBase64 = '''', r_StderrBase64 = ''''\<rparr>"

text \<open>A job body that ends in an error becomes a failed result.\<close>

definition finish :: "string \<Rightarrow> (agent_error, unit) io \<Rightarrow> os \<Rightarrow> JobResult \<times> os" where
  "finish ty m s = (case m s of (Inl e, s') \<Rightarrow> (fail ty e, s') | (Inr u, s') \<Rightarrow> (ok ty, s'))"

definition mkdir_body :: "Config \<Rightarrow> string \<Rightarrow> JobDefaults \<Rightarrow> Job \<Rightarrow> (agent_error, unit) io" where
  "mkdir_body cfg workspace defaults job =
     (case safePath workspace (j_Path job) of
        Inl e \<Rightarrow> throw e
      | Inr target \<Rightarrow> (case safeMode (j_Mode job) 493 of
          Inl e \<Rightarrow> throw e
        | Inr mode \<Rightarrow>
            andThen (ensureSafeParents workspace target) (\<lambda>_.
            andThen (wrap MkdirFailed (MkdirAll target mode)) (\<lambda>_.
              case credentials cfg defaults job of (uid, gid) \<Rightarrow> chownIfNeeded target uid gid))))"

definition mkdir :: "Config \<Rightarrow> string \<Rightarrow> JobDefaults \<Rightarrow> Job \<Rightarrow> os \<Rightarrow> JobResult \<times> os" where
  "mkdir cfg workspace defaults job =
     finish (j_Type job) (mkdir_body cfg workspace defaults job)"

text \<open>
  \<open>writeFile\<close>: \<open>writeFile_check\<close> is the part before the upload counter changes, and
  \<open>writeFile_store\<close> the part after it.
\<close>

definition writeFile_check :: "Config \<Rightarrow> string \<Rightarrow> Job \<Rightarrow> agent_error + (string \<times> uint32 \<times> string)" where
  "writeFile_check cfg workspace job =
     (case safePath workspace (j_Path job) of
        Inl e \<Rightarrow> Inl e
      | Inr target \<Rightarrow> (case safeMode (j_Mode job) 420 of
          Inl e \<Rightarrow> Inl e
        | Inr mode \<Rightarrow> (case DecodeString (j_ContentsBase64 job) of
            None \<Rightarrow> Inl BadBase64
          | Some bs \<Rightarrow>
              if int (length bs) > c_MaxFileBytes cfg then Inl FileTooBig
              else Inr (target, mode, bs))))"

definition writeFile_store ::
  "Config \<Rightarrow> string \<Rightarrow> JobDefaults \<Rightarrow> Job \<Rightarrow> string \<Rightarrow> uint32 \<Rightarrow> string \<Rightarrow> (agent_error, unit) io" where
  "writeFile_store cfg workspace defaults job target mode bs =
     andThen (if j_CreateParents job then wrap CreateParentsFailed (MkdirAll (Dir target) 493) else ret ()) (\<lambda>_.
     andThen (ensureSafeParents workspace target) (\<lambda>_.
     andThen (attempt (Lstat target)) (\<lambda>info.
       if (case info of Inr x \<Rightarrow> is_lnk (Some x) | Inl e \<Rightarrow> False)
       then throw (OverwriteSymlink (j_Path job))
       else
         andThen (wrap OpenFailed (OpenTruncNoFollow target mode)) (\<lambda>fd.
         andThen (attempt (FWrite fd bs)) (\<lambda>writeErr.
         andThen (attempt (FClose fd)) (\<lambda>closeErr.
           case writeErr of
             Inl e \<Rightarrow> throw (WriteFailed e)
           | Inr u \<Rightarrow> (case closeErr of
               Inl e \<Rightarrow> throw (CloseFailed e)
             | Inr u \<Rightarrow>
                 andThen (wrap ChmodFailed (Chmod target mode)) (\<lambda>_.
                   case credentials cfg defaults job of
                     (uid, gid) \<Rightarrow> chownIfNeeded target uid gid))))))))"

definition writeFile ::
  "Config \<Rightarrow> string \<Rightarrow> JobDefaults \<Rightarrow> Job \<Rightarrow> int \<Rightarrow> os \<Rightarrow> JobResult \<times> int \<times> os" where
  "writeFile cfg workspace defaults job uploaded s =
     (case writeFile_check cfg workspace job of
        Inl e \<Rightarrow> (fail (j_Type job) e, uploaded, s)
      | Inr (target, mode, bs) \<Rightarrow>
          let uploaded = i64 (uploaded + int (length bs)) in
          if uploaded > c_MaxBodyBytes cfg then (fail (j_Type job) UploadTooBig, uploaded, s)
          else (case finish (j_Type job) (writeFile_store cfg workspace defaults job target mode bs) s of
                  (res, s') \<Rightarrow> (res, uploaded, s')))"

text \<open>The command an \<open>exec\<close> job starts, and what running it reports.\<close>

record cmd =
  cmd_argv :: "string list"
  cmd_dir :: string
  cmd_env :: "string list"
  cmd_cred :: "(nat \<times> nat) option"
  cmd_timeout :: int

datatype run_error = ExitError int | OtherError

record run_out =
  ro_stdout :: "string list"
  ro_stderr :: "string list"
  ro_err :: "run_error option"
  ro_deadline :: bool
  ro_pid :: "int option"

record runner =
  run_cmd :: "cmd \<Rightarrow> os \<Rightarrow> run_out \<times> os"
  kill_group :: "int \<Rightarrow> os \<Rightarrow> os"

definition exec_prepare :: "Config \<Rightarrow> string \<Rightarrow> JobDefaults \<Rightarrow> Job \<Rightarrow> (agent_error, cmd) io" where
  "exec_prepare cfg workspace defaults job =
     (if j_Argv job = [] \<or> hd (j_Argv job) = '''' then throw ArgvEmpty
      else let workingDir = (if j_WorkingDir job = '''' then workspace else j_WorkingDir job) in
        (case safePath workspace workingDir of
           Inl e \<Rightarrow> throw e
         | Inr wd \<Rightarrow>
             andThen (ensureSafeParents workspace (Join [wd, ''.agent-check''])) (\<lambda>_.
             andThen (attempt (Stat wd)) (\<lambda>info.
               if (case info of Inl e \<Rightarrow> True | Inr x \<Rightarrow> \<not> is_dir (Some x)) then throw BadWorkingDir
               else (case credentials cfg defaults job of (uid, gid) \<Rightarrow>
                 andThen (reads (\<lambda>s. (ruid s, rgid s, euid s))) (\<lambda>(ru, rg, eu).
                   if (uid \<noteq> ru \<or> gid \<noteq> rg) \<and> eu \<noteq> 0 then throw CredentialsNotRoot
                   else ret \<lparr>cmd_argv = j_Argv job, cmd_dir = wd,
                          cmd_env = d_Env defaults @ j_Env job,
                          cmd_cred = (if uid \<noteq> ru \<or> gid \<noteq> rg
                                      then Some (nat (uid mod 2 ^ 32), nat (gid mod 2 ^ 32)) else None),
                          cmd_timeout = timeout cfg defaults job\<rparr>))))))"

definition captured :: "int \<Rightarrow> string list \<Rightarrow> string" where
  "captured limit ps = lb_buf (lb_WriteAll \<lparr>lb_buf = '''', lb_limit = limit\<rparr> ps)"

definition exec_result :: "string \<Rightarrow> int \<Rightarrow> run_out \<Rightarrow> JobResult" where
  "exec_result ty limit out =
     (let result = \<lparr>r_Type = ty, r_OK = True, r_Error = None, r_ExitCode = 0,
             r_TimedOut = ro_deadline out,
             r_StdoutBase64 = EncodeToString (captured limit (ro_stdout out)),
             r_StderrBase64 = EncodeToString (captured limit (ro_stderr out))\<rparr> in
      case ro_err out of
        None \<Rightarrow> result
      | Some (ExitError code) \<Rightarrow> result\<lparr>r_ExitCode := code\<rparr>
      | Some OtherError \<Rightarrow>
          if ro_deadline out then result\<lparr>r_ExitCode := -1\<rparr> else fail ty ExecFailed)"

definition exec :: "runner \<Rightarrow> Config \<Rightarrow> string \<Rightarrow> JobDefaults \<Rightarrow> Job \<Rightarrow> os \<Rightarrow> JobResult \<times> os" where
  "exec run cfg workspace defaults job s =
     (case exec_prepare cfg workspace defaults job s of
        (Inl e, s') \<Rightarrow> (fail (j_Type job) e, s')
      | (Inr c, s') \<Rightarrow> (case run_cmd run c s' of
          (out, s'') \<Rightarrow>
            (exec_result (j_Type job) (maxOutput cfg defaults job) out,
             case ro_pid out of
               Some pid \<Rightarrow> if ro_deadline out then kill_group run pid s'' else s''
             | None \<Rightarrow> s'')))"

section \<open>Batches\<close>

definition runJob :: "runner \<Rightarrow> Config \<Rightarrow> string \<Rightarrow> JobDefaults \<Rightarrow> Job \<Rightarrow> int \<Rightarrow> os \<Rightarrow> JobResult \<times> int \<times> os" where
  "runJob run cfg workspace defaults job uploaded s =
     (if j_Type job = JobMkdir then
        (case mkdir cfg workspace defaults job s of (res, s') \<Rightarrow> (res, uploaded, s'))
      else if j_Type job = JobWriteFile then writeFile cfg workspace defaults job uploaded s
      else if j_Type job = JobExec then
        (case exec run cfg workspace defaults job s of (res, s') \<Rightarrow> (res, uploaded, s'))
      else (fail (j_Type job) (UnsupportedJob (j_Type job)), uploaded, s))"

definition workspace_of :: "Config \<Rightarrow> string \<Rightarrow> (agent_error, string) io" where
  "workspace_of cfg requested =
     (let requested = (if requested = '''' then c_Workspace cfg else requested);
          clean = Clean requested in
      if \<not> IsAbs clean then throw WorkspaceNotAbsolute
      else if clean \<noteq> Clean (c_Workspace cfg) then throw (WorkspaceNotAllowed clean)
      else andThen (wrap CreateWorkspace (MkdirAll clean 493)) (\<lambda>_. ret clean))"

definition batchError :: "string \<Rightarrow> agent_error \<Rightarrow> BatchResponse" where
  "batchError ty e = [fail ty e]"

text \<open>The loop over the jobs: it returns at the first result that is not OK.\<close>

fun runJobs :: "runner \<Rightarrow> Config \<Rightarrow> string \<Rightarrow> JobDefaults \<Rightarrow> Job list \<Rightarrow> int \<Rightarrow> JobResult list \<Rightarrow> os
    \<Rightarrow> (BatchResponse \<times> nat) \<times> os" where
  "runJobs run cfg workspace defaults [] uploaded results s = ((results, 200), s)"
| "runJobs run cfg workspace defaults (job # jobs) uploaded results s =
     (case runJob run cfg workspace defaults job uploaded s of
        (result, uploaded', s') \<Rightarrow>
          if \<not> r_OK result then ((results @ [result], 400), s')
          else runJobs run cfg workspace defaults jobs uploaded' (results @ [result]) s')"

definition runBatch :: "runner \<Rightarrow> Config \<Rightarrow> BatchRequest \<Rightarrow> os \<Rightarrow> (BatchResponse \<times> nat) \<times> os" where
  "runBatch run cfg req s =
     (if b_Version req \<noteq> Version
      then ((batchError '''' (UnsupportedVersion (b_Version req)), 400), s)
      else (case workspace_of cfg (b_Workspace req) s of
        (Inl e, s') \<Rightarrow> ((batchError '''' e, 400), s')
      | (Inr workspace, s') \<Rightarrow>
          if b_Jobs req = [] then ((batchError '''' JobsEmpty, 400), s')
          else runJobs run cfg workspace (b_Defaults req) (b_Jobs req) 0 [] s'))"

section \<open>The HTTP handlers\<close>

datatype reply =
    TextReply nat string
  | BatchReply nat BatchResponse

definition healthz :: reply where
  "healthz = TextReply 200 (''ok'' @ [CHR 0x0A])"

definition json_space :: "char \<Rightarrow> bool" where
  "json_space c = (c \<in> {CHR '' '', CHR 0x09, CHR 0x0A, CHR 0x0D})"

text \<open>
  \<open>jobs\<close>: the used flag is set before the body is read.  The body reader stops at
  \<open>MaxBodyBytes\<close>; anything but white space after the first document, or a longer body, is
  rejected.  The last component says whether the deferred \<open>Shutdown\<close> call is started.
\<close>

definition jobs :: "(string \<Rightarrow> (BatchRequest \<times> string) option) \<Rightarrow> runner \<Rightarrow> Server \<Rightarrow> string \<Rightarrow> os
    \<Rightarrow> reply \<times> bool \<times> Server \<times> os" where
  "jobs json_first run srv body s =
     (if s_usedJobs srv then (TextReply 410 ''jobs endpoint already used'', False, srv, s)
      else let srv = srv\<lparr>s_usedJobs := True\<rparr>; cfg = s_cfg srv in
        (case json_first (take (nat (c_MaxBodyBytes cfg)) body) of
           None \<Rightarrow> (TextReply 400 ''decode request'', False, srv, s)
         | Some (req, rest) \<Rightarrow>
             if \<not> (list_all json_space rest \<and> int (length body) \<le> c_MaxBodyBytes cfg)
             then (TextReply 400 ''request must contain exactly one JSON document'', False, srv, s)
             else (case runBatch run cfg req s of
                     ((resp, status), s') \<Rightarrow>
                       (BatchReply status resp,
                        (c_ShutdownAfterJobs cfg \<or> b_Shutdown req) \<and> c_HasShutdown cfg, srv, s'))))"

text \<open>\<open>Handler\<close>: the two routes, and the router's own answers for everything else.\<close>

datatype agent_op = Healthz | PostJobs

definition agent_routes :: "(agent_op \<times> string \<times> string) list" where
  "agent_routes = [(Healthz, ''GET'', ''/healthz''), (PostJobs, ''POST'', ''/jobs'')]"

definition agent_Handler :: "(string \<Rightarrow> (BatchRequest \<times> string) option) \<Rightarrow> runner \<Rightarrow> Server \<Rightarrow> string \<Rightarrow> string \<Rightarrow> string \<Rightarrow> os
    \<Rightarrow> reply \<times> bool \<times> Server \<times> os" where
  "agent_Handler json_first run srv meth path body s =
     (case mux agent_routes meth path of
        Routed Healthz vs \<Rightarrow> (healthz, False, srv, s)
      | Routed PostJobs vs \<Rightarrow> jobs json_first run srv body s
      | MethodNotAllowed \<Rightarrow> (TextReply 405 ''Method Not Allowed'', False, srv, s)
      | NoRoute \<Rightarrow> (TextReply 404 ''404 page not found'', False, srv, s))"

end
