(* ===== verification/AgentSafety.thy ===== *)
theory AgentSafety
  imports AgentServer PathGuard
begin

text \<open>
  What the guest agent's path checks achieve: \<open>safePath\<close> accepts exactly the absolute paths
  that lie lexically in the workspace, \<open>ensureSafeParents\<close> leaves no symbolic link on the
  way to the target, and so the file jobs change nothing outside the workspace, with two
  exceptions that are shown by execution.
\<close>

section \<open>Lexical checks\<close>

lemma safePath_iff:
  assumes "rooted ws"
  shows "safePath ws req = Inr p \<longleftrightarrow> rooted req \<and> p = Clean req \<and> prefix (comps ws) (comps req)"
proof (cases "rooted req")
  case True
  then obtain rel where rel: "Rel ws (Clean req) = Some rel"
    "escapes rel \<longleftrightarrow> \<not> prefix (comps ws) (comps (Clean req))"
    using Rel_rooted [OF assms, of "Clean req"] by auto
  with True show ?thesis
    by (auto simp: safePath_def IsAbs_def escapes_def Let_def rooted_def)
qed (simp add: safePath_def IsAbs_def)

lemma safePath_facts:
  assumes "rooted ws" "safePath ws req = Inr p"
  shows "cleaned p" "rooted p" "prefix (comps ws) (comps p)"
  using assms by (simp_all add: safePath_iff)

section \<open>Parents\<close>

lemma valid_rejectSymlink:
  assumes "cleaned p" "rooted p" "stable P" "\<And>s. P s \<Longrightarrow> solid (ent s) (butlast (comps p))"
  shows "valid P (rejectSymlink p) (\<lambda>_ s. P s \<and> solid (ent s) (comps p)) P"
proof -
  have step: "solid (ent s) (comps p)"
    if "P s" "resolve s False p = Inr q" "ent s q = Some x" "\<not> is_lnk (Some x)" for s q x
  proof -
    have so: "solid (ent s) (butlast (comps p))" using assms(4) that(1) .
    then have "q = comps p" using resolve_nolinks [OF assms(1,2) _ _ that(2)] so by (simp add: solid_nolinks)
    then have "is_solid (ent s (comps p))" using that by (simp add: is_solid_iff)
    with so show ?thesis by (cases "comps p" rule: rev_cases) (auto simp: solid_snoc solid_iff)
  qed
  show ?thesis
    unfolding rejectSymlink_def
    by (rule valid_andThen [OF valid_wrap [OF valid_Lstat [OF assms(3)]]], intro valid_if valid_ret valid_throw)
      (use step in blast)+
qed

lemma valid_checkParts:
  assumes "stable P" "list_all plain parts" "cleaned cur" "rooted cur"
    and "\<And>s. P s \<Longrightarrow> solid (ent s) (comps cur)"
  shows "valid P (checkParts cur parts) (\<lambda>_ s. P s \<and> solid (ent s) (comps cur @ parts)) P"
  using assms
proof (induction parts arbitrary: cur P)
  case Nil
  then show ?case by (auto intro: valid_ret)
next
  case (Cons c cs)
  have j: "cleaned (Join [cur, c])" "rooted (Join [cur, c])" "comps (Join [cur, c]) = comps cur @ [c]"
    using Join_plain [of cur "[c]"] Cons.prems(2-4) cleaned_nonempty [of cur] by simp_all
  let ?Q = "\<lambda>s. P s \<and> solid (ent s) (comps (Join [cur, c]))"
  have head: "valid P (rejectSymlink (Join [cur, c])) (\<lambda>_. ?Q) P"
    by (rule valid_rejectSymlink) (use j Cons.prems in auto)
  have "valid ?Q (checkParts (Join [cur, c]) cs)
      (\<lambda>_ s. ?Q s \<and> solid (ent s) (comps (Join [cur, c]) @ cs)) ?Q"
    by (rule Cons.IH) (use j Cons.prems in auto)
  then have "valid ?Q (checkParts (Join [cur, c]) cs) (\<lambda>_ s. P s \<and> solid (ent s) (comps cur @ c # cs)) P"
    by (rule valid_conseq) (auto simp: j)
  with head show ?case by (auto intro: valid_andThen)
qed

lemma readonly_rejectSymlink: "readonly (rejectSymlink p)"
  unfolding rejectSymlink_def
  by (intro readonly_andThen readonly_wrap readonly_Lstat) (simp add: readonly_ret readonly_throw)

lemma readonly_checkParts: "readonly (checkParts cur parts)"
  by (induction parts arbitrary: cur) (auto intro: readonly_andThen readonly_ret readonly_rejectSymlink)

lemma readonly_ensureSafeParents: "readonly (ensureSafeParents ws t)"
  unfolding ensureSafeParents_def
  by (auto intro: readonly_rejectSymlink readonly_checkParts readonly_throw split: option.split)

lemma valid_ensureSafeParents:
  assumes ws: "cleaned ws" "rooted ws" and t: "cleaned t" "rooted t" "prefix (comps ws) (comps t)"
    and st: "stable P" and so: "\<And>s. P s \<Longrightarrow> solid (ent s) (comps ws)"
  shows "valid P (ensureSafeParents ws t) (\<lambda>_ s. P s \<and> reachable_in (comps ws) t (ent s)) P"
proof -
  have here: "valid P (rejectSymlink ws) (\<lambda>_ s. P s \<and> solid (ent s) (comps ws)) P"
    by (rule valid_rejectSymlink) (use ws st so in \<open>auto dest: solid_butlast\<close>)
  show ?thesis
  proof (cases "Clean t = Clean ws")
    case True
    then have "comps t = comps ws" by (simp add: Clean_eq_iff)
    with True t so show ?thesis
      unfolding ensureSafeParents_def
      by (auto intro!: valid_conseq [OF here] simp: reachable_in_def intro: solid_nolinks solid_butlast)
  next
    case False
    then have "comps t \<noteq> comps ws" using t ws by (simp add: Clean_eq_iff)
    then obtain cs c where cs: "comps t = comps ws @ cs @ [c]"
      using t(3) by (metis append_Nil2 prefixE rev_exhaust)
    have d: "rooted (Dir t)" "comps (Dir t) = comps ws @ cs"
      using t cs Dir_cleaned [OF t(1)] by (simp_all add: butlast_append)
    have pl: "list_all plain cs" using comps_rooted_plain [OF t(2)] cs by simp
    have rel: "Rel ws (Dir t) = Some (if cs = [] then ''.'' else join_with ''/'' cs)"
      using Rel_below [of "Dir t" ws cs] d ws by simp
    have reach: "solid look (comps ws @ cs) \<Longrightarrow> reachable_in (comps ws) t look" for look
      using t cs by (simp add: reachable_in_def butlast_append solid_nolinks)
    show ?thesis
    proof (cases "cs = []")
      case True
      with False rel show ?thesis
        unfolding ensureSafeParents_def using reach by (auto intro: valid_conseq [OF here])
    next
      case ne: False
      have "Split slash (join_with ''/'' cs) = cs"
        using pl ne by (intro Split_join_normal [of True]) (auto simp: normal_rooted)
      moreover have "join_with ''/'' cs \<noteq> ''.''"
        using comps_plain_list [OF pl ne] ne by (auto simp: comps_def)
      moreover have "valid P (checkParts ws cs) (\<lambda>_ s. P s \<and> reachable_in (comps ws) t (ent s)) P"
        by (rule valid_conseq [OF valid_checkParts]) (use st ws pl so reach in auto)
      ultimately show ?thesis
        using False rel ne unfolding ensureSafeParents_def by simp
    qed
  qed
qed


text \<open>The agent's guard meets the shared contract, with no condition on the file system.\<close>

interpretation agent_guard: parent_guard ensureSafeParents "\<lambda>_. True"
proof unfold_locales
  fix root t u and s s' :: os
  assume a: "cleaned root" "rooted root" "cleaned t" "rooted t" "prefix (comps root) (comps t)"
    and so: "solid (ent s) (comps root)" and c: "ensureSafeParents root t s = (Inr u, s')"
  have "valid (\<lambda>x. solid (ent x) (comps root) \<and> ent x = ent s) (ensureSafeParents root t)
      (\<lambda>_ x. (solid (ent x) (comps root) \<and> ent x = ent s) \<and> reachable_in (comps root) t (ent x))
      (\<lambda>x. solid (ent x) (comps root) \<and> ent x = ent s)"
    using a by (intro valid_ensureSafeParents) auto
  from valid_Inr [OF this _ c] so show "nolinks (ent s) (butlast (comps t))"
    by (auto simp: reachable_in_def)
qed (auto simp: stable_def readonly_ensureSafeParents)

lemmas guarded = agent_guard.valid_check [simplified]

section \<open>The guarded jobs stay in the workspace\<close>

lemma valid_chownIfNeeded:
  "valid (\<lambda>s. inside w s0 s \<and> usable w p (ent s)) (chownIfNeeded p u g)
    (\<lambda>_. inside w s0) (inside w s0)"
proof -
  have c: "valid (\<lambda>s. inside w s0 s \<and> usable w p (ent s)) (Chown p u g) (\<lambda>_. inside w s0) (inside w s0)"
    by (rule valid_conseq [OF valid_touches_usable [OF touches_chown(2)]]) auto
  show ?thesis
    unfolding chownIfNeeded_def
    by (rule valid_andThen [OF valid_reads, where Q = "\<lambda>_ s. inside w s0 s \<and> usable w p (ent s)"])
      (auto intro!: valid_if valid_ret valid_wrap c)
qed


text \<open>
  \<open>write_file\<close> from the check of the parents on; \<open>s0\<close> is the state the frame is measured from.
\<close>

lemma valid_writeFile_guarded:
  assumes ws: "cleaned ws" "rooted ws" and t: "cleaned t" "rooted t" "prefix (comps ws) (comps t)"
    and np: "\<not> j_CreateParents job"
  shows "valid (inside (comps ws) s0) (writeFile_store cfg ws defaults job t mode bs)
    (\<lambda>_. inside (comps ws) s0) (inside (comps ws) s0)"
proof -
  let ?w = "comps ws"
  let ?R = "\<lambda>s. inside ?w s0 s \<and> reachable_in ?w t (ent s)"
  let ?U = "\<lambda>s. inside ?w s0 s \<and> usable ?w t (ent s)"
  have lstat: "valid ?R (attempt (Lstat t)) (\<lambda>_. ?R) (inside ?w s0)"
    by (intro valid_attempt_same valid_readonly readonly_Lstat stable_conj) auto
  have close: "valid ?U (attempt (FClose i)) (\<lambda>_. ?U) (inside ?w s0)" for i
    by (intro valid_attempt_same valid_readonly readonly_FClose stable_usable)
  have chmod: "valid ?U (wrap ChmodFailed (Chmod t mode)) (\<lambda>_. ?U) (inside ?w s0)"
    by (rule valid_wrap [OF valid_conseq [OF valid_touches_usable [OF touches_chown(1)]]]) auto
  have wr: "valid (\<lambda>s. inside ?w s0 s \<and> usable ?w t (ent s) \<and> prefix ?w (comps t)
      \<and> ent s (comps t) = Some (RegE i)) (attempt (FWrite i bs)) (\<lambda>_. ?U) (inside ?w s0)" for i
    by (rule valid_attempt [OF valid_conseq [OF valid_FWrite_usable]]) auto
  show ?thesis
    using np unfolding writeFile_store_def
    by (auto intro!: valid_andThen [OF valid_ret [where Q = "\<lambda>_. inside ?w s0"]]
        valid_andThen [OF guarded [OF ws t]] valid_andThen [OF lstat]
        valid_andThen [OF valid_wrap [OF valid_store_file]] valid_andThen [OF wr]
        valid_andThen [OF close] valid_andThen [OF chmod] valid_if valid_throw valid_sum valid_prod
        valid_chownIfNeeded)
qed

lemma valid_mkdir_guarded:
  assumes ws: "cleaned ws" "rooted ws" and t: "cleaned t" "rooted t" "prefix (comps ws) (comps t)"
  shows "valid (\<lambda>s. inside (comps ws) s0 s \<and> \<not> is_lnk (ent s (comps t)))
    (andThen (ensureSafeParents ws t) (\<lambda>_. andThen (wrap MkdirFailed (MkdirAll t mode)) (\<lambda>_.
       case credentials cfg defaults job of (uid, gid) \<Rightarrow> chownIfNeeded t uid gid)))
    (\<lambda>_. inside (comps ws) s0) (inside (comps ws) s0)"
proof -
  let ?w = "comps ws"
  let ?U = "\<lambda>s. inside ?w s0 s \<and> usable ?w t (ent s)"
  have mk: "valid ?U (MkdirAll t mode) (\<lambda>_. ?U) (inside ?w s0)"
    by (rule valid_conseq [OF valid_MkdirAll_usable]) auto
  have esp: "valid (\<lambda>s. inside ?w s0 s \<and> \<not> is_lnk (ent s (comps t))) (ensureSafeParents ws t)
      (\<lambda>_. ?U) (inside ?w s0)"
    by (rule valid_conseq [OF valid_frame [OF guarded [OF ws t] readonly_ensureSafeParents,
            where R = "\<lambda>s. \<not> is_lnk (ent s (comps t))"]])
      (auto simp: usable_def)
  show ?thesis
    by (intro valid_andThen [OF esp] valid_andThen [OF valid_wrap [OF mk]] valid_prod valid_chownIfNeeded)
qed


section \<open>Single jobs\<close>

text \<open>The states in which a job starts: a real workspace and inode numbers in range.\<close>

definition ready :: "string \<Rightarrow> os \<Rightarrow> bool" where
  "ready ws s = (cleaned ws \<and> rooted ws \<and> bounded s \<and> solid (ent s) (comps ws))"

lemma ready_inside: "ready ws s \<Longrightarrow> inside (comps ws) s s"
  by (simp add: ready_def inside_def)

lemma finish_valid:
  assumes "valid P m (\<lambda>_. Q) Q" "P s" "finish ty m s = (res, s')"
  shows "Q s'"
  using assms unfolding finish_def
  by (auto split: prod.splits sum.splits dest: valid_Inr valid_Inl)

lemma writeFile_cases:
  assumes "writeFile cfg ws defaults job up s = (res, up', s')"
  obtains (unchanged) "s' = s" "\<not> r_OK res"
  | (stored) t mode bs where "safePath ws (j_Path job) = Inr t" "safeMode (j_Mode job) 420 = Inr mode"
      "DecodeString (j_ContentsBase64 job) = Some bs" "int (length bs) \<le> c_MaxFileBytes cfg"
      "up' = i64 (up + int (length bs))" "up' \<le> c_MaxBodyBytes cfg"
      "finish (j_Type job) (writeFile_store cfg ws defaults job t mode bs) s = (res, s')"
  using assms unfolding writeFile_def writeFile_check_def
  by (auto simp: Let_def fail_def split: sum.splits option.splits if_splits prod.splits)

text \<open>
  C2: a \<open>write_file\<close> job without \<open>create_parents\<close> changes nothing outside the workspace,
  whatever links are inside it, whether it succeeds or fails: no name outside, and no file
  that had no name inside.
\<close>

theorem writeFile_confined:
  assumes "ready ws s" "\<not> j_CreateParents job"
    and "writeFile cfg ws defaults job up s = (res, up', s')"
  shows "confined (comps ws) s s'"
  using assms(3)
proof (cases rule: writeFile_cases)
  case (stored t mode bs)
  have ws: "cleaned ws" "rooted ws" using assms(1) by (simp_all add: ready_def)
  note t = safePath_facts [OF ws(2) stored(1)]
  have "inside (comps ws) s s'"
    using finish_valid [OF valid_writeFile_guarded [OF ws t assms(2)] ready_inside [OF assms(1)] stored(7)] .
  then show ?thesis by (simp add: inside_def)
qed simp

lemma writeFile_store_parents:
  "writeFile_store cfg ws defaults job t mode bs =
     andThen (if j_CreateParents job then wrap CreateParentsFailed (MkdirAll (Dir t) 493) else ret ())
       (\<lambda>_. writeFile_store cfg ws defaults (job\<lparr>j_CreateParents := False\<rparr>) t mode bs)"
proof -
  have "credentials cfg defaults (job\<lparr>j_CreateParents := False\<rparr>) = credentials cfg defaults job"
    by (simp add: credentials_def)
  then show ?thesis by (simp add: writeFile_store_def andThen_ret cong: if_cong sum.case_cong)
qed

lemma grown_inside:
  "grown s s1 \<Longrightarrow> ready ws s \<Longrightarrow> inside (comps ws) s1 s1"
  unfolding ready_def inside_def using grown_bounded grown_solid by auto

text \<open>
  with \<open>create_parents\<close> the only other effect a \<open>write_file\<close> job can have is that
  directories appear where nothing was: no existing name or file outside the workspace changes.
\<close>

theorem writeFile_create_parents:
  assumes "ready ws s" and "writeFile cfg ws defaults job up s = (res, up', s')"
  shows "\<exists>s1. grown s s1 \<and> confined (comps ws) s1 s'"
  using assms(2)
proof (cases rule: writeFile_cases)
  case unchanged
  then show ?thesis by (intro exI [of _ s]) simp
next
  case (stored t mode bs)
  have ws: "cleaned ws" "rooted ws" using assms(1) by (simp_all add: ready_def)
  note t = safePath_facts [OF ws(2) stored(1)]
  let ?E = "\<lambda>s'. \<exists>s1. grown s s1 \<and> confined (comps ws) s1 s'"
  let ?job = "job\<lparr>j_CreateParents := False\<rparr>"
  have "valid (grown s) (writeFile_store cfg ws defaults ?job t mode bs) (\<lambda>_. ?E) ?E"
  proof (rule validI)
    fix s1 a s' assume g: "grown s s1" "writeFile_store cfg ws defaults ?job t mode bs s1 = (Inr a, s')"
    have "inside (comps ws) s1 s'"
      using valid_Inr [OF valid_writeFile_guarded [OF ws t] grown_inside [OF g(1) assms(1)] g(2)] by simp
    with g show "?E s'" by (auto simp: inside_def)
  next
    fix s1 e s' assume g: "grown s s1" "writeFile_store cfg ws defaults ?job t mode bs s1 = (Inl e, s')"
    have "inside (comps ws) s1 s'"
      using valid_Inl [OF valid_writeFile_guarded [OF ws t] grown_inside [OF g(1) assms(1)] g(2)] by simp
    with g show "?E s'" by (auto simp: inside_def)
  qed
  moreover have "valid (\<lambda>x. x = s) (if j_CreateParents job then wrap CreateParentsFailed (MkdirAll (Dir t) 493)
      else ret ()) (\<lambda>_. grown s) ?E"
    by (intro valid_if valid_wrap valid_conseq [OF valid_MkdirAll_grown] valid_ret)
      (auto intro: exI [where x = "s"])
  ultimately have "valid (\<lambda>x. x = s) (writeFile_store cfg ws defaults job t mode bs) (\<lambda>_. ?E) ?E"
    unfolding writeFile_store_parents [of cfg ws defaults job] by (intro valid_andThen)
  from finish_valid [OF this refl stored(7)] show ?thesis .
qed

text \<open>
  a \<open>mkdir\<close> job whose target is not an existing symbolic link changes nothing outside
  the workspace, in particular not through the final change of ownership.
\<close>

theorem mkdir_confined:
  assumes "ready ws s" "\<not> is_lnk (ent s (comps (j_Path job)))"
    and "mkdir cfg ws defaults job s = (res, s')"
  shows "confined (comps ws) s s'"
proof -
  have ws: "cleaned ws" "rooted ws" using assms(1) by (simp_all add: ready_def)
  have ins: "inside (comps ws) s s" using assms(1) by (rule ready_inside)
  have "valid (\<lambda>s1. s1 = s) (mkdir_body cfg ws defaults job) (\<lambda>_. inside (comps ws) s) (inside (comps ws) s)"
    unfolding mkdir_body_def
  proof (intro valid_sum valid_throw, simp_all only: ins)
    fix t mode assume t: "safePath ws (j_Path job) = Inr t"
    then have "comps t = comps (j_Path job)" using safePath_iff [OF ws(2)] by simp
    with assms(2) ins show "valid (\<lambda>s1. s1 = s)
        (andThen (ensureSafeParents ws t) (\<lambda>_. andThen (wrap MkdirFailed (MkdirAll t mode)) (\<lambda>_.
           case credentials cfg defaults job of (uid, gid) \<Rightarrow> chownIfNeeded t uid gid)))
        (\<lambda>_. inside (comps ws) s) (inside (comps ws) s)"
      by (intro valid_pre [OF valid_mkdir_guarded [OF ws safePath_facts [OF ws(2) t]]]) simp
  qed
  from finish_valid [OF this refl assms(3) [unfolded mkdir_def]] have "inside (comps ws) s s'" .
  then show ?thesis by (simp add: inside_def)
qed


section \<open>A concrete guest\<close>

text \<open>
  A guest with a workspace that holds a symbolic link to \<open>/etc\<close>, run by root for jobs of
  user 1000.  It shows that the theorems apply, and where confinement ends.
\<close>

definition root_attr :: attr where
  "root_attr = \<lparr>perm = 493, owner = 0, grp = 0\<rparr>"

definition demo_os :: os where
  "demo_os =
     \<lparr>ents = [([], DirE root_attr), ([''etc''], DirE root_attr), ([''workspace''], DirE root_attr),
              ([''workspace'', ''ln''], LnkE ''/etc'' root_attr)],
      inodes = (\<lambda>_. None), next_ino = 0, cwd = [], umask = 18, ruid = 0, rgid = 0, euid = 0, now = 0,
      rand = (\<lambda>n. n), tick = 0, fault = (\<lambda>_. None)\<rparr>"

definition demo_cfg :: Config where
  "demo_cfg = \<lparr>c_Workspace = ''/workspace'', c_MaxBodyBytes = 100, c_MaxFileBytes = 10,
     c_MaxOutputBytes = 4, c_DefaultTimeout = second, c_DefaultUID = 1000, c_DefaultGID = 1000,
     c_HasShutdown = False, c_ShutdownAfterJobs = False\<rparr>"

definition write_job :: "string \<Rightarrow> bool \<Rightarrow> Job" where
  "write_job p parents = zero_job\<lparr>j_Type := JobWriteFile, j_Path := p,
     j_ContentsBase64 := ''aGk='', j_CreateParents := parents\<rparr>"

definition mkdir_job :: "string \<Rightarrow> Job" where
  "mkdir_job p = zero_job\<lparr>j_Type := JobMkdir, j_Path := p\<rparr>"

lemma job_fields [simp]:
  "j_CreateParents (write_job p c) = c" "j_Path (write_job p c) = p" "j_Type (write_job p c) = JobWriteFile"
  "j_Path (mkdir_job p) = p" "j_Type (mkdir_job p) = JobMkdir"
  by (simp_all add: write_job_def mkdir_job_def)

lemma demo_bounded: "bounded demo_os"
  by (auto simp: bounded_def ent_def demo_os_def split: if_splits)

lemma demo_ready: "ready ''/workspace'' demo_os"
proof -
  have "cleaned ''/workspace'' \<and> rooted ''/workspace'' \<and> solid (ent demo_os) (comps ''/workspace'')"
    unfolding cleaned_def by code_simp
  then show ?thesis by (simp add: ready_def demo_bounded)
qed

theorem writeFile_confined_witness:
  "confined (comps ''/workspace'') demo_os
     (snd (snd (writeFile demo_cfg ''/workspace'' zero_defaults (write_job ''/workspace/a'' False) 0 demo_os)))"
proof -
  obtain res up' s' where
    w: "writeFile demo_cfg ''/workspace'' zero_defaults (write_job ''/workspace/a'' False) 0 demo_os = (res, up', s')"
    by (metis prod_cases3)
  show ?thesis
    using writeFile_confined [OF demo_ready _ w] by (simp add: w)
qed

theorem writeFile_create_parents_witness:
  "\<exists>s1. grown demo_os s1 \<and> confined (comps ''/workspace'') s1
     (snd (snd (writeFile demo_cfg ''/workspace'' zero_defaults (write_job ''/workspace/d/a'' True) 0 demo_os)))"
proof -
  obtain res up' s' where
    w: "writeFile demo_cfg ''/workspace'' zero_defaults (write_job ''/workspace/d/a'' True) 0 demo_os = (res, up', s')"
    by (metis prod_cases3)
  show ?thesis using writeFile_create_parents [OF demo_ready w] by (simp add: w)
qed

theorem mkdir_confined_witness:
  "\<not> is_lnk (ent demo_os (comps ''/workspace/d'')) \<and> confined (comps ''/workspace'') demo_os
     (snd (mkdir demo_cfg ''/workspace'' zero_defaults (mkdir_job ''/workspace/d'') demo_os))"
proof -
  have n: "\<not> is_lnk (ent demo_os (comps (j_Path (mkdir_job ''/workspace/d''))))" by code_simp
  obtain res s' where
    w: "mkdir demo_cfg ''/workspace'' zero_defaults (mkdir_job ''/workspace/d'') demo_os = (res, s')"
    by fastforce
  show ?thesis
    using mkdir_confined [OF demo_ready n w] n by (simp add: w)
qed




section \<open>The lexical contract\<close>

text \<open>
  The function \<open>safePath\<close> accepts a request exactly when it is an absolute path whose lexical
  components start with those of the workspace, and then returns it cleaned.
\<close>

theorem safePath_accepts_exactly:
  assumes "rooted ws"
  shows "safePath ws req = Inr p \<longleftrightarrow> rooted req \<and> p = Clean req \<and> prefix (comps ws) (comps req)"
  using assms by (rule safePath_iff)

theorem safePath_accepts_exactly_witness:
  "safePath ''/workspace'' ''/workspace/a/../b/'' = Inr ''/workspace/b'' \<and>
   (\<forall>p. safePath ''/workspace'' ''/workspace/../etc/passwd'' \<noteq> Inr p)"
proof -
  have r: "rooted ''/workspace''" by (simp add: rooted_def)
  have "rooted ''/workspace/a/../b/'' \<and> Clean ''/workspace/a/../b/'' = ''/workspace/b'' \<and>
      prefix (comps ''/workspace'') (comps ''/workspace/a/../b/'') \<and>
      \<not> prefix (comps ''/workspace'') (comps ''/workspace/../etc/passwd'')" by code_simp
  then show ?thesis by (simp add: safePath_accepts_exactly [OF r])
qed

end
