(* ===== verification/Sequencing.thy ===== *)
theory Sequencing
  imports Prelude
begin

text \<open>
  The contract of a loop that runs a list of items in order, collects one result for each, and
  stops at the first result that is not good.  The state threaded through the loop may be
  richer than what is left when the loop ends (\<open>fin\<close>).
\<close>

locale stop_first =
  fixes run :: "'j list \<Rightarrow> 's \<Rightarrow> 'r list \<times> 'o"
    and step :: "'j \<Rightarrow> 's \<Rightarrow> 'r \<times> 's"
    and good :: "'r \<Rightarrow> bool"
    and fin :: "'s \<Rightarrow> 'o"
  assumes run_Nil: "run [] s = ([], fin s)"
    and run_Cons: "run (j # js) s =
      (case step j s of (r, s') \<Rightarrow>
         if good r then (case run js s' of (rs, out) \<Rightarrow> (r # rs, out)) else ([r], fin s'))"
begin

lemma run_length: "run js s = (rs, out) \<Longrightarrow> length rs \<le> length js"
  by (induction js arbitrary: s rs) (auto simp: run_Nil run_Cons split: prod.splits if_splits)

lemma run_nonempty: "js \<noteq> [] \<Longrightarrow> run js s = (rs, out) \<Longrightarrow> rs \<noteq> []"
  by (cases js) (auto simp: run_Cons split: prod.splits if_splits)

lemma all_but_last_good: "run js s = (rs, out) \<Longrightarrow> list_all good (butlast rs)"
  by (induction js arbitrary: s rs) (auto simp: run_Nil run_Cons split: prod.splits if_splits)

text \<open>Every item has a result unless the loop stopped early, and then the last one is bad.\<close>

lemma complete_or_bad:
  "run js s = (rs, out) \<Longrightarrow> length rs = length js \<or> rs \<noteq> [] \<and> \<not> good (last rs)"
proof (induction js arbitrary: s rs)
  case (Cons j js)
  then show ?case by (fastforce simp: run_Cons split: prod.splits if_splits)
qed (simp add: run_Nil)

text \<open>Items after the one that stopped the loop have no effect.\<close>

lemma rest_ignored: "run js s = (rs, out) \<Longrightarrow> run (take (length rs) js) s = (rs, out)"
proof (induction js arbitrary: s rs)
  case (Cons j js)
  then show ?case by (auto simp: run_Cons run_Nil split: prod.splits if_splits)
qed (simp add: run_Nil)

lemma run_invariant:
  assumes "\<And>j s r s'. j \<in> set js \<Longrightarrow> step j s = (r, s') \<Longrightarrow> I s \<Longrightarrow> I s'"
    and "run js s = (rs, out)" "I s"
  shows "\<exists>s'. I s' \<and> out = fin s'"
  using assms
proof (induction js arbitrary: s rs)
  case (Cons j js)
  obtain r s1 where st: "step j s = (r, s1)" by fastforce
  have s1: "I s1" by (rule Cons.prems(1) [OF _ st Cons.prems(3)]) simp
  show ?case
  proof (cases "good r")
    case True
    then obtain rs' where "run js s1 = (rs', out)"
      using Cons.prems(2) st by (auto simp: run_Cons split: prod.splits)
    then show ?thesis by (rule Cons.IH [rotated]) (use Cons.prems(1) s1 in auto)
  next
    case False
    with Cons.prems(2) st s1 show ?thesis by (auto simp: run_Cons)
  qed
qed (auto simp: run_Nil)

text \<open>A property of each result that holds at every step holds of the whole list.\<close>

lemma run_results:
  assumes "\<And>j s r s'. step j s = (r, s') \<Longrightarrow> T j r" and "run js s = (rs, out)"
  shows "list_all2 T (take (length rs) js) rs"
  using assms
proof (induction js arbitrary: s rs)
  case (Cons j js)
  then show ?case by (auto simp: run_Cons split: prod.splits if_splits)
qed (simp add: run_Nil)

end

end
