(* ===== verification/AgentBatch.thy ===== *)
theory AgentBatch
  imports AgentSafety Sequencing
begin

text \<open>
  The agent's batch loop and endpoint: the loop stops at the first failing job, batches of
  file jobs stay in a workspace without symbolic links, uploads and captured output respect
  their limits, and the endpoint runs at most one batch.
\<close>

section \<open>The loop over the jobs\<close>

lemma runJobs_acc:
  "runJobs run cfg ws defaults js up (rs @ rs') s =
     (case runJobs run cfg ws defaults js up rs' s of ((rs'', st), s') \<Rightarrow> ((rs @ rs'', st), s'))"
proof (induction js arbitrary: up rs' s)
  case (Cons j js)
  show ?case using Cons by (auto split: prod.split)
qed simp

lemma runJobs_acc1:
  "runJobs run cfg ws defaults js up [r] s =
     (case runJobs run cfg ws defaults js up [] s of ((rs, st), s') \<Rightarrow> ((r # rs, st), s'))"
  using runJobs_acc [of run cfg ws defaults js up "[r]" "[]" s] by simp

definition job_step :: "runner \<Rightarrow> Config \<Rightarrow> string \<Rightarrow> JobDefaults \<Rightarrow> Job \<Rightarrow> int \<times> os \<Rightarrow> JobResult \<times> int \<times> os" where
  "job_step run cfg ws defaults job = (\<lambda>(up, s). runJob run cfg ws defaults job up s)"

definition job_loop :: "runner \<Rightarrow> Config \<Rightarrow> string \<Rightarrow> JobDefaults \<Rightarrow> Job list \<Rightarrow> int \<times> os \<Rightarrow> JobResult list \<times> os" where
  "job_loop run cfg ws defaults js = (\<lambda>(up, s).
     case runJobs run cfg ws defaults js up [] s of ((rs, st), s') \<Rightarrow> (rs, s'))"

interpretation batch: stop_first "job_loop run cfg ws defaults" "job_step run cfg ws defaults" r_OK snd
  by unfold_locales
    (auto simp: job_loop_def job_step_def runJobs_acc1 split: prod.splits)

lemma job_loopI: "runJobs run cfg ws defaults js up [] s = ((rs, st), s') \<Longrightarrow>
    job_loop run cfg ws defaults js (up, s) = (rs, s')"
  by (simp add: job_loop_def)

lemma runJobs_status:
  "runJobs run cfg ws defaults js up rs0 s = ((rs, st), s') \<Longrightarrow> list_all r_OK rs0 \<Longrightarrow>
     st = (if list_all r_OK rs then 200 else 400)"
  by (induction js arbitrary: up rs0 s) (auto split: prod.splits if_splits)

lemma runJob_type: "runJob run cfg ws defaults job up s = (res, up', s') \<Longrightarrow> r_Type res = j_Type job"
  unfolding runJob_def mkdir_def finish_def writeFile_def exec_def exec_result_def ok_def fail_def
  by (auto simp: Let_def split: if_splits prod.splits sum.splits option.splits run_error.splits)

lemma runBatch_cases:
  assumes "runBatch run cfg req s = ((rs, st), s')"
  obtains (rejected) e where "rs = [fail '''' e]" "st = 400"
      "s' = snd (workspace_of cfg (b_Workspace req) s) \<or> s' = s"
  | (ran) ws s1 where "workspace_of cfg (b_Workspace req) s = (Inr ws, s1)" "b_Jobs req \<noteq> []"
      "runJobs run cfg ws (b_Defaults req) (b_Jobs req) 0 [] s1 = ((rs, st), s')"
  using assms unfolding runBatch_def batchError_def
  by (auto split: if_splits prod.splits sum.splits)

lemma list_all_butlast: "xs \<noteq> [] \<Longrightarrow> list_all P (butlast xs) \<Longrightarrow> list_all P xs \<longleftrightarrow> P (last xs)"
  by (induction xs rule: rev_induct) auto

text \<open>
  C19: a batch answers with at least one result; every result but the last is OK; the status is
  200 exactly when the last result is OK too, and then every job of the request has its
  result, in order.
\<close>

theorem runBatch_stops_at_first_failure:
  assumes "runBatch run cfg req s = ((rs, st), s')"
  shows "rs \<noteq> [] \<and> list_all r_OK (butlast rs) \<and> st = (if r_OK (last rs) then 200 else 400) \<and>
    (st = 200 \<longrightarrow> map r_Type rs = map j_Type (b_Jobs req))"
  using assms
proof (cases rule: runBatch_cases)
  case (rejected e)
  then show ?thesis by (simp add: fail_def)
next
  case (ran ws s1)
  note loop = job_loopI [OF ran(3)]
  have ne: "rs \<noteq> []" and bl: "list_all r_OK (butlast rs)"
    using batch.run_nonempty [OF ran(2) loop] batch.all_but_last_good [OF loop] by auto
  have st: "st = (if r_OK (last rs) then 200 else 400)"
    using runJobs_status [OF ran(3)] list_all_butlast [OF ne bl] by simp
  have ty: "r_Type r = j_Type j"
    if "job_step run cfg ws (b_Defaults req) j x = (r, x')" for j r and x x' :: "int \<times> os"
    using that runJob_type unfolding job_step_def by (cases x; cases x') auto
  have "list_all2 (\<lambda>j r. r_Type r = j_Type j) (take (length rs) (b_Jobs req)) rs"
    using batch.run_results [of run cfg ws "b_Defaults req" "\<lambda>j r. r_Type r = j_Type j", OF ty loop] .
  then have tys: "map r_Type rs = map j_Type (take (length rs) (b_Jobs req))"
    by (induction rule: list_all2_induct) auto
  have "st = 200 \<Longrightarrow> length rs = length (b_Jobs req)"
    using batch.complete_or_bad [OF loop] st by (auto split: if_splits)
  with ne bl st tys show ?thesis by auto
qed

section \<open>Workspaces without symbolic links\<close>

text \<open>The invariant of a batch of file jobs.\<close>

definition tidy :: "string list \<Rightarrow> os \<Rightarrow> os \<Rightarrow> bool" where
  "tidy w s0 s = (inside w s0 s \<and> linkfree w s)"

lemma stable_tidy [simp, intro]: "stable (tidy w s0)"
  by (auto simp: stable_def tidy_def linkfree_def inside_def)

lemma tidy_gentle: "tidy w s0 s \<Longrightarrow> gentle False q s s' \<Longrightarrow> prefix w q \<Longrightarrow> tidy w s0 s'"
  unfolding tidy_def linkfree_def using inside_gentle [of w s0 s q s'] by (auto simp: gentle_def)

lemma tidy_nolinks:
  assumes "tidy w s0 s" "prefix w p \<or> prefix p w"
  shows "nolinks (ent s) p"
  unfolding nolinks_iff
proof (intro allI impI)
  fix d assume d: "prefix d p"
  show "\<not> is_lnk (ent s d)"
  proof (cases "prefix w d")
    case True
    then show ?thesis using assms(1) by (simp add: tidy_def linkfree_def)
  next
    case False
    then have "prefix d w" using d assms(2) by (meson prefix_order.trans prefix_same_cases)
    then show ?thesis using assms(1) by (simp add: tidy_def inside_def solid_iff is_solid_iff)
  qed
qed

lemma tidy_resolve:
  assumes "tidy w s0 s" "cleaned p" "rooted p" "prefix w (comps p) \<or> prefix (comps p) w"
    and "resolve s f p = Inr q"
  shows "q = comps p"
proof -
  have n: "nolinks (ent s) (comps p)" using assms(1,4) by (rule tidy_nolinks)
  show ?thesis
    by (rule resolve_nolinks [OF assms(2,3) nolinks_butlast [OF n] _ assms(5)]) (use n in \<open>simp add: nolinks_iff\<close>)
qed

lemma valid_tidy:
  assumes "touches False f p m" "cleaned p" "rooted p" "prefix w (comps p)"
  shows "valid (tidy w s0) m (\<lambda>_. tidy w s0) (tidy w s0)"
proof -
  have "tidy w s0 s'" if t: "tidy w s0 s" and m: "m s = (r, s')" for s r s'
  proof -
    have "q = comps p" if "resolve s f p = Inr q" for q
      using tidy_resolve [OF t assms(2,3) _ that] assms(4) by simp
    with m assms(1) consider t where "s' = s\<lparr>tick := t\<rparr>" | "gentle False (comps p) s s'"
      unfolding touches_def by metis
    then show ?thesis using t assms(4) by cases (auto simp: stable_tick intro: tidy_gentle)
  qed
  then show ?thesis by (intro validI)
qed

lemma valid_tidy_MkdirAll:
  assumes "cleaned p" "rooted p" "prefix w (comps p) \<or> prefix (comps p) w"
  shows "valid (tidy w s0) (MkdirAll p m) (\<lambda>_. tidy w s0) (tidy w s0)"
proof (rule valid_MkdirAll_inside [where w = w])
  show "nolinks (ent s) (butlast (comps p))" if "tidy w s0 s" for s
    using tidy_nolinks [OF that assms(3)] by (rule nolinks_butlast)
  show "solid (ent s) w" if "tidy w s0 s" for s using that by (simp add: tidy_def inside_def)
qed (use assms in \<open>auto intro: tidy_gentle\<close>)

lemma valid_tidy_Open:
  assumes "cleaned p" "rooted p" "prefix w (comps p)"
  shows "valid (tidy w s0) (OpenTruncNoFollow p m)
    (\<lambda>i s. tidy w s0 s \<and> ent s (comps p) = Some (RegE i)) (tidy w s0)"
proof -
  have "valid (tidy w s0) (OpenTruncNoFollow p m) (\<lambda>_. tidy w s0) (tidy w s0)"
    using touches_OpenTruncNoFollow assms by (rule valid_tidy)
  moreover have "ent s' (comps p) = Some (RegE i)"
    if "tidy w s0 s" "OpenTruncNoFollow p m s = (Inr i, s')" for s i s'
    by (rule OpenTruncNoFollow_result [OF _ that(2)]) (use tidy_resolve [OF that(1) assms(1,2)] assms(3) in simp)
  ultimately show ?thesis by (intro validI) (auto dest: valid_Inr valid_Inl)
qed

lemma valid_tidy_FWrite:
  assumes "prefix w q"
  shows "valid (\<lambda>s. tidy w s0 s \<and> ent s q = Some (RegE i)) (FWrite i bs) (\<lambda>_. tidy w s0) (tidy w s0)"
proof -
  have "valid (\<lambda>s. tidy w s0 s \<and> ent s q = Some (RegE i)) (FWrite i bs) (\<lambda>_. inside w s0) (inside w s0)"
    by (rule valid_conseq [OF valid_FWrite [where q = q]]) (auto simp: tidy_def assms)
  then show ?thesis
    by (intro validI) (auto simp: tidy_def linkfree_def dest: valid_Inr valid_Inl FWrite_ent)
qed

lemma valid_tidy_parent:
  assumes "cleaned t" "rooted t" "prefix w (comps t)"
  shows "valid (tidy w s0) (MkdirAll (Dir t) m) (\<lambda>_. tidy w s0) (tidy w s0)"
proof (rule valid_tidy_MkdirAll)
  show "prefix w (comps (Dir t)) \<or> prefix (comps (Dir t)) w"
    using Dir_cleaned [OF assms(1)] assms(3)
    by (cases "comps t" rule: rev_cases) (auto simp: prefix_snoc)
qed (use assms Dir_cleaned in auto)

lemma valid_tidy_chown:
  assumes "cleaned p" "rooted p" "prefix w (comps p)"
  shows "valid (tidy w s0) (chownIfNeeded p u g) (\<lambda>_. tidy w s0) (tidy w s0)"
  unfolding chownIfNeeded_def
  by (rule valid_andThen [OF valid_reads, where Q = "\<lambda>_. tidy w s0"])
    (auto intro!: valid_if valid_ret valid_wrap valid_tidy [OF touches_chown(2) assms])

lemma valid_tidy_writeFile:
  assumes t: "cleaned t" "rooted t" "prefix w (comps t)"
  shows "valid (tidy w s0) (writeFile_store cfg ws defaults job t mode bs) (\<lambda>_. tidy w s0) (tidy w s0)"
proof -
  let ?T = "tidy w s0"
  have parents: "valid ?T (if j_CreateParents job then wrap CreateParentsFailed (MkdirAll (Dir t) 493) else ret ())
      (\<lambda>_. ?T) ?T"
    by (intro valid_if valid_wrap valid_tidy_parent t valid_ret)
  have check: "valid ?T (ensureSafeParents ws t) (\<lambda>_. ?T) ?T"
    by (intro valid_readonly readonly_ensureSafeParents stable_tidy)
  have lstat: "valid ?T (attempt (Lstat t)) (\<lambda>_. ?T) ?T"
    by (intro valid_attempt_same valid_readonly readonly_Lstat stable_tidy)
  have close: "valid ?T (attempt (FClose i)) (\<lambda>_. ?T) ?T" for i
    by (intro valid_attempt_same valid_readonly readonly_FClose stable_tidy)
  have chmod: "valid ?T (wrap ChmodFailed (Chmod t mode)) (\<lambda>_. ?T) ?T"
    by (intro valid_wrap valid_tidy [OF touches_chown(1) t])
  have wr: "valid (\<lambda>s. ?T s \<and> ent s (comps t) = Some (RegE i)) (attempt (FWrite i bs)) (\<lambda>_. ?T) ?T" for i
    by (rule valid_attempt [OF valid_conseq [OF valid_tidy_FWrite [OF t(3)]]]) auto
  show ?thesis
    unfolding writeFile_store_def
    by (intro valid_andThen [OF parents] valid_andThen [OF check] valid_andThen [OF lstat] valid_if
        valid_throw valid_andThen [OF valid_wrap [OF valid_tidy_Open [OF t]]] valid_andThen [OF wr]
        valid_andThen [OF close] valid_andThen [OF chmod] valid_sum valid_prod valid_tidy_chown t)
qed

lemma valid_tidy_mkdir:
  assumes "rooted ws"
  shows "valid (tidy (comps ws) s0) (mkdir_body cfg ws defaults job) (\<lambda>_. tidy (comps ws) s0) (tidy (comps ws) s0)"
  unfolding mkdir_body_def
proof (intro valid_sum valid_throw)
  let ?T = "tidy (comps ws) s0"
  fix t mode assume p: "safePath ws (j_Path job) = Inr t"
  note t = safePath_facts [OF assms p]
  have check: "valid ?T (ensureSafeParents ws t) (\<lambda>_. ?T) ?T"
    by (intro valid_readonly readonly_ensureSafeParents stable_tidy)
  have mk: "valid ?T (MkdirAll t mode) (\<lambda>_. ?T) ?T"
    by (rule valid_tidy_MkdirAll) (use t in auto)
  show "valid ?T (andThen (ensureSafeParents ws t) (\<lambda>_. andThen (wrap MkdirFailed (MkdirAll t mode)) (\<lambda>_.
      case credentials cfg defaults job of (uid, gid) \<Rightarrow> chownIfNeeded t uid gid))) (\<lambda>_. ?T) ?T"
    by (intro valid_andThen [OF check] valid_andThen [OF valid_wrap [OF mk]] valid_prod valid_tidy_chown t)
qed

lemma runJob_tidy:
  assumes "rooted ws" "j_Type job \<noteq> JobExec" "tidy (comps ws) s0 s"
    and "runJob run cfg ws defaults job up s = (res, up', s')"
  shows "tidy (comps ws) s0 s'"
proof -
  consider (mk) "mkdir cfg ws defaults job s = (res, s')"
    | (wr) "writeFile cfg ws defaults job up s = (res, up', s')" | (other) "s' = s"
    using assms(2,4) unfolding runJob_def by (auto split: if_splits prod.splits)
  then show ?thesis
  proof cases
    case mk
    then show ?thesis
      unfolding mkdir_def using finish_valid [OF valid_tidy_mkdir [OF assms(1)] assms(3)] by blast
  next
    case wr
    then show ?thesis
    proof (cases rule: writeFile_cases)
      case (stored t mode bs)
      show ?thesis
        using finish_valid [OF valid_tidy_writeFile [OF safePath_facts [OF assms(1) stored(1)]] assms(3) stored(7)] .
    qed (use assms(3) in simp)
  qed (use assms(3) in simp)
qed

lemma workspace_of_cases:
  assumes "workspace_of cfg requested s = (r, s')"
  shows "s' = s \<or> s' = snd (MkdirAll (Clean (c_Workspace cfg)) 493 s)"
    and "r = Inr ws \<Longrightarrow> ws = Clean (c_Workspace cfg) \<and> rooted ws"
  using assms unfolding workspace_of_def Let_def andThen_def wrap_def throw_def ret_def IsAbs_def
  by (auto split: if_splits prod.splits sum.splits dest: arg_cong [where f = rooted])

text \<open>
  C8: in a workspace that is a real directory without symbolic links, a batch of \<open>mkdir\<close> and
  \<open>write_file\<close> jobs, with or without \<open>create_parents\<close>, changes nothing outside the workspace.
\<close>

theorem runBatch_confined:
  assumes "ready (Clean (c_Workspace cfg)) s" "linkfree (comps (c_Workspace cfg)) s"
    and "list_all (\<lambda>job. j_Type job \<noteq> JobExec) (b_Jobs req)"
    and "runBatch run cfg req s = ((rs, st), s')"
  shows "confined (comps (c_Workspace cfg)) s s'"
proof -
  define ws where "ws = Clean (c_Workspace cfg)"
  have ws: "cleaned ws" "rooted ws" and w: "comps (c_Workspace cfg) = comps ws"
    using assms(1) by (simp_all add: ready_def ws_def)
  have T: "tidy (comps ws) s s"
    using assms(2) ready_inside [OF assms(1)] by (simp add: tidy_def ws_def)
  have "tidy (comps ws) s (snd (MkdirAll ws 493 s))"
    using valid_tidy_MkdirAll [OF ws, of "comps ws" s 493] T
    by (cases "MkdirAll ws 493 s"; cases "fst (MkdirAll ws 493 s)") (auto dest: valid_Inr valid_Inl)
  then have wof: "tidy (comps ws) s s1" if "workspace_of cfg (b_Workspace req) s = (r, s1)" for r s1
    using workspace_of_cases(1) [OF that] T by (auto simp: ws_def)
  from assms(4) have "tidy (comps ws) s s'"
  proof (cases rule: runBatch_cases)
    case (rejected e)
    then show ?thesis using T wof by (metis prod.collapse)
  next
    case (ran ws' s1)
    have ws': "ws' = ws" using workspace_of_cases(2) [OF ran(1)] by (simp add: ws_def)
    have step: "tidy (comps ws) s (snd x')"
      if "j \<in> set (b_Jobs req)" "job_step run cfg ws (b_Defaults req) j x = (r, x')" "tidy (comps ws) s (snd x)"
      for j r x x'
      using that assms(3) runJob_tidy [OF ws(2)] unfolding job_step_def
      by (cases x; cases x') (fastforce simp: list_all_iff)
    have "\<exists>x'. tidy (comps ws) s (snd x') \<and> s' = snd x'"
      using batch.run_invariant [where I = "\<lambda>x. tidy (comps ws) s (snd x)", OF step job_loopI [OF ran(3) [unfolded ws']]]
        wof [OF ran(1)] by auto
    then show ?thesis by auto
  qed
  then show ?thesis by (simp add: w tidy_def inside_def)
qed


section \<open>A concrete batch\<close>

definition tidy_os :: os where
  "tidy_os = demo_os\<lparr>ents := [([], DirE root_attr), ([''etc''], DirE root_attr), ([''workspace''], DirE root_attr)]\<rparr>"

definition no_runner :: runner where
  "no_runner = \<lparr>run_cmd = (\<lambda>c s. (\<lparr>ro_stdout = [], ro_stderr = [], ro_err = None, ro_deadline = False, ro_pid = None\<rparr>, s)),
     kill_group = (\<lambda>pid s. s)\<rparr>"

definition demo_batch :: "Job list \<Rightarrow> BatchRequest" where
  "demo_batch js = \<lparr>b_Version = 1, b_Workspace = '''', b_Defaults = zero_defaults, b_Jobs = js, b_Shutdown = True\<rparr>"

theorem runBatch_stops_at_first_failure_witness:
  "let ((rs, st), s') = runBatch no_runner demo_cfg
         (demo_batch [write_job ''/workspace/a'' False, write_job ''/etc/a'' False, mkdir_job ''/workspace/b'']) tidy_os
   in length rs = 2 \<and> st = (if r_OK (last rs) then 200 else 400) \<and> st = 400"
proof -
  let ?b = "runBatch no_runner demo_cfg
    (demo_batch [write_job ''/workspace/a'' False, write_job ''/etc/a'' False, mkdir_job ''/workspace/b'']) tidy_os"
  have v: "length (fst (fst ?b)) = 2 \<and> snd (fst ?b) = 400" by code_simp
  obtain rs st s' where b: "?b = ((rs, st), s')" by (metis prod.collapse)
  show ?thesis using runBatch_stops_at_first_failure [OF b] v by (simp add: b)
qed

lemma tidy_os_facts:
  "ready (Clean (c_Workspace demo_cfg)) tidy_os" "linkfree (comps (c_Workspace demo_cfg)) tidy_os"
proof -
  have "cleaned (Clean (c_Workspace demo_cfg)) \<and> rooted (Clean (c_Workspace demo_cfg)) \<and>
      solid (ent tidy_os) (comps (Clean (c_Workspace demo_cfg)))"
    unfolding cleaned_def by code_simp
  moreover have "bounded tidy_os" "linkfree p tidy_os" for p
    by (auto simp: bounded_def linkfree_def ent_def tidy_os_def split: if_splits)
  ultimately show "ready (Clean (c_Workspace demo_cfg)) tidy_os"
    "linkfree (comps (c_Workspace demo_cfg)) tidy_os"
    by (simp_all add: ready_def)
qed

theorem runBatch_confined_witness:
  "confined (comps ''/workspace'') tidy_os (snd (runBatch no_runner demo_cfg
     (demo_batch [write_job ''/workspace/d/e/a'' True, mkdir_job ''/workspace/b'']) tidy_os))"
proof -
  let ?req = "demo_batch [write_job ''/workspace/d/e/a'' True, mkdir_job ''/workspace/b'']"
  obtain rs st s' where b: "runBatch no_runner demo_cfg ?req tidy_os = ((rs, st), s')"
    by (metis prod.collapse)
  have ne: "list_all (\<lambda>job. j_Type job \<noteq> JobExec) (b_Jobs ?req)" by code_simp
  have "c_Workspace demo_cfg = ''/workspace''" by (simp add: demo_cfg_def)
  with runBatch_confined [OF tidy_os_facts ne b] show ?thesis by (simp add: b)
qed

end
