(* ===== verification/GoStrconv.thy ===== *)
theory GoStrconv
  imports Prelude
begin

text \<open>
  The conversions of package \<open>strconv\<close> that the sources and package \<open>encoding/json\<close> use: decimal integers.
\<close>

text \<open>\<open>strconv.Atoi\<close>: an optional sign and decimal digits, within 64 bits.\<close>

definition digits_val :: "string \<Rightarrow> int" where
  "digits_val ds = foldl (\<lambda>a c. 10 * a + (int (of_char c) - 48)) 0 ds"

definition Atoi :: "string \<Rightarrow> int option" where
  "Atoi s =
     (case (case s of c # cs \<Rightarrow> if c = CHR ''-'' then (True, cs) else if c = CHR ''+'' then (False, cs) else (False, s)
                  | [] \<Rightarrow> (False, [])) of
        (neg, ds) \<Rightarrow>
          if ds = [] \<or> \<not> list_all is_digit ds then None
          else let n = (if neg then - digits_val ds else digits_val ds) in
            if - (2 ^ 63) \<le> n \<and> n < 2 ^ 63 then Some n else None)"

lemma of_digit_char: "k < 10 \<Longrightarrow> int (of_char (digit_char k)) - 48 = int k"
  by (simp add: digit_char_def of_char_of)

lemma digits_val_snoc: "digits_val (ds @ [c]) = 10 * digits_val ds + (int (of_char c) - 48)"
  by (simp add: digits_val_def)

lemma digits_val_itoa: "digits_val (itoa n) = int n"
proof (induction n rule: less_induct)
  case (less n)
  show ?case
  proof (cases "n < 10")
    case True
    then show ?thesis using digits_val_snoc [of "[]" "digit_char n"] of_digit_char [OF True]
      by (subst itoa.simps) (simp add: digits_val_def)
  next
    case False
    then have "digits_val (itoa (n div 10)) = int (n div 10)" by (intro less) simp
    moreover have "int n = 10 * int (n div 10) + int (n mod 10)" by (simp add: zdiv_int zmod_int)
    ultimately show ?thesis
      using False of_digit_char [of "n mod 10"] by (subst itoa.simps) (simp add: digits_val_snoc)
  qed
qed

lemma itoa_not_Nil: "itoa n \<noteq> []"
  by (subst itoa.simps) simp

lemma itoa_length: "n < 10 ^ Suc k \<Longrightarrow> length (itoa n) \<le> Suc k"
proof (induction k arbitrary: n)
  case 0
  then show ?case by (subst itoa.simps) simp
next
  case (Suc k)
  then have "n div 10 < 10 ^ Suc k" by (simp add: div_less_iff_less_mult mult.commute)
  then show ?case using Suc.IH [of "n div 10"] by (subst itoa.simps) simp
qed

lemma Atoi_itoa: "n < 2 ^ 63 \<Longrightarrow> Atoi (itoa n) = Some (int n)"
proof -
  assume n: "n < 2 ^ 63"
  obtain c cs where c: "itoa n = c # cs" using itoa_not_Nil by (cases "itoa n") auto
  have d: "list_all is_digit (c # cs)" using itoa_digits [of n] by (simp add: c)
  then have "c \<noteq> CHR ''-''" "c \<noteq> CHR ''+''" by (auto simp: is_digit_def)
  moreover have "int n < 2 ^ 63" using n by simp
  ultimately show ?thesis using d digits_val_itoa [of n] by (simp add: Atoi_def c)
qed

text \<open>\<open>strconv.Itoa\<close> and \<open>ParseUint\<close> for 32 bits.\<close>

definition Itoa :: "int \<Rightarrow> string" where
  "Itoa i = (if i < 0 then ''-'' else '''') @ itoa (nat \<bar>i\<bar>)"

definition ParseUint32 :: "string \<Rightarrow> uint32 option" where
  "ParseUint32 s = (if s \<noteq> [] \<and> list_all is_digit s \<and> digits_val s < 2 ^ 32 then Some (word_of_int (digits_val s)) else None)"

lemma Atoi_Itoa:
  assumes "- (2 ^ 63) \<le> i" "i < 2 ^ 63"
  shows "Atoi (Itoa i) = Some i"
proof (cases "i < 0")
  case True
  then show ?thesis using assms itoa_not_Nil [of "nat (- i)"] itoa_digits [of "nat (- i)"] digits_val_itoa [of "nat (- i)"]
    by (simp add: Itoa_def Atoi_def)
next
  case False
  then have "nat i < 2 ^ 63" using assms(2) by (simp add: nat_less_iff)
  from Atoi_itoa [OF this] False show ?thesis by (simp add: Itoa_def)
qed

lemma ParseUint32_Itoa: "ParseUint32 (Itoa (uint w)) = Some w"
proof -
  have u: "Itoa (uint w) = itoa (nat (uint w))" by (simp add: Itoa_def)
  have d: "digits_val (itoa (nat (uint w))) = uint w" unfolding digits_val_itoa by simp
  have "uint w < 2 ^ 32" using uint_lt2p [of w] by simp
  then show ?thesis unfolding u ParseUint32_def d using itoa_not_Nil itoa_digits by simp
qed

text \<open>Decimal integers have no leading zero.\<close>

lemma itoa_hd: "0 < n \<Longrightarrow> hd (itoa n) \<noteq> CHR ''0''"
proof (induction n rule: less_induct)
  case (less n)
  show ?case
  proof (cases "n < 10")
    case True
    then have "int (of_char (digit_char n)) - 48 \<noteq> int (of_char CHR ''0'') - 48" using less.prems of_digit_char [OF True] by simp
    then have "digit_char n \<noteq> CHR ''0''" by metis
    then show ?thesis using True by (subst itoa.simps) simp
  next
    case False
    then have "hd (itoa (n div 10)) \<noteq> CHR ''0''" by (intro less) auto
    then show ?thesis using False itoa_not_Nil [of "n div 10"] by (subst itoa.simps) simp
  qed
qed

end
