(* ===== verification/AgentClient.thy ===== *)
theory AgentClient
  imports AgentBatch Polling GoStrconv
begin

text \<open>
  The host's client of the guest agent (\<open>internal/agentclient/client.go\<close>) and the loops that
  use it (\<open>retryJobs\<close> of \<open>internal/firecracker/runner.go\<close>, \<open>waitForAgent\<close> of \<open>snapshot.go\<close>).
  The HTTP transport is an argument: what an exchange delivers, \<open>None\<close> when it fails or its answer
  is lost.  Fields and numbers of the vsock handshake are read as in packages \<open>bytes\<close> and
  \<open>strconv\<close>; the white space is that of ASCII.
\<close>

section \<open>The vsock handshake\<close>

definition DefaultVsockPort :: int where "DefaultVsockPort = 1024"

datatype client_error =
    ReadFailed
  | LineTooLong nat
  | UnexpectedResponse string
  | InvalidPort string
  | DialFailed
  | SendFailed
  | TransportError
  | DecodeError
  | JobsStatus nat
  | HealthStatus nat
  | CtxDone client_error

text \<open>What \<open>conn.Read\<close> of one byte delivers: a byte, nothing, or an error.\<close>

datatype read_event = Byte char | NoByte | ReadErr

text \<open>
  \<open>readLine\<close>: the result with the events left, or \<open>None\<close> while the connection stays silent.
\<close>

fun readLine :: "nat \<Rightarrow> string \<Rightarrow> read_event list \<Rightarrow> ((client_error + string) \<times> read_event list) option" where
  "readLine limit buf [] = (if length buf < limit then None else Some (Inl (LineTooLong limit), []))"
| "readLine limit buf (e # es) =
     (if length buf < limit
      then (case e of
              ReadErr \<Rightarrow> Some (Inl ReadFailed, es)
            | NoByte \<Rightarrow> readLine limit buf es
            | Byte c \<Rightarrow> if c = CHR 0x0A then Some (Inr (buf @ [c]), es) else readLine limit (buf @ [c]) es)
      else Some (Inl (LineTooLong limit), e # es))"

definition is_space :: "char \<Rightarrow> bool" where
  "is_space c = (c \<in> {CHR '' '', CHR 0x09, CHR 0x0A, CHR 0x0B, CHR 0x0C, CHR 0x0D})"

text \<open>\<open>bytes.Fields\<close>: \<open>w\<close> is the field read so far.\<close>

fun fields_from :: "string \<Rightarrow> string \<Rightarrow> string list" where
  "fields_from w [] = (if w = [] then [] else [w])"
| "fields_from w (c # cs) =
     (if is_space c then (if w = [] then fields_from [] cs else w # fields_from [] cs) else fields_from (w @ [c]) cs)"

definition Fields :: "string \<Rightarrow> string list" where
  "Fields s = fields_from [] s"

definition parseConnectOK :: "string \<Rightarrow> client_error + int" where
  "parseConnectOK line =
     (case Fields line of
        [f0, f1] \<Rightarrow>
          if f0 \<noteq> ''OK'' then Inl (UnexpectedResponse line)
          else (case Atoi f1 of
                  None \<Rightarrow> Inl (InvalidPort f1)
                | Some port \<Rightarrow> if port \<le> 0 then Inl (InvalidPort f1) else Inr port)
      | _ \<Rightarrow> Inl (UnexpectedResponse line))"

text \<open>
  The dialer of \<open>NewFirecrackerVsock\<close>: what it sends, what it makes of the answer, and the connection handed to
  HTTP or the error after which it is closed.
\<close>

definition vsockPort :: "int \<Rightarrow> int" where
  "vsockPort port = (if port = 0 then DefaultVsockPort else port)"

definition connectLine :: "int \<Rightarrow> string" where
  "connectLine port = ''CONNECT '' @ Itoa port @ [CHR 0x0A]"

definition vsockHandshake :: "read_event list \<Rightarrow> (client_error + read_event list) option" where
  "vsockHandshake events =
     (case readLine 1024 [] events of
        None \<Rightarrow> None
      | Some (Inl e, rest) \<Rightarrow> Some (Inl e)
      | Some (Inr line, rest) \<Rightarrow>
          (case parseConnectOK line of Inl e \<Rightarrow> Some (Inl e) | Inr port \<Rightarrow> Some (Inr rest)))"

text \<open>
  The host's side of the Unix socket: whether connecting to a path and writing the line succeed, and what can be read
  after that.  A dial returns the connection, as the events left on it, or an error, with the calls it made; \<open>None\<close>
  when the other side stays silent.
\<close>

record unix_env =
  ue_connect :: "string \<Rightarrow> bool"
  ue_write :: bool
  ue_events :: "read_event list"

datatype conn_call = Connect string | Send string | CloseConn

type_synonym dialed = "(client_error + read_event list) \<times> conn_call list"

definition vsockDial :: "string \<Rightarrow> int \<Rightarrow> unix_env \<Rightarrow> dialed option" where
  "vsockDial socketPath port env =
     (if \<not> ue_connect env socketPath then Some (Inl DialFailed, [Connect socketPath])
      else if \<not> ue_write env then Some (Inl SendFailed, [Connect socketPath, Send (connectLine port), CloseConn])
      else (case vsockHandshake (ue_events env) of
              None \<Rightarrow> None
            | Some (Inl e) \<Rightarrow> Some (Inl e, [Connect socketPath, Send (connectLine port), CloseConn])
            | Some (Inr conn) \<Rightarrow> Some (Inr conn, [Connect socketPath, Send (connectLine port)])))"

section \<open>Clients\<close>

record http_client =
  hc_DialContext :: "unix_env \<Rightarrow> dialed option"
  hc_DisableKeepAlives :: bool
  hc_ResponseHeaderTimeout :: int

record Client =
  cl_http :: http_client
  cl_baseURL :: string

definition NewWithDialer :: "(unix_env \<Rightarrow> dialed option) \<Rightarrow> Client" where
  "NewWithDialer dialContext =
     \<lparr>cl_http = \<lparr>hc_DialContext = dialContext, hc_DisableKeepAlives = True, hc_ResponseHeaderTimeout = 30 * second\<rparr>,
      cl_baseURL = ''http://vm''\<rparr>"

text \<open>\<open>NewHTTP\<close>: a nil client is package \<open>http\<close>'s \<open>DefaultClient\<close>, the first argument.\<close>

definition NewHTTP :: "http_client \<Rightarrow> http_client option \<Rightarrow> string \<Rightarrow> Client" where
  "NewHTTP defaultClient httpClient baseURL =
     \<lparr>cl_http = (case httpClient of None \<Rightarrow> defaultClient | Some c \<Rightarrow> c), cl_baseURL = baseURL\<rparr>"

definition NewFirecrackerVsock :: "string \<Rightarrow> int \<Rightarrow> Client" where
  "NewFirecrackerVsock socketPath port = NewWithDialer (vsockDial socketPath (vsockPort port))"

section \<open>Requests\<close>

text \<open>
  A request as the server sees it.  \<open>URLPath\<close> is the path of a plain \<open>http\<close> URL; a request to anything else fails.
\<close>

record http_request =
  hq_Method :: string
  hq_Path :: string
  hq_ContentType :: string
  hq_Body :: string

definition URLPath :: "string \<Rightarrow> string option" where
  "URLPath u = (if HasPrefix u ''http://'' then Some (dropWhile (\<lambda>c. c \<noteq> slash) (drop 7 u)) else None)"

definition healthRequest :: "Client \<Rightarrow> http_request option" where
  "healthRequest c = map_option (\<lambda>p. \<lparr>hq_Method = ''GET'', hq_Path = p, hq_ContentType = '''', hq_Body = ''''\<rparr>)
     (URLPath (cl_baseURL c @ ''/healthz''))"

definition jobsRequest :: "(BatchRequest \<Rightarrow> string) \<Rightarrow> Client \<Rightarrow> BatchRequest \<Rightarrow> http_request option" where
  "jobsRequest marshal c request =
     map_option (\<lambda>p. \<lparr>hq_Method = ''POST'', hq_Path = p, hq_ContentType = ''application/json'', hq_Body = marshal request\<rparr>)
       (URLPath (cl_baseURL c @ ''/jobs''))"

text \<open>
  \<open>http.Client.Do\<close> with keep-alives disabled: a connection of its own for every request.  The peer is what comes back on it,
  the answer with the nanoseconds until its headers arrive, \<open>None\<close> when it is lost.  A dial that stays silent ends without
  an answer, with the request's context.
\<close>

type_synonym peer = "http_request \<Rightarrow> (reply \<times> int) option"

definition Do :: "unix_env \<Rightarrow> peer \<Rightarrow> Client \<Rightarrow> http_request \<Rightarrow> reply option" where
  "Do env peer c q =
     (case hc_DialContext (cl_http c) env of
        Some (Inr conn, calls) \<Rightarrow>
          (case peer q of
             None \<Rightarrow> None
           | Some (r, t) \<Rightarrow>
               if hc_ResponseHeaderTimeout (cl_http c) > 0 \<and> t > hc_ResponseHeaderTimeout (cl_http c) then None else Some r)
      | _ \<Rightarrow> None)"

text \<open>
  Decoding a reply into a \<open>BatchResponse\<close>: the agent's plain-text errors are no JSON, and at most 16 MiB
  of the body are read; \<open>json_len\<close> is the length of an encoded response.
\<close>

definition maxReplyBytes :: nat where "maxReplyBytes = 16 * 2 ^ 20"

definition decodeReply :: "(BatchResponse \<Rightarrow> nat) \<Rightarrow> reply \<Rightarrow> BatchResponse option" where
  "decodeReply json_len r =
     (case r of TextReply st t \<Rightarrow> None
      | BatchReply st resp \<Rightarrow> if json_len resp \<le> maxReplyBytes then Some resp else None)"

fun replyStatus :: "reply \<Rightarrow> nat" where
  "replyStatus (TextReply st t) = st"
| "replyStatus (BatchReply st resp) = st"

definition client_Health :: "reply option \<Rightarrow> client_error option" where
  "client_Health r = (case r of None \<Rightarrow> Some TransportError
     | Some rep \<Rightarrow> if replyStatus rep \<noteq> 200 then Some (HealthStatus (replyStatus rep)) else None)"

definition client_Jobs :: "(BatchResponse \<Rightarrow> nat) \<Rightarrow> reply option \<Rightarrow> BatchResponse option \<times> client_error option" where
  "client_Jobs json_len r =
     (case r of
        None \<Rightarrow> (None, Some TransportError)
      | Some rep \<Rightarrow>
          (case decodeReply json_len rep of
             None \<Rightarrow> (None, Some DecodeError)
           | Some resp \<Rightarrow>
               if replyStatus rep < 200 \<or> replyStatus rep \<ge> 300 then (Some resp, Some (JobsStatus (replyStatus rep)))
               else (Some resp, None)))"

text \<open>The two methods as a whole: the request, the exchange, and what is made of the reply.\<close>

definition Health :: "unix_env \<Rightarrow> peer \<Rightarrow> Client \<Rightarrow> client_error option" where
  "Health env peer c =
     (case healthRequest c of None \<Rightarrow> Some TransportError | Some q \<Rightarrow> client_Health (Do env peer c q))"

definition Jobs :: "(BatchRequest \<Rightarrow> string) \<Rightarrow> (BatchResponse \<Rightarrow> nat) \<Rightarrow> unix_env \<Rightarrow> peer \<Rightarrow> Client \<Rightarrow> BatchRequest
    \<Rightarrow> BatchResponse option \<times> client_error option" where
  "Jobs marshal json_len env peer c request =
     (case jobsRequest marshal c request of None \<Rightarrow> (None, Some TransportError) | Some q \<Rightarrow> client_Jobs json_len (Do env peer c q))"

text \<open>One round of \<open>retryJobs\<close> and of \<open>waitForAgent\<close>; \<open>cancelled k\<close> says that the context is done in round \<open>k\<close>.\<close>

definition retryRound :: "(BatchResponse \<Rightarrow> nat) \<Rightarrow> (nat \<Rightarrow> reply option) \<Rightarrow> (nat \<Rightarrow> bool) \<Rightarrow> nat
    \<Rightarrow> (BatchResponse option \<times> client_error option) option" where
  "retryRound json_len replies cancelled k =
     (case client_Jobs json_len (replies k) of
        (resp, err) \<Rightarrow>
          if err = None \<or> resp \<noteq> None then Some (resp, err)
          else if cancelled k then Some (None, map_option CtxDone err) else None)"

definition retryJobs :: "(BatchResponse \<Rightarrow> nat) \<Rightarrow> (nat \<Rightarrow> reply option) \<Rightarrow> (nat \<Rightarrow> bool)
    \<Rightarrow> (BatchResponse option \<times> client_error option) option" where
  "retryJobs json_len replies cancelled = poll (retryRound json_len replies cancelled) 0"

definition waitRound :: "(nat \<Rightarrow> reply option) \<Rightarrow> (nat \<Rightarrow> bool) \<Rightarrow> nat \<Rightarrow> client_error option option" where
  "waitRound replies cancelled k =
     (case client_Health (replies k) of
        None \<Rightarrow> Some None
      | Some e \<Rightarrow> if cancelled k then Some (Some (CtxDone e)) else None)"

definition waitForAgent :: "(nat \<Rightarrow> reply option) \<Rightarrow> (nat \<Rightarrow> bool) \<Rightarrow> client_error option option" where
  "waitForAgent replies cancelled = poll (waitRound replies cancelled) 0"

section \<open>The handshake reads exactly one line\<close>

lemma readLine_line:
  "CHR 0x0A \<notin> set l \<Longrightarrow> length buf + length l < limit \<Longrightarrow>
   readLine limit buf (map Byte (l @ [CHR 0x0A]) @ rest) = Some (Inr (buf @ l @ [CHR 0x0A]), rest)"
  by (induction l arbitrary: buf) auto

lemma fields_from_word: "list_all (\<lambda>c. \<not> is_space c) v \<Longrightarrow> fields_from w (v @ s) = fields_from (w @ v) s"
  by (induction v arbitrary: w) auto

lemma digit_not_space: "is_digit c \<Longrightarrow> \<not> is_space c"
  by (auto simp: is_digit_def is_space_def)

lemma parseConnectOK_reply: "0 < n \<Longrightarrow> n < 2 ^ 63 \<Longrightarrow> parseConnectOK (''OK '' @ itoa n @ [CHR 0x0A]) = Inr (int n)"
proof -
  assume n: "0 < n" "n < 2 ^ 63"
  have sp: "list_all (\<lambda>c. \<not> is_space c) (itoa n)" using itoa_digits [of n] digit_not_space by (auto simp: list_all_iff)
  have "Fields (''OK '' @ itoa n @ [CHR 0x0A]) = [''OK'', itoa n]"
    using fields_from_word [OF sp, of "[]" "[CHR 0x0A]"] itoa_not_Nil [of n] by (simp add: Fields_def is_space_def)
  then show ?thesis using n Atoi_itoa [OF n(2)] by (simp add: parseConnectOK_def)
qed

section \<open>The one-shot agent behind the retry loop\<close>

text \<open>
  The agent's answers to the same request, sent again and again: \<open>agent_after k\<close> is the agent
  with its operating system after \<open>k\<close> requests.
\<close>

primrec agent_after :: "(string \<Rightarrow> (BatchRequest \<times> string) option) \<Rightarrow> runner \<Rightarrow> string \<Rightarrow> nat \<Rightarrow> Server \<times> os \<Rightarrow> Server \<times> os" where
  "agent_after json run body 0 a = a"
| "agent_after json run body (Suc k) a =
     (case agent_after json run body k a of (srv, s) \<Rightarrow>
       (case jobs json run srv body s of (rep, sd, srv', s') \<Rightarrow> (srv', s')))"

definition agent_reply :: "(string \<Rightarrow> (BatchRequest \<times> string) option) \<Rightarrow> runner \<Rightarrow> string \<Rightarrow> Server \<times> os \<Rightarrow> nat \<Rightarrow> reply" where
  "agent_reply json run body a k =
     (case agent_after json run body k a of (srv, s) \<Rightarrow> fst (jobs json run srv body s))"

lemma agent_used: "s_usedJobs (fst (agent_after json run body (Suc k) a))"
proof (induction k)
  case 0
  then show ?case by (auto simp: jobs_def Let_def split: prod.splits option.splits if_splits)
next
  case (Suc k)
  then show ?case by (subst agent_after.simps) (auto simp: jobs_def split: prod.splits)
qed

lemma later_replies_gone: "agent_reply json run body a (Suc k) = TextReply 410 ''jobs endpoint already used''"
  using agent_used [of json run body k a] unfolding agent_reply_def by (auto simp: jobs_def split: prod.splits)

text \<open>When no attempt brings a result, the loop returns exactly when its context is done, and only an error.\<close>

lemma retryJobs_no_result:
  assumes none: "\<And>k. fst (client_Jobs json_len (replies k)) = None"
  shows "((\<exists>r. retryJobs json_len replies cancelled = Some r) \<longleftrightarrow> (\<exists>k. cancelled k)) \<and>
    (\<forall>resp e. retryJobs json_len replies cancelled = Some (resp, e) \<longrightarrow> resp = None \<and> (\<exists>c. e = Some (CtxDone c)))"
proof -
  have round: "\<exists>x. retryRound json_len replies cancelled k = (if cancelled k then Some (None, Some (CtxDone x)) else None)" for k
    using none [of k] by (auto simp: retryRound_def client_Jobs_def split: option.splits if_splits)
  have iff: "retryRound json_len replies cancelled k \<noteq> None \<longleftrightarrow> cancelled k" for k
    using round [of k] by (auto split: if_splits)
  have "resp = None \<and> (\<exists>c. e = Some (CtxDone c))" if p: "retryJobs json_len replies cancelled = Some (resp, e)" for resp e
  proof -
    obtain n where "retryRound json_len replies cancelled n = Some (resp, e)"
      using poll_result [OF p [unfolded retryJobs_def]] by blast
    then show ?thesis using round [of n] by (auto split: if_splits)
  qed
  moreover have "(\<exists>r. retryJobs json_len replies cancelled = Some r) \<longleftrightarrow> (\<exists>k. cancelled k)"
    unfolding retryJobs_def poll_returns_iff iff ..
  ultimately show ?thesis by blast
qed

text \<open>
  The retry loop against the one-shot agent: when the answer to the first request is lost, or
  is longer than the client reads, no later attempt can bring it back.  The loop returns only when
  its context is done, and without any result, although the agent may have run every job.
\<close>

theorem retryJobs_lost_response:
  assumes lost: "\<And>k. replies k = None \<or> replies k = Some (agent_reply json run body a k)"
    and first: "fst (client_Jobs json_len (replies 0)) = None"
  shows "((\<exists>r. retryJobs json_len replies cancelled = Some r) \<longleftrightarrow> (\<exists>k. cancelled k)) \<and>
    (\<forall>resp e. retryJobs json_len replies cancelled = Some (resp, e) \<longrightarrow> resp = None \<and> (\<exists>c. e = Some (CtxDone c)))"
proof (rule retryJobs_no_result)
  show "fst (client_Jobs json_len (replies k)) = None" for k
  proof (cases k)
    case (Suc n)
    then show ?thesis using lost [of k] later_replies_gone [of json run body a n] by (auto simp: client_Jobs_def decodeReply_def)
  qed (use first in simp)
qed

definition lost_first :: "nat \<Rightarrow> reply option" where
  "lost_first k = (if k = 0 then None
     else Some (agent_reply (\<lambda>_. None) no_runner ''{}'' (New demo_os demo_cfg, demo_os) k))"

theorem retryJobs_lost_response_witness:
  "\<exists>c. retryJobs (\<lambda>_. 0) lost_first (\<lambda>k. k = 5) = Some (None, Some (CtxDone c))"
proof -
  have l: "lost_first k = None \<or> lost_first k = Some (agent_reply (\<lambda>_. None) no_runner ''{}'' (New demo_os demo_cfg, demo_os) k)" for k
    by (simp add: lost_first_def)
  have "fst (client_Jobs (\<lambda>_. 0) (lost_first 0)) = None" by (simp add: lost_first_def client_Jobs_def)
  from retryJobs_lost_response [OF l this, of "\<lambda>k. k = 5"] show ?thesis by auto
qed

text \<open>
  The vsock handshake accepts Firecracker's reply \<open>OK <port>\<close> for every positive port and hands
  over the connection with exactly the bytes that follow the line.
\<close>

theorem vsockHandshake_accepts:
  assumes "0 < n" "n < 2 ^ 63"
  shows "vsockHandshake (map Byte (''OK '' @ itoa n @ [CHR 0x0A]) @ rest) = Some (Inr rest)"
proof -
  have "\<not> is_digit (CHR 0x0A)" by code_simp
  then have "CHR 0x0A \<notin> set (itoa n)" using itoa_digits [of n] unfolding list_all_iff by blast
  then have nl: "CHR 0x0A \<notin> set (''OK '' @ itoa n)" by simp
  have "n < 10 ^ Suc 18" using assms(2) by simp
  then have "length (itoa n) \<le> Suc 18" by (rule itoa_length)
  then have "length [] + length (''OK '' @ itoa n) < 1024" by simp
  from readLine_line [OF nl this, of rest]
  have rl: "readLine 1024 [] (map Byte (''OK '' @ itoa n @ [CHR 0x0A]) @ rest) = Some (Inr (''OK '' @ itoa n @ [CHR 0x0A]), rest)"
    by (simp only: append_assoc append_Nil)
  show ?thesis
    unfolding vsockHandshake_def rl option.case prod.case sum.case parseConnectOK_reply [OF assms] ..
qed

theorem vsockHandshake_accepts_witness:
  "vsockHandshake (map Byte (''OK '' @ itoa 1073741824 @ [CHR 0x0A]) @ [Byte (CHR ''H'')]) = Some (Inr [Byte (CHR ''H'')])"
  by (rule vsockHandshake_accepts) simp_all

end
