(* ===== verification/Firecracker.thy ===== *)
theory Firecracker
  imports AgentClient FileLock
begin

text \<open>
  Running microVMs (\<open>internal/firecracker\<close>: \<open>types.go\<close>, \<open>jailer.go\<close>, \<open>runner.go\<close>, \<open>snapshot.go\<close>).
  The Firecracker SDK and the processes it starts are a record of answers, \<open>vmm\<close>; what the host does
  with them is recorded in a log of events next to the file system.  What the clock measures for a phase is an answer too.
  A call that waits for ever does not return: \<open>None\<close>.
\<close>

section \<open>Types\<close>

definition DefaultKernelArgs :: string where
  "DefaultKernelArgs = ''console=ttyS0 reboot=k panic=1 pci=off root=/dev/vda ro init=/init target_drive=/dev/vdb''"

definition defaultVsockCID :: uint32 where "defaultVsockCID = 3"
definition maxUnixSocketPathLen :: nat where "maxUnixSocketPathLen = 107"

record SnapshotArtifact =
  sa_MemPath :: string
  sa_SnapshotPath :: string
  sa_WorkspaceDir :: string

record JailerConfig =
  jc_Binary :: string
  jc_ChrootBaseDir :: string
  jc_UID :: int
  jc_GID :: int
  jc_NumaNode :: int
  jc_CgroupVersion :: string
  jc_CgroupArgs :: "string list"

record MachineConfig =
  VCPUCount :: int
  MemSizeMiB :: int

record VMHandle =
  vh_ID :: string
  vh_SocketPath :: string

record RunTimings =
  rt_SetupDuration :: int
  rt_MachineStartDuration :: int
  rt_AgentReadyDuration :: int
  rt_JobsDuration :: int
  rt_ShutdownWaitDuration :: int
  rt_TotalDuration :: int

record RunResult =
  rr_VM :: VMHandle
  rr_Results :: "JobResult list"
  rr_TimedOut :: bool
  rr_Timings :: RunTimings

record StartVMRequest =
  sv_ID :: string
  sv_StoreDir :: string
  sv_FirecrackerPath :: string
  sv_Jailer :: "JailerConfig option"
  sv_KernelPath :: string
  sv_BootImagePath :: string
  sv_TargetImagePath :: string
  sv_MachineConfig :: MachineConfig
  sv_VsockCID :: uint32
  sv_Defaults :: JobDefaults
  sv_Workspace :: string
  sv_Jobs :: "Job list"
  sv_Shutdown :: bool
  sv_Timeout :: int
  sv_Snapshot :: "SnapshotArtifact option"

record SnapshotRequest =
  sq_ID :: string
  sq_StoreDir :: string
  sq_FirecrackerPath :: string
  sq_Jailer :: "JailerConfig option"
  sq_KernelPath :: string
  sq_BootImagePath :: string
  sq_TargetImagePath :: string
  sq_MachineConfig :: MachineConfig
  sq_VsockCID :: uint32
  sq_Timeout :: int
  sq_Snapshot :: SnapshotArtifact

text \<open>The SDK's configuration types, as far as the host fills them.\<close>

record drive =
  DriveID :: string
  PathOnHost :: string
  IsRootDevice :: bool
  IsReadOnly :: bool

record machine_configuration =
  VcpuCount :: int
  Smt :: bool
  MemSizeMib :: int

record sdk_jailer =
  sj_UID :: int
  sj_GID :: int
  sj_ID :: string
  sj_NumaNode :: int
  sj_ExecFile :: string
  sj_JailerBinary :: string
  sj_ChrootBaseDir :: string
  sj_KernelPath :: string
  sj_CgroupVersion :: string
  sj_CgroupArgs :: "string list"

record sdk_config =
  sc_SocketPath :: string
  sc_LogPath :: string
  sc_KernelImagePath :: string
  sc_KernelArgs :: string
  sc_Drives :: "drive list"
  sc_MachineCfg :: machine_configuration
  sc_Seccomp :: bool
  sc_VsockPath :: string
  sc_VsockCID :: uint32
  sc_Jailer :: "sdk_jailer option"

definition Drives :: "string \<Rightarrow> string \<Rightarrow> drive list" where
  "Drives bootImagePath targetImagePath =
     [\<lparr>DriveID = ''boot'', PathOnHost = bootImagePath, IsRootDevice = True, IsReadOnly = True\<rparr>,
      \<lparr>DriveID = ''target'', PathOnHost = targetImagePath, IsRootDevice = False, IsReadOnly = True\<rparr>]"

definition MachineConfiguration :: "MachineConfig \<Rightarrow> machine_configuration" where
  "MachineConfiguration cfg =
     \<lparr>VcpuCount = (if VCPUCount cfg \<le> 0 then 1 else VCPUCount cfg), Smt = False,
      MemSizeMib = (if MemSizeMiB cfg \<le> 0 then 128 else MemSizeMiB cfg)\<rparr>"

section \<open>The jailer's directories\<close>

definition sdkJailerConfig :: "JailerConfig \<Rightarrow> string \<Rightarrow> string \<Rightarrow> string \<Rightarrow> sdk_jailer" where
  "sdkJailerConfig cfg firecrackerPath kernelPath jid =
     \<lparr>sj_UID = jc_UID cfg, sj_GID = jc_GID cfg, sj_ID = jid, sj_NumaNode = jc_NumaNode cfg,
      sj_ExecFile = firecrackerPath, sj_JailerBinary = jc_Binary cfg, sj_ChrootBaseDir = jc_ChrootBaseDir cfg,
      sj_KernelPath = kernelPath, sj_CgroupVersion = jc_CgroupVersion cfg, sj_CgroupArgs = jc_CgroupArgs cfg\<rparr>"

definition JailerVMDir :: "JailerConfig \<Rightarrow> string \<Rightarrow> string \<Rightarrow> string" where
  "JailerVMDir cfg firecrackerPath jid =
     (let base = (if jc_ChrootBaseDir cfg = '''' then ''/srv/jailer'' else jc_ChrootBaseDir cfg) in
      Join [base, Base firecrackerPath, jid])"

definition jailerRootfsDir :: "JailerConfig \<Rightarrow> string \<Rightarrow> string \<Rightarrow> string" where
  "jailerRootfsDir cfg firecrackerPath jid = Join [JailerVMDir cfg firecrackerPath jid, ''root'']"

definition jailedBackingFilePath :: "string \<Rightarrow> string \<Rightarrow> string" where
  "jailedBackingFilePath rootfs path = (let clean = TrimPrefix (Clean path) ''/'' in Join [rootfs, clean])"

text \<open>
  The command of a Firecracker process that the host starts itself: the options given to the SDK's command builders, unjailed
  and jailed.  The argument list that the SDK makes of them is not modelled.
\<close>

record jailer_command =
  jco_Bin :: string
  jco_ID :: string
  jco_UID :: int
  jco_GID :: int
  jco_NumaNode :: int
  jco_ExecFile :: string
  jco_ChrootBaseDir :: string
  jco_CgroupVersion :: string
  jco_CgroupArgs :: "string list"
  jco_FirecrackerArgs :: "string list"

datatype fc_command = VMCommand string string | JailerCommand jailer_command

definition jailerCommand :: "JailerConfig \<Rightarrow> string \<Rightarrow> string \<Rightarrow> string \<Rightarrow> fc_command" where
  "jailerCommand cfg firecrackerPath jid apiSocket =
     JailerCommand
       \<lparr>jco_Bin = jc_Binary cfg, jco_ID = jid, jco_UID = jc_UID cfg, jco_GID = jc_GID cfg, jco_NumaNode = jc_NumaNode cfg,
        jco_ExecFile = firecrackerPath, jco_ChrootBaseDir = jc_ChrootBaseDir cfg, jco_CgroupVersion = jc_CgroupVersion cfg,
        jco_CgroupArgs = jc_CgroupArgs cfg, jco_FirecrackerArgs = [''--api-sock'', apiSocket]\<rparr>"

section \<open>The host with its VMs\<close>

datatype vm_event =
    Created sdk_config
  | Started
  | ProcessStarted fc_command
  | SnapshotLoaded SnapshotArtifact string string
  | JobsSent BatchRequest
  | Paused
  | SnapshotWritten SnapshotArtifact string string
  | Stopped

record host =
  h_os :: os
  h_log :: "vm_event list"

datatype vm_error =
    VmRequired string
  | VmOs errno
  | SocketPathTooLong nat
  | VmNew
  | VmStart
  | VmAgent client_error "BatchResponse option"
  | VmTimedOut VMHandle
  | VmCtx
  | VmPause
  | VmSnapshot
  | VmLoad

type_synonym ('s, 'e, 'a) prog = "'s \<Rightarrow> (('e + 'a) \<times> 's) option"
type_synonym ('e, 'a) hio = "(host, 'e, 'a) prog"
type_synonym 'a vio = "(vm_error, 'a) hio"

definition vret :: "'a \<Rightarrow> ('s, 'e, 'a) prog" where
  "vret a h = Some (Inr a, h)"

definition vthrow :: "'e \<Rightarrow> ('s, 'e, 'a) prog" where
  "vthrow e h = Some (Inl e, h)"

definition vbind :: "('s, 'e, 'a) prog \<Rightarrow> ('a \<Rightarrow> ('s, 'e, 'b) prog) \<Rightarrow> ('s, 'e, 'b) prog" where
  "vbind m k h = (case m h of None \<Rightarrow> None | Some (Inl e, h') \<Rightarrow> Some (Inl e, h') | Some (Inr a, h') \<Rightarrow> k a h')"

definition vos :: "(errno, 'a) io \<Rightarrow> 'a vio" where
  "vos m h = (case m (h_os h) of (Inl e, s) \<Rightarrow> Some (Inl (VmOs e), h\<lparr>h_os := s\<rparr>) | (Inr a, s) \<Rightarrow> Some (Inr a, h\<lparr>h_os := s\<rparr>))"

text \<open>\<open>_ = os.Remove(path)\<close>.\<close>

definition vdrop :: "('f, 'a) io \<Rightarrow> ('e, unit) hio" where
  "vdrop m h = Some (Inr (), h\<lparr>h_os := snd (m (h_os h))\<rparr>)"

definition emit :: "vm_event \<Rightarrow> ('e, unit) hio" where
  "emit e h = Some (Inr (), h\<lparr>h_log := h_log h @ [e]\<rparr>)"

definition require :: "bool \<Rightarrow> 'e \<Rightarrow> ('s, 'e, unit) prog" where
  "require b e = (if b then vret () else vthrow e)"

text \<open>\<open>defer\<close>: the cleanup runs however the body returns.\<close>

definition vdefer :: "('s, 'e, unit) prog \<Rightarrow> ('s, 'e, 'a) prog \<Rightarrow> ('s, 'e, 'a) prog" where
  "vdefer c m h = (case m h of None \<Rightarrow> None | Some (r, h') \<Rightarrow> (case c h' of None \<Rightarrow> None | Some (u, h'') \<Rightarrow> Some (r, h'')))"

text \<open>The SDK, the guest and the clock.\<close>

datatype race = AgentFirst | TimeoutFirst

text \<open>The spans that the runner measures with \<open>time.Since\<close>.\<close>

datatype phase = SetupPhase | MachineStartPhase | JobsPhase | ShutdownPhase | TotalPhase

record vmm =
  vm_uuid :: string
  vm_TempDir :: string
  vm_New :: "sdk_config \<Rightarrow> bool"
  vm_Start :: bool
  vm_ProcStart :: "fc_command \<Rightarrow> bool"
  vm_ConfigReady :: "nat \<Rightarrow> bool"
  vm_Load :: "string \<Rightarrow> string \<Rightarrow> bool"
  vm_Pause :: bool
  vm_CreateSnapshot :: "string \<Rightarrow> string \<Rightarrow> os \<Rightarrow> bool \<times> os"
  vm_replies :: "nat \<Rightarrow> reply option"
  vm_health :: "nat \<Rightarrow> reply option"
  vm_json_len :: "BatchResponse \<Rightarrow> nat"
  vm_cancelled :: "nat \<Rightarrow> bool"
  vm_callerDone :: "nat \<Rightarrow> bool"
  vm_race :: race
  vm_elapsed :: "phase \<Rightarrow> int"

text \<open>The timings of a run that ended with results, fresh or restored: the wait for the agent is part of the jobs.\<close>

definition runTimings :: "vmm \<Rightarrow> RunTimings" where
  "runTimings vm = \<lparr>rt_SetupDuration = vm_elapsed vm SetupPhase, rt_MachineStartDuration = vm_elapsed vm MachineStartPhase,
     rt_AgentReadyDuration = 0, rt_JobsDuration = vm_elapsed vm JobsPhase, rt_ShutdownWaitDuration = vm_elapsed vm ShutdownPhase,
     rt_TotalDuration = vm_elapsed vm TotalPhase\<rparr>"

definition validateUnixSocketPath :: "string \<Rightarrow> unit vio" where
  "validateUnixSocketPath path = require (length path \<le> maxUnixSocketPathLen) (SocketPathTooLong (length path))"

text \<open>\<open>os.OpenFile\<close> with \<open>O_CREATE\<close> and \<open>O_TRUNC\<close>, \<open>os.Create\<close> and \<open>os.MkdirTemp\<close>.\<close>

definition OpenTrunc :: "string \<Rightarrow> uint32 \<Rightarrow> (errno, nat) io" where
  "OpenTrunc p m = sysop (\<lambda>s. case resolve s True p of Inl e \<Rightarrow> Inl e
     | Inr q \<Rightarrow> (case ent s q of
                   None \<Rightarrow> Inr (new_file q m s)
                 | Some (DirE a) \<Rightarrow> Inl EISDIR
                 | Some (LnkE t a) \<Rightarrow> Inl ELOOP
                 | Some (RegE i) \<Rightarrow> (case inodes s i of
                      None \<Rightarrow> Inl EIO
                    | Some d \<Rightarrow> Inr (i, set_inode i (d\<lparr>contents := '''', mtime := now s\<rparr>) s))))"

definition OsCreate :: "string \<Rightarrow> (errno, nat) io" where
  "OsCreate p = OpenTrunc p 438"

fun MkdirTemp_try :: "nat \<Rightarrow> string \<Rightarrow> string \<Rightarrow> (errno, string) io" where
  "MkdirTemp_try 0 d pre = throw EEXIST"
| "MkdirTemp_try (Suc n) d pre =
     andThen (reads (\<lambda>s. d @ slash # pre @ itoa (rand s (tick s)))) (\<lambda>p.
     andThen (attempt (Mkdir p 448)) (\<lambda>r.
       case r of
         Inr u \<Rightarrow> ret p
       | Inl e \<Rightarrow> if e = EEXIST then MkdirTemp_try n d pre else throw e))"

definition MkdirTemp :: "string \<Rightarrow> string \<Rightarrow> (errno, string) io" where
  "MkdirTemp = MkdirTemp_try 10000"

definition linkFile :: "string \<Rightarrow> string \<Rightarrow> unit vio" where
  "linkFile src dst = vbind (vdrop (Remove dst)) (\<lambda>_. vos (Link src dst))"

definition linkFileIntoJail :: "string \<Rightarrow> string \<Rightarrow> unit vio" where
  "linkFileIntoJail src dst = vbind (vos (MkdirAll (Dir dst) 493)) (\<lambda>_. linkFile src dst)"

definition linkJailedDrive :: "string \<Rightarrow> string \<Rightarrow> unit vio" where
  "linkJailedDrive src rootfs =
     vbind (linkFileIntoJail src (jailedBackingFilePath rootfs src)) (\<lambda>_.
       let basenamePath = Join [rootfs, Base src] in
       if basenamePath = jailedBackingFilePath rootfs src then vret ()
       else linkFileIntoJail src basenamePath)"

text \<open>
  \<open>waitForSocket\<close>: the socket appears and answers in the round where \<open>vm_ConfigReady\<close> holds.
\<close>

definition waitForSocket :: "vmm \<Rightarrow> unit vio" where
  "waitForSocket vm h =
     (case poll (\<lambda>k. if vm_ConfigReady vm k then Some True else if vm_callerDone vm k then Some False else None) 0 of
        None \<Rightarrow> None
      | Some True \<Rightarrow> Some (Inr (), h)
      | Some False \<Rightarrow> Some (Inl VmCtx, h))"

section \<open>Starting a VM\<close>

definition batchRequest :: "StartVMRequest \<Rightarrow> BatchRequest" where
  "batchRequest req = \<lparr>b_Version = Version, b_Workspace = sv_Workspace req, b_Defaults = sv_Defaults req,
     b_Jobs = sv_Jobs req, b_Shutdown = True\<rparr>"

definition startDefaults :: "vmm \<Rightarrow> StartVMRequest \<Rightarrow> StartVMRequest" where
  "startDefaults vm req =
     req\<lparr>sv_ID := (if sv_ID req = '''' then vm_uuid vm else sv_ID req),
         sv_StoreDir := (if sv_StoreDir req = '''' then Join [vm_TempDir vm, ''sandbox-runtime''] else sv_StoreDir req),
         sv_VsockCID := (if sv_VsockCID req = 0 then defaultVsockCID else sv_VsockCID req),
         sv_Timeout := (if sv_Timeout req \<le> 0 then 30 * second else sv_Timeout req),
         sv_Workspace := (if sv_Workspace req = '''' then ''/workspace'' else sv_Workspace req)\<rparr>"

text \<open>
  The jailed case: the sockets move into the jail, their paths must fit, stale ones go, and the output files
  of the jailer are made.  The result is the API socket and the vsock as the host sees them.
\<close>

definition jailSockets :: "JailerConfig \<Rightarrow> string \<Rightarrow> string \<Rightarrow> string \<Rightarrow> string \<Rightarrow> (string \<times> string) vio" where
  "jailSockets j firecrackerPath vid stdoutPath stderrPath =
     (let api = Join [jailerRootfsDir j firecrackerPath vid, ''api.socket''];
          vsock = Join [jailerRootfsDir j firecrackerPath vid, ''vsock''] in
      vbind (validateUnixSocketPath api) (\<lambda>_.
      vbind (validateUnixSocketPath vsock) (\<lambda>_.
      vbind (vdrop (Remove api)) (\<lambda>_.
      vbind (vdrop (Remove vsock)) (\<lambda>_.
      vbind (vos (OsCreate stdoutPath)) (\<lambda>_.
      vbind (vos (OsCreate stderrPath)) (\<lambda>_.
      vret (api, vsock))))))))"

definition fcConfig :: "string \<Rightarrow> string \<Rightarrow> string \<Rightarrow> string \<Rightarrow> string \<Rightarrow> MachineConfig \<Rightarrow> string \<Rightarrow> uint32 \<Rightarrow> sdk_jailer option \<Rightarrow> sdk_config" where
  "fcConfig socket logp kern boot target mc vsock cid jail =
     \<lparr>sc_SocketPath = socket, sc_LogPath = logp, sc_KernelImagePath = kern, sc_KernelArgs = DefaultKernelArgs,
      sc_Drives = Drives boot target, sc_MachineCfg = MachineConfiguration mc, sc_Seccomp = True,
      sc_VsockPath = vsock, sc_VsockCID = cid, sc_Jailer = jail\<rparr>"

text \<open>Creating and starting the machine; the restore path starts the Firecracker process itself.\<close>

definition launch :: "vmm \<Rightarrow> sdk_config \<Rightarrow> 'a vio \<Rightarrow> 'a vio" where
  "launch vm cfg m =
     vbind (emit (Created cfg)) (\<lambda>_.
     vbind (require (vm_New vm cfg) VmNew) (\<lambda>_.
     vbind (require (vm_Start vm) VmStart) (\<lambda>_.
     vbind (emit Started) (\<lambda>_. m))))"

definition withProcess :: "fc_command \<Rightarrow> 'a vio \<Rightarrow> 'a vio" where
  "withProcess cmd m = vbind (emit (ProcessStarted cmd)) (\<lambda>_. vdefer (emit Stopped) m)"

text \<open>From the running machine to the result: the agent's answer or the timeout, whichever comes first.\<close>

definition runJobsInVM :: "vmm \<Rightarrow> StartVMRequest \<Rightarrow> VMHandle \<Rightarrow> RunResult vio" where
  "runJobsInVM vm req handle =
     vbind (emit (JobsSent (batchRequest req))) (\<lambda>_.
     case vm_race vm of
       TimeoutFirst \<Rightarrow> vbind (emit Stopped) (\<lambda>_. vthrow (VmTimedOut handle))
     | AgentFirst \<Rightarrow>
         (case retryJobs (vm_json_len vm) (vm_replies vm) (vm_cancelled vm) of
            Some (resp, Some err) \<Rightarrow> vbind (emit Stopped) (\<lambda>_. vthrow (VmAgent err resp))
          | Some (Some rs, None) \<Rightarrow>
              vbind (emit Stopped) (\<lambda>_. vret \<lparr>rr_VM = handle, rr_Results = rs, rr_TimedOut = False, rr_Timings = runTimings vm\<rparr>)
          | _ \<Rightarrow> (\<lambda>h. None)))"

definition startFresh :: "vmm \<Rightarrow> StartVMRequest \<Rightarrow> RunResult vio" where
  "startFresh vm req =
     vbind (require (sv_KernelPath req \<noteq> '''') (VmRequired ''kernel path'')) (\<lambda>_.
     vbind (require (sv_BootImagePath req \<noteq> '''') (VmRequired ''boot image path'')) (\<lambda>_.
     vbind (require (sv_TargetImagePath req \<noteq> '''') (VmRequired ''target image path'')) (\<lambda>_.
     let socketDir = Join [sv_StoreDir req, ''firecracker'', ''sockets''];
         logDir = Join [sv_StoreDir req, ''firecracker'', ''logs''] in
     vbind (vos (MkdirAll socketDir 493)) (\<lambda>_.
     vbind (vos (MkdirAll logDir 493)) (\<lambda>_.
     let vid = sv_ID req;
         apiSocket = Join [socketDir, vid @ ''.api.socket''];
         vsockPath = Join [socketDir, vid @ ''.vsock''] in
     vbind (vdrop (Remove apiSocket)) (\<lambda>_.
     vbind (vdrop (Remove vsockPath)) (\<lambda>_.
     vbind (case sv_Jailer req of
              None \<Rightarrow> vret (apiSocket, vsockPath)
            | Some j \<Rightarrow> jailSockets j (sv_FirecrackerPath req) vid (Join [logDir, vid @ ''.jailer.stdout.log''])
                          (Join [logDir, vid @ ''.jailer.stderr.log''])) (\<lambda>(clientAPISocket, clientVsockPath).
     let jailed = (sv_Jailer req \<noteq> None);
         cfg = fcConfig (if jailed then ''api.socket'' else apiSocket)
                 (if jailed then '''' else Join [logDir, vid @ ''.log'']) (sv_KernelPath req)
                 (sv_BootImagePath req) (sv_TargetImagePath req) (sv_MachineConfig req)
                 (if jailed then ''vsock'' else vsockPath) (sv_VsockCID req)
                 (map_option (\<lambda>j. sdkJailerConfig j (sv_FirecrackerPath req) (sv_KernelPath req) vid) (sv_Jailer req)) in
     launch vm cfg (runJobsInVM vm req \<lparr>vh_ID = vid, vh_SocketPath = clientAPISocket\<rparr>)))))))))"

section \<open>Restoring a snapshot\<close>

definition linkSnapshot :: "StartVMRequest \<Rightarrow> SnapshotArtifact \<Rightarrow> JailerConfig \<Rightarrow> unit vio" where
  "linkSnapshot req snap j =
     (let rootfs = jailerRootfsDir j (sv_FirecrackerPath req) (sv_ID req);
          mem = Join [rootfs, ''snapshot.mem'']; state = Join [rootfs, ''snapshot.state''] in
      vbind (linkJailedDrive (sv_BootImagePath req) rootfs) (\<lambda>_.
      vbind (linkJailedDrive (sv_TargetImagePath req) rootfs) (\<lambda>_.
      vbind (linkFile (sa_MemPath snap) mem) (\<lambda>_.
      vbind (vos (Chown mem (jc_UID j) (jc_GID j))) (\<lambda>_.
      vbind (linkFile (sa_SnapshotPath snap) state) (\<lambda>_.
      vos (Chown state (jc_UID j) (jc_GID j))))))))"

definition restoredRun :: "vmm \<Rightarrow> StartVMRequest \<Rightarrow> SnapshotArtifact \<Rightarrow> string \<Rightarrow> RunResult vio" where
  "restoredRun vm req snap apiSocket =
     vbind (waitForSocket vm) (\<lambda>_.
     vbind (case sv_Jailer req of None \<Rightarrow> vret () | Some j \<Rightarrow> linkSnapshot req snap j) (\<lambda>_.
     let jailed = (sv_Jailer req \<noteq> None);
         memPath = (if jailed then ''snapshot.mem'' else sa_MemPath snap);
         snapshotPath = (if jailed then ''snapshot.state'' else sa_SnapshotPath snap) in
     vbind (emit (SnapshotLoaded snap snapshotPath memPath)) (\<lambda>_.
     vbind (require (vm_Load vm snapshotPath memPath) VmLoad) (\<lambda>_.
     vbind (emit (JobsSent (batchRequest req))) (\<lambda>_.
     case retryJobs (vm_json_len vm) (vm_replies vm) (vm_cancelled vm) of
       Some (resp, Some err) \<Rightarrow> vthrow (VmAgent err None)
     | Some (Some rs, None) \<Rightarrow>
         vret \<lparr>rr_VM = \<lparr>vh_ID = sv_ID req, vh_SocketPath = apiSocket\<rparr>, rr_Results = rs, rr_TimedOut = False,
                rr_Timings = runTimings vm\<rparr>
     | _ \<Rightarrow> (\<lambda>h. None))))))"

definition startFromSnapshot :: "vmm \<Rightarrow> StartVMRequest \<Rightarrow> SnapshotArtifact \<Rightarrow> RunResult vio" where
  "startFromSnapshot vm req snap =
     vbind (vos (MkdirTemp (vm_TempDir vm) ''snapshot-restore-'')) (\<lambda>tmpDir.
     vdefer (vdrop (RemoveAll tmpDir)) (
       vbind (case sv_Jailer req of
                None \<Rightarrow> vret (Join [tmpDir, ''firecracker.sock''], Join [sa_WorkspaceDir snap, ''vsock.sock''])
              | Some j \<Rightarrow>
                  let rootfs = jailerRootfsDir j (sv_FirecrackerPath req) (sv_ID req);
                      api = Join [rootfs, ''api.socket'']; vsock = Join [rootfs, ''vsock''] in
                  vbind (validateUnixSocketPath api) (\<lambda>_.
                  vbind (validateUnixSocketPath vsock) (\<lambda>_. vret (api, vsock)))) (\<lambda>(apiSocket, vsockPath).
       vbind (vdrop (Remove vsockPath)) (\<lambda>_.
       let cmd = (case sv_Jailer req of
                    None \<Rightarrow> VMCommand (sv_FirecrackerPath req) apiSocket
                  | Some j \<Rightarrow> jailerCommand j (sv_FirecrackerPath req) (sv_ID req) ''api.socket'') in
       vbind (require (vm_ProcStart vm cmd) VmStart) (\<lambda>_.
       withProcess cmd (restoredRun vm req snap apiSocket))))))"

definition StartVM :: "vmm \<Rightarrow> StartVMRequest \<Rightarrow> RunResult vio" where
  "StartVM vm req0 =
     vbind (require (sv_FirecrackerPath req0 \<noteq> '''') (VmRequired ''firecracker binary path'')) (\<lambda>_.
     vbind (require (sv_Jobs req0 \<noteq> []) (VmRequired ''at least one job'')) (\<lambda>_.
     let req = startDefaults vm req0 in
     case sv_Snapshot req of
       Some snap \<Rightarrow> startFromSnapshot vm req snap
     | None \<Rightarrow> startFresh vm req))"

section \<open>Taking a snapshot\<close>

definition snapshotDefaults :: "vmm \<Rightarrow> SnapshotRequest \<Rightarrow> SnapshotRequest" where
  "snapshotDefaults vm req =
     req\<lparr>sq_ID := (if sq_ID req = '''' then vm_uuid vm else sq_ID req),
         sq_StoreDir := (if sq_StoreDir req = '''' then Join [vm_TempDir vm, ''sandbox-runtime''] else sq_StoreDir req),
         sq_VsockCID := (if sq_VsockCID req = 0 then defaultVsockCID else sq_VsockCID req),
         sq_Timeout := (if sq_Timeout req \<le> 0 then 30 * second else sq_Timeout req)\<rparr>"

text \<open>The files a snapshot needs: its directories, and no stale files of an earlier one.\<close>

definition snapshotFiles :: "SnapshotRequest \<Rightarrow> string vio" where
  "snapshotFiles req =
     (let snap = sq_Snapshot req;
          workspaceDir = (if sa_WorkspaceDir snap = '''' then Join [Dir (sa_MemPath snap), ''workspace''] else sa_WorkspaceDir snap);
          vsockPath = Join [workspaceDir, ''vsock.sock''] in
      vbind (vos (MkdirAll (Dir (sa_MemPath snap)) 493)) (\<lambda>_.
      vbind (vos (MkdirAll (Dir (sa_SnapshotPath snap)) 493)) (\<lambda>_.
      vbind (vdrop (Remove (sa_MemPath snap))) (\<lambda>_.
      vbind (vdrop (Remove (sa_SnapshotPath snap))) (\<lambda>_.
      vbind (vos (MkdirAll workspaceDir 493)) (\<lambda>_.
      vbind (vdrop (Remove vsockPath)) (\<lambda>_.
      vret vsockPath)))))))"

definition jailSnapshotSockets :: "JailerConfig \<Rightarrow> SnapshotRequest \<Rightarrow> string \<Rightarrow> unit vio" where
  "jailSnapshotSockets j req logDir =
     (let api = Join [jailerRootfsDir j (sq_FirecrackerPath req) (sq_ID req), ''api.socket''] in
      vbind (validateUnixSocketPath api) (\<lambda>_.
      vbind (vdrop (Remove api)) (\<lambda>_.
      vbind (vos (OsCreate (Join [logDir, sq_ID req @ ''.snapshot.jailer.stdout.log'']))) (\<lambda>_.
      vbind (vos (OsCreate (Join [logDir, sq_ID req @ ''.snapshot.jailer.stderr.log'']))) (\<lambda>_.
      vret ())))))"

text \<open>With the machine running: wait for the agent, pause, write the snapshot, link it out of the jail.\<close>

definition captureSnapshot :: "vmm \<Rightarrow> SnapshotRequest \<Rightarrow> string \<Rightarrow> SnapshotArtifact vio" where
  "captureSnapshot vm req clientVsockPath =
     (let snap = sq_Snapshot req in
      vbind (\<lambda>h. case waitForAgent (vm_health vm) (vm_cancelled vm) of
               None \<Rightarrow> None
             | Some None \<Rightarrow> Some (Inr (), h)
             | Some (Some e) \<Rightarrow> Some (Inl VmCtx, h)) (\<lambda>_.
      vbind (emit Paused) (\<lambda>_.
      vbind (require (vm_Pause vm) VmPause) (\<lambda>_.
      let inJail = (\<lambda>p. case sq_Jailer req of None \<Rightarrow> p | Some j \<Rightarrow> Join [jailerRootfsDir j (sq_FirecrackerPath req) (sq_ID req), p]);
          jailed = (sq_Jailer req \<noteq> None);
          memPath = (if jailed then ''snapshot.mem'' else sa_MemPath snap);
          snapshotPath = (if jailed then ''snapshot.state'' else sa_SnapshotPath snap) in
      vbind (if jailed then vbind (vdrop (Remove (inJail memPath))) (\<lambda>_. vdrop (Remove (inJail snapshotPath))) else vret ()) (\<lambda>_.
      vbind (emit (SnapshotWritten snap memPath snapshotPath)) (\<lambda>_.
      vbind (\<lambda>h. case vm_CreateSnapshot vm memPath snapshotPath (h_os h) of
               (written, s) \<Rightarrow> Some (if written then Inr () else Inl VmSnapshot, h\<lparr>h_os := s\<rparr>)) (\<lambda>_.
      vbind (if jailed then vbind (linkFile (inJail memPath) (sa_MemPath snap)) (\<lambda>_.
                            linkFile (inJail snapshotPath) (sa_SnapshotPath snap))
             else vret ()) (\<lambda>_.
      vbind (vdrop (Remove clientVsockPath)) (\<lambda>_.
      vret snap)))))))))"

definition CreateReadySnapshot :: "vmm \<Rightarrow> SnapshotRequest \<Rightarrow> SnapshotArtifact vio" where
  "CreateReadySnapshot vm req0 =
     vbind (require (sq_FirecrackerPath req0 \<noteq> '''' \<and> sq_KernelPath req0 \<noteq> '''' \<and> sq_BootImagePath req0 \<noteq> '''' \<and>
                     sq_TargetImagePath req0 \<noteq> '''') (VmRequired ''firecracker, kernel, boot image, and target image paths'')) (\<lambda>_.
     let req = snapshotDefaults vm req0; snap = sq_Snapshot req in
     vbind (require (sa_MemPath snap \<noteq> '''' \<and> sa_SnapshotPath snap \<noteq> '''') (VmRequired ''snapshot memory and state paths'')) (\<lambda>_.
     vbind (snapshotFiles req) (\<lambda>vsockPath.
     let jailVsock = (\<lambda>j. Join [jailerRootfsDir j (sq_FirecrackerPath req) (sq_ID req), ''vsock'']) in
     vbind (case sq_Jailer req of
              None \<Rightarrow> vret vsockPath
            | Some j \<Rightarrow> vbind (validateUnixSocketPath (jailVsock j)) (\<lambda>_.
                        vbind (vdrop (Remove (jailVsock j))) (\<lambda>_. vret (jailVsock j)))) (\<lambda>clientVsockPath.
     let socketDir = Join [sq_StoreDir req, ''firecracker'', ''sockets''];
         logDir = Join [sq_StoreDir req, ''firecracker'', ''logs''] in
     vbind (vos (MkdirAll socketDir 493)) (\<lambda>_.
     vbind (vos (MkdirAll logDir 493)) (\<lambda>_.
     let apiSocket = Join [socketDir, sq_ID req @ ''.snapshot.api.socket''] in
     vbind (vdrop (Remove apiSocket)) (\<lambda>_.
     vbind (case sq_Jailer req of None \<Rightarrow> vret () | Some j \<Rightarrow> jailSnapshotSockets j req logDir) (\<lambda>_.
     let jailed = (sq_Jailer req \<noteq> None);
         cfg = fcConfig (if jailed then ''api.socket'' else apiSocket)
                 (if jailed then '''' else Join [logDir, sq_ID req @ ''.snapshot.log'']) (sq_KernelPath req)
                 (sq_BootImagePath req) (sq_TargetImagePath req) (sq_MachineConfig req)
                 (if jailed then ''vsock'' else vsockPath) (sq_VsockCID req)
                 (map_option (\<lambda>j. sdkJailerConfig j (sq_FirecrackerPath req) (sq_KernelPath req) (sq_ID req)) (sq_Jailer req)) in
     launch vm cfg (vdefer (emit Stopped) (captureSnapshot vm req clientVsockPath))))))))))"

end
