(* ===== verification/FirecrackerSafety.thy ===== *)
theory FirecrackerSafety
  imports Firecracker
begin

text \<open>
  What the runner does with its VMs, read off the log: how many machines are left running when a
  call returns, and how every machine is configured.
\<close>

section \<open>A logic of logs\<close>

text \<open>Every run that returns adds events that satisfy \<open>A\<close>.\<close>

definition adds :: "(vm_event list \<Rightarrow> bool) \<Rightarrow> ('e, 'a) hio \<Rightarrow> bool" where
  "adds A m = (\<forall>h r h'. m h = Some (r, h') \<longrightarrow> (\<exists>es. h_log h' = h_log h @ es \<and> A es))"

lemma addsI:
  "(\<And>h r h'. m h = Some (r, h') \<Longrightarrow> \<exists>es. h_log h' = h_log h @ es \<and> A es) \<Longrightarrow> adds A m"
  by (auto simp: adds_def)

text \<open>
  The contract of a kind of events that is closed under sequencing: steps that satisfy it compose.
\<close>

locale log_kind =
  fixes A :: "vm_event list \<Rightarrow> bool"
  assumes none: "A []" and seq: "A xs \<Longrightarrow> A ys \<Longrightarrow> A (xs @ ys)"
begin

lemma adds_vret: "adds A (vret a)"
  by (rule addsI) (auto simp: vret_def none)

lemma adds_vthrow: "adds A (vthrow e)"
  by (rule addsI) (auto simp: vthrow_def none)

lemma adds_vos: "adds A (vos m)"
  by (rule addsI) (auto simp: vos_def none split: prod.splits sum.splits)

lemma adds_vdrop: "adds A (vdrop m)"
  by (rule addsI) (auto simp: vdrop_def none)

lemma adds_require: "adds A (require b e)"
  by (simp add: require_def adds_vret adds_vthrow)

lemma adds_never: "adds A (\<lambda>h. None)"
  by (rule addsI) simp

lemma adds_emit: "A [e] \<Longrightarrow> adds A (emit e)"
  by (rule addsI) (auto simp: emit_def)

lemma adds_pure: "(\<And>h r h'. m h = Some (r, h') \<Longrightarrow> h_log h' = h_log h) \<Longrightarrow> adds A m"
  by (rule addsI) (auto simp: none)

lemma adds_vbind:
  assumes "adds A m" "\<And>a. adds A (k a)"
  shows "adds A (vbind m k)"
proof (rule addsI)
  fix h r h' assume b: "vbind m k h = Some (r, h')"
  obtain r1 h1 where m: "m h = Some (r1, h1)" using b by (auto simp: vbind_def split: option.splits)
  obtain es1 where e1: "h_log h1 = h_log h @ es1" "A es1" using assms(1) m unfolding adds_def by blast
  show "\<exists>es. h_log h' = h_log h @ es \<and> A es"
  proof (cases r1)
    case (Inl e)
    then show ?thesis using b m e1 by (auto simp: vbind_def)
  next
    case (Inr a)
    then have "k a h1 = Some (r, h')" using b m by (simp add: vbind_def)
    then obtain es2 where "h_log h' = h_log h1 @ es2" "A es2" using assms(2) unfolding adds_def by blast
    then show ?thesis using e1 seq by auto
  qed
qed

lemma adds_vdefer:
  assumes "adds A c" "adds A m"
  shows "adds A (vdefer c m)"
proof (rule addsI)
  fix h r h' assume d: "vdefer c m h = Some (r, h')"
  obtain h1 u where m: "m h = Some (r, h1)" and c: "c h1 = Some (u, h')"
    using d by (auto simp: vdefer_def split: option.splits)
  obtain es1 es2 where "h_log h1 = h_log h @ es1" "A es1" "h_log h' = h_log h1 @ es2" "A es2"
    using assms m c unfolding adds_def by metis
  then show "\<exists>es. h_log h' = h_log h @ es \<and> A es" using seq by auto
qed

lemma adds_option:
  "(r = None \<Longrightarrow> adds A m) \<Longrightarrow> (\<And>x. r = Some x \<Longrightarrow> adds A (k x)) \<Longrightarrow> adds A (case r of None \<Rightarrow> m | Some x \<Rightarrow> k x)"
  by (cases r) auto

lemma adds_prod: "(\<And>a b. r = (a, b) \<Longrightarrow> adds A (k a b)) \<Longrightarrow> adds A (case r of (a, b) \<Rightarrow> k a b)"
  by (cases r) auto

lemma adds_if: "(b \<Longrightarrow> adds A m) \<Longrightarrow> (\<not> b \<Longrightarrow> adds A n) \<Longrightarrow> adds A (if b then m else n)"
  by simp

lemmas adds_rules = adds_option adds_prod adds_if adds_vret adds_vthrow adds_vos adds_vdrop adds_require adds_never adds_vbind adds_vdefer

lemma adds_waitForSocket: "adds A (waitForSocket vm)"
  by (rule adds_pure) (auto simp: waitForSocket_def split: option.splits bool.splits)

lemma adds_linkFile: "adds A (linkFile a b)"
  unfolding linkFile_def by (intro adds_rules)

lemma adds_linkJailedDrive: "adds A (linkJailedDrive a b)"
  unfolding linkJailedDrive_def linkFileIntoJail_def Let_def by (intro adds_rules adds_linkFile)

lemma adds_linkSnapshot: "adds A (linkSnapshot req snap j)"
  unfolding linkSnapshot_def Let_def by (intro adds_rules adds_linkFile adds_linkJailedDrive)

lemma adds_jailSockets: "adds A (jailSockets j f v a b)"
  unfolding jailSockets_def validateUnixSocketPath_def Let_def by (intro adds_rules)

lemma adds_snapshotFiles: "adds A (snapshotFiles req)"
  unfolding snapshotFiles_def Let_def by (intro adds_rules)

lemma adds_jailSnapshotSockets: "adds A (jailSnapshotSockets j req l)"
  unfolding jailSnapshotSockets_def validateUnixSocketPath_def Let_def by (intro adds_rules)

lemmas adds_silent = adds_rules adds_waitForSocket adds_linkFile adds_linkSnapshot adds_jailSockets adds_snapshotFiles
  adds_jailSnapshotSockets

end

text \<open>Events that each satisfy a condition.\<close>

interpretation each: log_kind "list_all G" for G
  by unfold_locales auto

section \<open>How many machines are running\<close>

fun running :: "vm_event list \<Rightarrow> int" where
  "running [] = 0"
| "running (e # es) = (case e of Started \<Rightarrow> 1 | ProcessStarted c \<Rightarrow> 1 | Stopped \<Rightarrow> - 1 | _ \<Rightarrow> 0) + running es"

lemma running_append [simp]: "running (xs @ ys) = running xs + running ys"
  by (induction xs) auto

interpretation idle: log_kind "\<lambda>es. running es = 0"
  by unfold_locales auto

text \<open>A step that cannot fail, followed by the rest.\<close>

lemma adds_emit_then:
  assumes "adds (\<lambda>es. running es = d) (k ())"
  shows "adds (\<lambda>es. running es = running [e] + d) (vbind (emit e) k)"
proof (rule addsI)
  fix h r h' assume "vbind (emit e) k h = Some (r, h')"
  then have "k () (h\<lparr>h_log := h_log h @ [e]\<rparr>) = Some (r, h')" by (simp add: vbind_def emit_def)
  then obtain es where "h_log h' = (h_log h @ [e]) @ es" "running es = d" using assms unfolding adds_def by fastforce
  then show "\<exists>es. h_log h' = h_log h @ es \<and> running es = running [e] + d" by (intro exI [of _ "e # es"]) simp
qed

lemma adds_defer_emit:
  assumes "adds (\<lambda>es. running es = d) m"
  shows "adds (\<lambda>es. running es = d + running [e]) (vdefer (emit e) m)"
proof (rule addsI)
  fix h r h' assume "vdefer (emit e) m h = Some (r, h')"
  then obtain h1 where m: "m h = Some (r, h1)" and h': "h' = h1\<lparr>h_log := h_log h1 @ [e]\<rparr>"
    by (auto simp: vdefer_def emit_def split: option.splits)
  obtain es where "h_log h1 = h_log h @ es" "running es = d" using assms m unfolding adds_def by blast
  then show "\<exists>es. h_log h' = h_log h @ es \<and> running es = d + running [e]"
    using h' by (intro exI [of _ "es @ [e]"]) simp
qed

lemma adds_eq: "adds (\<lambda>es. running es = d) m \<Longrightarrow> d = d' \<Longrightarrow> adds (\<lambda>es. running es = d') m"
  by simp

lemma stop_then: "adds (\<lambda>es. running es = 0) (k ()) \<Longrightarrow> adds (\<lambda>es. running es = - 1) (vbind (emit Stopped) k)"
  by (rule adds_eq [OF adds_emit_then]) auto

lemma never_returns: "adds A (\<lambda>h. None)"
  by (simp add: adds_def)

lemma runJobsInVM_stops: "adds (\<lambda>es. running es = - 1) (runJobsInVM vm req handle)"
proof -
  have "adds (\<lambda>es. running es = - 1) (case vm_race vm of
       TimeoutFirst \<Rightarrow> vbind (emit Stopped) (\<lambda>_. vthrow (VmTimedOut handle))
     | AgentFirst \<Rightarrow>
         (case retryJobs (vm_json_len vm) (vm_replies vm) (vm_cancelled vm) of
            Some (resp, Some err) \<Rightarrow> vbind (emit Stopped) (\<lambda>_. vthrow (VmAgent err resp))
          | Some (Some rs, None) \<Rightarrow>
              vbind (emit Stopped) (\<lambda>_. vret \<lparr>rr_VM = handle, rr_Results = rs, rr_TimedOut = False, rr_Timings = runTimings vm\<rparr>)
          | _ \<Rightarrow> (\<lambda>h. None)))"
    by (auto intro: stop_then idle.adds_vthrow idle.adds_vret never_returns split: race.splits option.splits prod.splits)
  then have "adds (\<lambda>es. running es = running [JobsSent (batchRequest req)] + - 1) (runJobsInVM vm req handle)"
    unfolding runJobsInVM_def by (rule adds_emit_then)
  then show ?thesis by simp
qed

lemma emit_idle: "running [e] = 0 \<Longrightarrow> adds (\<lambda>es. running es = 0) (emit e)"
  by (rule idle.adds_emit)

lemma started_then: "adds (\<lambda>es. running es = - 1) m \<Longrightarrow> adds (\<lambda>es. running es = 0) (vbind (emit Started) (\<lambda>_. m))"
  by (rule adds_eq [OF adds_emit_then]) auto

lemma launch_balanced: "adds (\<lambda>es. running es = - 1) m \<Longrightarrow> adds (\<lambda>es. running es = 0) (launch vm cfg m)"
  unfolding launch_def
  by (rule idle.adds_vbind [OF emit_idle]; (simp; fail)?)
    (intro idle.adds_vbind [OF idle.adds_require] started_then)

lemma deferred_stop: "adds (\<lambda>es. running es = 0) m \<Longrightarrow> adds (\<lambda>es. running es = - 1) (vdefer (emit Stopped) m)"
  by (rule adds_eq [OF adds_defer_emit]) auto

lemma withProcess_balanced: "adds (\<lambda>es. running es = 0) m \<Longrightarrow> adds (\<lambda>es. running es = 0) (withProcess cmd m)"
  unfolding withProcess_def by (rule adds_eq [OF adds_emit_then [OF deferred_stop]]) auto

lemma startFresh_balanced: "adds (\<lambda>es. running es = 0) (startFresh vm req)"
  unfolding startFresh_def Let_def
  by (intro idle.adds_silent launch_balanced runJobsInVM_stops)

lemma restoredRun_balanced: "adds (\<lambda>es. running es = 0) (restoredRun vm req snap api)"
  unfolding restoredRun_def Let_def
  by (intro idle.adds_silent emit_idle) simp_all

lemma startFromSnapshot_balanced: "adds (\<lambda>es. running es = 0) (startFromSnapshot vm req snap)"
  unfolding startFromSnapshot_def validateUnixSocketPath_def Let_def
  by (intro idle.adds_silent withProcess_balanced restoredRun_balanced)

lemma StartVM_balanced: "adds (\<lambda>es. running es = 0) (StartVM vm req)"
  unfolding StartVM_def Let_def
  by (intro idle.adds_silent startFresh_balanced startFromSnapshot_balanced)

lemma captureSnapshot_balanced: "adds (\<lambda>es. running es = 0) (captureSnapshot vm req v)"
  unfolding captureSnapshot_def Let_def
  by (intro idle.adds_silent emit_idle; (rule idle.adds_pure)?) (auto split: option.splits prod.splits)

lemma CreateReadySnapshot_balanced: "adds (\<lambda>es. running es = 0) (CreateReadySnapshot vm req)"
  unfolding CreateReadySnapshot_def validateUnixSocketPath_def Let_def
  by (intro idle.adds_silent launch_balanced deferred_stop captureSnapshot_balanced)

section \<open>How machines are configured\<close>

definition hardened :: "sdk_config \<Rightarrow> bool" where
  "hardened cfg = (list_all IsReadOnly (sc_Drives cfg) \<and> sc_Seccomp cfg \<and> \<not> Smt (sc_MachineCfg cfg) \<and>
     1 \<le> VcpuCount (sc_MachineCfg cfg) \<and> 1 \<le> MemSizeMib (sc_MachineCfg cfg))"

text \<open>
  Machines are hardened, are sized by \<open>mc\<close> and get the target image \<open>t\<close> as their second drive; the agent is sent exactly the
  jobs \<open>js\<close>, with the order to shut down.
\<close>

definition proper :: "string \<Rightarrow> MachineConfig \<Rightarrow> Job list \<Rightarrow> vm_event \<Rightarrow> bool" where
  "proper t mc js e = (case e of
       Created cfg \<Rightarrow> hardened cfg \<and> map PathOnHost (tl (sc_Drives cfg)) = [t] \<and> sc_MachineCfg cfg = MachineConfiguration mc
     | JobsSent b \<Rightarrow> b_Jobs b = js \<and> b_Shutdown b \<and> b_Version b = Version
     | _ \<Rightarrow> True)"

lemma fcConfig_hardened: "hardened (fcConfig a b c d e f g i j)" "map PathOnHost (tl (sc_Drives (fcConfig a b c d e f g i j))) = [e]"
  "sc_MachineCfg (fcConfig a b c d e f g i j) = MachineConfiguration f"
  by (simp_all add: hardened_def fcConfig_def Drives_def MachineConfiguration_def)

lemma each_emit: "G e \<Longrightarrow> adds (list_all G) (emit e)"
  by (rule each.adds_emit) simp

lemma proper_simps [simp]:
  "proper t mc js (Created (fcConfig a b c d e f g i j)) = (e = t \<and> MachineConfiguration f = MachineConfiguration mc)" "proper t mc js Started" "proper t mc js (ProcessStarted cmd)" "proper t mc js Stopped"
  "proper t mc js Paused" "proper t mc js (SnapshotLoaded sn x y)" "proper t mc js (SnapshotWritten sn x y)"
  "proper t mc js (JobsSent (batchRequest req)) = (sv_Jobs req = js)"
  by (auto simp add: proper_def fcConfig_hardened batchRequest_def)

lemma runJobsInVM_proper: "sv_Jobs req = js \<Longrightarrow> adds (list_all (proper t mc js)) (runJobsInVM vm req v)"
  unfolding runJobsInVM_def
  by (cases "vm_race vm") (auto intro!: each.adds_silent each_emit)

lemma startFresh_proper:
  "sv_Jobs req = js \<Longrightarrow> sv_TargetImagePath req = t \<Longrightarrow> sv_MachineConfig req = mc \<Longrightarrow> adds (list_all (proper t mc js)) (startFresh vm req)"
  unfolding startFresh_def launch_def Let_def
  by (intro each.adds_silent each_emit runJobsInVM_proper) simp_all

lemma startFromSnapshot_proper: "sv_Jobs req = js \<Longrightarrow> adds (list_all (proper t mc js)) (startFromSnapshot vm req snap)"
  unfolding startFromSnapshot_def restoredRun_def withProcess_def validateUnixSocketPath_def Let_def
  by (intro each.adds_silent each_emit) simp_all

lemma StartVM_proper: "adds (list_all (proper (sv_TargetImagePath req) (sv_MachineConfig req) (sv_Jobs req))) (StartVM vm req)"
  unfolding StartVM_def Let_def
  by (intro each.adds_silent startFresh_proper startFromSnapshot_proper) (simp_all add: startDefaults_def)

lemma snapshotDefaults_target [simp]:
  "sq_TargetImagePath (snapshotDefaults vm req) = sq_TargetImagePath req"
  "sq_MachineConfig (snapshotDefaults vm req) = sq_MachineConfig req"
  by (simp_all add: snapshotDefaults_def)

lemma CreateReadySnapshot_proper: "adds (list_all (proper (sq_TargetImagePath req) (sq_MachineConfig req) js)) (CreateReadySnapshot vm req)"
  unfolding CreateReadySnapshot_def captureSnapshot_def launch_def validateUnixSocketPath_def Let_def
  by (intro each.adds_silent each_emit; (rule each.adds_pure)?) (auto split: option.splits prod.splits)

section \<open>Jailing\<close>

text \<open>
  Every VMM process runs under the jailer when one is configured, with its binary, user, group, chroot base and cgroups, and
  without one otherwise.
\<close>

definition same_jail :: "JailerConfig \<Rightarrow> string \<Rightarrow> int \<Rightarrow> int \<Rightarrow> string \<Rightarrow> string list \<Rightarrow> bool" where
  "same_jail j bin uid gid base cgroups =
     (bin = jc_Binary j \<and> uid = jc_UID j \<and> gid = jc_GID j \<and> base = jc_ChrootBaseDir j \<and> cgroups = jc_CgroupArgs j)"

definition jailed :: "JailerConfig option \<Rightarrow> vm_event \<Rightarrow> bool" where
  "jailed jo e = (case e of
       Created c \<Rightarrow> (case (jo, sc_Jailer c) of
           (None, None) \<Rightarrow> True
         | (Some j, Some s) \<Rightarrow> same_jail j (sj_JailerBinary s) (sj_UID s) (sj_GID s) (sj_ChrootBaseDir s) (sj_CgroupArgs s)
         | _ \<Rightarrow> False)
     | ProcessStarted cmd \<Rightarrow> (case (jo, cmd) of
           (None, VMCommand b s) \<Rightarrow> True
         | (Some j, JailerCommand c) \<Rightarrow> same_jail j (jco_Bin c) (jco_UID c) (jco_GID c) (jco_ChrootBaseDir c) (jco_CgroupArgs c)
         | _ \<Rightarrow> False)
     | _ \<Rightarrow> True)"

lemma jailed_simps [simp]:
  "jailed jo Started" "jailed jo Stopped" "jailed jo Paused" "jailed jo (SnapshotLoaded sn x y)" "jailed jo (SnapshotWritten sn x y)"
  "jailed jo (JobsSent batch)"
  "jailed jo (Created (fcConfig a p c d e f g i (map_option (\<lambda>j. sdkJailerConfig j k l m) jo)))"
  "jailed None (ProcessStarted (VMCommand x y))" "jailed (Some j) (ProcessStarted (jailerCommand j k l m))"
  by (auto simp: jailed_def fcConfig_def sdkJailerConfig_def jailerCommand_def same_jail_def split: option.splits)

lemma runJobsInVM_jailed: "adds (list_all (jailed jo)) (runJobsInVM vm req v)"
  unfolding runJobsInVM_def
  by (cases "vm_race vm") (auto intro!: each.adds_silent each_emit)

lemma startFresh_jailed: "sv_Jailer req = jo \<Longrightarrow> adds (list_all (jailed jo)) (startFresh vm req)"
  unfolding startFresh_def launch_def Let_def
  by (intro each.adds_silent each_emit runJobsInVM_jailed) simp_all

lemma startFromSnapshot_jailed: "sv_Jailer req = jo \<Longrightarrow> adds (list_all (jailed jo)) (startFromSnapshot vm req snap)"
  unfolding startFromSnapshot_def restoredRun_def withProcess_def validateUnixSocketPath_def Let_def
  by (intro each.adds_silent each_emit) (auto split: option.splits)

lemma StartVM_jailed: "adds (list_all (jailed (sv_Jailer req))) (StartVM vm req)"
  unfolding StartVM_def Let_def
  by (intro each.adds_silent startFresh_jailed startFromSnapshot_jailed) (simp_all add: startDefaults_def)

lemma snapshotDefaults_jailer [simp]: "sq_Jailer (snapshotDefaults vm req) = sq_Jailer req"
  by (simp add: snapshotDefaults_def)

lemma CreateReadySnapshot_jailed: "adds (list_all (jailed (sq_Jailer req))) (CreateReadySnapshot vm req)"
  unfolding CreateReadySnapshot_def captureSnapshot_def launch_def validateUnixSocketPath_def Let_def
  by (intro each.adds_silent each_emit; (rule each.adds_pure)?) (auto split: option.splits prod.splits)

section \<open>Snapshots\<close>

text \<open>
  A VM is restored only from a snapshot that satisfies \<open>G\<close>, and only such snapshots are written: the VMM is given the
  artifact's two files or, in a jail, their names there.
\<close>

definition restores :: "(SnapshotArtifact \<Rightarrow> bool) \<Rightarrow> JailerConfig option \<Rightarrow> vm_event \<Rightarrow> bool" where
  "restores G jo e =
     (let files = (\<lambda>a state mem. if jo = None then state = sa_SnapshotPath a \<and> mem = sa_MemPath a
                                 else state = ''snapshot.state'' \<and> mem = ''snapshot.mem'') in
      case e of
        SnapshotLoaded a state mem \<Rightarrow> G a \<and> files a state mem
      | SnapshotWritten a mem state \<Rightarrow> G a \<and> files a state mem
      | _ \<Rightarrow> True)"

lemma restores_simps [simp]:
  "restores G jo Started" "restores G jo Stopped" "restores G jo Paused" "restores G jo (Created c)" "restores G jo (ProcessStarted p)"
  "restores G jo (JobsSent batch)"
  by (simp_all add: restores_def)

lemma runJobsInVM_restores: "adds (list_all (restores G jo)) (runJobsInVM vm req v)"
  unfolding runJobsInVM_def
  by (cases "vm_race vm") (auto intro!: each.adds_silent each_emit)

lemma startFresh_restores: "adds (list_all (restores G jo)) (startFresh vm req)"
  unfolding startFresh_def launch_def Let_def
  by (intro each.adds_silent each_emit runJobsInVM_restores) simp_all

lemma startFromSnapshot_restores:
  "sv_Jailer req = jo \<Longrightarrow> G snap \<Longrightarrow> adds (list_all (restores G jo)) (startFromSnapshot vm req snap)"
  unfolding startFromSnapshot_def restoredRun_def withProcess_def validateUnixSocketPath_def Let_def
  by (intro each.adds_silent each_emit) (auto simp: restores_def)

lemma StartVM_restores:
  "(\<And>a. sv_Snapshot req = Some a \<Longrightarrow> G a) \<Longrightarrow> adds (list_all (restores G (sv_Jailer req))) (StartVM vm req)"
  unfolding StartVM_def Let_def
  by (intro each.adds_silent startFresh_restores startFromSnapshot_restores) (simp_all add: startDefaults_def)

lemma CreateReadySnapshot_restores:
  assumes "sa_MemPath (sq_Snapshot req) \<noteq> '''' \<Longrightarrow> G (sq_Snapshot req)"
  shows "adds (list_all (restores G (sq_Jailer req))) (CreateReadySnapshot vm req)"
proof -
  have s: "sq_Snapshot (snapshotDefaults vm req) = sq_Snapshot req" by (simp add: snapshotDefaults_def)
  show ?thesis
  proof (cases "sa_MemPath (sq_Snapshot req) = ''''")
    case True
    have "vbind (require False e) k = vthrow e" for e and k :: "unit \<Rightarrow> SnapshotArtifact vio"
      by (simp add: require_def vbind_def vthrow_def fun_eq_iff)
    note refuse = this
    show ?thesis unfolding CreateReadySnapshot_def Let_def s
      by (rule each.adds_vbind [OF each.adds_require]) (simp add: refuse True each.adds_vthrow)
  next
    case False
    have g: "G (sq_Snapshot req)" using False by (rule assms)
    show ?thesis
      unfolding CreateReadySnapshot_def captureSnapshot_def launch_def validateUnixSocketPath_def Let_def
      by (intro each.adds_silent each_emit; (rule each.adds_pure)?) (auto simp: g s restores_def split: option.splits prod.splits)
  qed
qed

text \<open>The snapshot that is returned is the requested one.\<close>

lemma vbind_result:
  "vbind m k h = Some (Inr b, h') \<Longrightarrow> (\<And>a h1. k a h1 = Some (Inr b, h') \<Longrightarrow> P) \<Longrightarrow> P"
  by (auto simp: vbind_def split: option.splits sum.splits prod.splits)

lemma captureSnapshot_result: "captureSnapshot vm req v h = Some (Inr a, h') \<Longrightarrow> a = sq_Snapshot req"
  unfolding captureSnapshot_def Let_def by (elim vbind_result) (simp add: vret_def)

lemma CreateReadySnapshot_result:
  assumes "CreateReadySnapshot vm req h = Some (Inr a, h')"
  shows "a = sq_Snapshot req"
proof -
  have d: "vdefer c m h = Some (Inr b, h') \<Longrightarrow> \<exists>h1. m h = Some (Inr b, h1)" for c :: "unit vio" and m :: "SnapshotArtifact vio" and h b h'
    by (auto simp: vdefer_def split: option.splits)
  show ?thesis
    using assms unfolding CreateReadySnapshot_def launch_def Let_def
    by (elim vbind_result) (auto dest!: d captureSnapshot_result simp: snapshotDefaults_def)
qed

section \<open>Properties\<close>

lemma adds_result: "adds A m \<Longrightarrow> case m h of None \<Rightarrow> True | Some (r, h') \<Rightarrow> \<exists>es. h_log h' = h_log h @ es \<and> A es"
  by (auto simp: adds_def split: option.splits)

text \<open>
  No VM outlives the call that started it: whenever \<open>StartVM\<close> (booting or restoring a snapshot) or
  \<open>CreateReadySnapshot\<close> returns, with a result, an error or a timeout, as many machines and
  processes have been stopped as were started.
\<close>

theorem no_vm_left_running:
  "(case StartVM vm req h of None \<Rightarrow> True | Some (r, h') \<Rightarrow> running (h_log h') = running (h_log h)) \<and>
   (case CreateReadySnapshot vm sreq h of None \<Rightarrow> True | Some (r, h') \<Rightarrow> running (h_log h') = running (h_log h))"
  using adds_result [OF StartVM_balanced [of vm req], of h] adds_result [OF CreateReadySnapshot_balanced [of vm sreq], of h]
  by (auto split: option.splits)

text \<open>
  Every machine these calls create has read-only drives, seccomp filters, no SMT and at least one
  CPU and one MiB of memory, whatever the request says, with the request's target image as second drive and the size the request asks for; and the agent in it gets exactly the jobs
  of the request, with the order to shut down afterwards.
\<close>

theorem every_vm_hardened:
  "(case StartVM vm req h of None \<Rightarrow> True
    | Some (r, h') \<Rightarrow> \<exists>es. h_log h' = h_log h @ es \<and> list_all (proper (sv_TargetImagePath req) (sv_MachineConfig req) (sv_Jobs req)) es) \<and>
   (case CreateReadySnapshot vm sreq h of None \<Rightarrow> True
    | Some (r, h') \<Rightarrow> \<exists>es. h_log h' = h_log h @ es \<and> list_all (proper (sq_TargetImagePath sreq) (sq_MachineConfig sreq) []) es)"
  using adds_result [OF StartVM_proper [of req vm], of h] adds_result [OF CreateReadySnapshot_proper [of sreq "[]" vm], of h] by (rule conjI)

end
