(* ===== verification/Manager.thy ===== *)
theory Manager
  imports ImageRuntime FirecrackerSafety
begin

text \<open>
  The manager (\<open>internal/manager\<close>): checks the host, prepares the image, completes the request and
  runs it in a VM; lists and deletes images and snapshots.  What it uses from outside is a record: the
  runtime's environment, the SDK, the directories of \<open>PATH\<close> and the order in which Go ranges over a map, and what
  the clock measures for a phase.
\<close>

section \<open>Types\<close>

record RunRequest =
  rq_ImageRef :: string
  rq_Platform :: Platform
  rq_Command :: "string list"
  rq_KernelPath :: string
  rq_BootImagePath :: string
  rq_FirecrackerPath :: string
  rq_Jailer :: "JailerConfig option"
  rq_MachineConfig :: MachineConfig
  rq_Workspace :: string
  rq_Workdir :: string
  rq_UID :: int
  rq_GID :: int
  rq_Defaults :: JobDefaults
  rq_Jobs :: "Job list"
  rq_Timeout :: int
  rq_SnapshotDir :: string
  rq_Snapshot :: "SnapshotArtifact option"
  rq_CleanupJailer :: bool

record CreateSnapshotRequest =
  cs_ImageRef :: string
  cs_Platform :: Platform
  cs_KernelPath :: string
  cs_BootImagePath :: string
  cs_FirecrackerPath :: string
  cs_Jailer :: "JailerConfig option"
  cs_MachineConfig :: MachineConfig
  cs_Timeout :: int
  cs_SnapshotDir :: string
  cs_Snapshot :: SnapshotArtifact

record ManagerImage =
  mi_ImageRef :: string
  mi_ManifestDigest :: string
  mi_ChainID :: string
  mi_RootfsPath :: string
  mi_OCIConfigPath :: string
  mi_CacheHit :: bool

record SnapshotInfo =
  si_ChainID :: string
  si_MemPath :: string
  si_SnapshotPath :: string
  si_WorkspaceDir :: string
  si_Exists :: bool

record ManagerRunTimings =
  mt_PreflightDuration :: int
  mt_PrepareDuration :: int
  mt_ReadConfigDuration :: int
  mt_SnapshotDuration :: int
  mt_TotalDuration :: int

record ManagerRunResult =
  mr_Image :: ManagerImage
  mr_VM :: RunResult
  mr_Timings :: ManagerRunTimings

datatype manager_error =
    ManagerRefRequired
  | FirecrackerNotFound string
  | NotReadable string string errno
  | NoKvm errno
  | ManagerPrepare prepare_error
  | ManagerOs errno
  | ManagerStore store_error
  | ManagerDecode
  | NoCommand
  | InvalidChainID string
  | ManagerVm vm_error
  | ManagerCancelled

datatype manager_phase = PreflightPhase | PreparePhase | ReadConfigPhase | SnapshotPhase | RunPhase

record 'ref manager_env =
  me_runtime :: "'ref runtime_env"
  me_vmm :: vmm
  me_PATH :: "string list"
  me_shuffle :: "(string \<times> string) list \<Rightarrow> (string \<times> string) list"
  me_elapsed :: "manager_phase \<Rightarrow> int"

text \<open>Steps of other components as steps of the manager.\<close>

definition hos :: "('f \<Rightarrow> 'e) \<Rightarrow> ('f, 'a) io \<Rightarrow> ('e, 'a) hio" where
  "hos f m h = (case m (h_os h) of (Inl e, s) \<Rightarrow> Some (Inl (f e), h\<lparr>h_os := s\<rparr>) | (Inr a, s) \<Rightarrow> Some (Inr a, h\<lparr>h_os := s\<rparr>))"

definition blocking :: "('f \<Rightarrow> 'e) \<Rightarrow> (os \<Rightarrow> (('f + 'a) \<times> os) option) \<Rightarrow> ('e, 'a) hio" where
  "blocking f m h = (case m (h_os h) of
       None \<Rightarrow> None
     | Some (Inl e, s) \<Rightarrow> Some (Inl (f e), h\<lparr>h_os := s\<rparr>)
     | Some (Inr a, s) \<Rightarrow> Some (Inr a, h\<lparr>h_os := s\<rparr>))"

definition vlift :: "('f \<Rightarrow> 'e) \<Rightarrow> ('f, 'a) hio \<Rightarrow> ('e, 'a) hio" where
  "vlift f m h = (case m h of
       None \<Rightarrow> None
     | Some (Inl e, h') \<Rightarrow> Some (Inl (f e), h')
     | Some (Inr a, h') \<Rightarrow> Some (Inr a, h'))"

section \<open>Helpers\<close>

definition validateChainID :: "string \<Rightarrow> manager_error option" where
  "validateChainID chainID =
     (let encoded = TrimPrefix chainID ''sha256:'' in
      if encoded = '''' \<or> length encoded \<noteq> 64 then Some (InvalidChainID chainID)
      else if list_ex (\<lambda>r. \<not> is_hex r) encoded then Some (InvalidChainID chainID)
      else None)"

definition mkArtifact :: "string \<Rightarrow> string \<Rightarrow> SnapshotArtifact" where
  "mkArtifact snapshotDir chainID =
     (let encoded = TrimPrefix chainID ''sha256:'' in
      \<lparr>sa_MemPath = Join [snapshotDir, encoded @ ''.mem''], sa_SnapshotPath = Join [snapshotDir, encoded @ ''.snapshot''],
       sa_WorkspaceDir = Join [snapshotDir, encoded @ ''-workspace'']\<rparr>)"

definition SnapshotExists :: "SnapshotArtifact option \<Rightarrow> ('e, bool) io" where
  "SnapshotExists snapshot =
     (case snapshot of
        None \<Rightarrow> ret False
      | Some a \<Rightarrow> andThen (exists (sa_MemPath a)) (\<lambda>mem. if mem then exists (sa_SnapshotPath a) else ret False))"

definition defaultCommand :: "ImageConfig \<Rightarrow> string list" where
  "defaultCommand cfg = rc_Entrypoint (ic_Config cfg) @ rc_Cmd (ic_Config cfg)"

definition readOCIConfig :: "(string \<Rightarrow> ImageConfig option) \<Rightarrow> string \<Rightarrow> (manager_error, ImageConfig) io" where
  "readOCIConfig decode path =
     andThen (wrap ManagerOs (ReadFile path)) (\<lambda>contents.
       case decode contents of None \<Rightarrow> throw ManagerDecode | Some cfg \<Rightarrow> ret cfg)"

text \<open>
  \<open>exec.LookPath\<close> for a name without a slash.  An executable is a file with one of its three
  execute bits, which is what a privileged caller needs.
\<close>

datatype look_error = NotFound | ErrDot

definition findExecutable :: "string \<Rightarrow> (errno, unit) io" where
  "findExecutable path =
     andThen (Stat path) (\<lambda>x.
       case x of
         RegE i \<Rightarrow> andThen (reads (\<lambda>s. case inodes s i of None \<Rightarrow> 0 | Some d \<Rightarrow> perm (iattr d))) (\<lambda>m.
                     if m AND 73 \<noteq> 0 then ret () else throw EACCES)
       | _ \<Rightarrow> throw EISDIR)"

fun LookPath :: "string list \<Rightarrow> string \<Rightarrow> (look_error, string) io" where
  "LookPath [] file = throw NotFound"
| "LookPath (d # ds) file =
     (let path = Join [if d = '''' then ''.'' else d, file] in
      andThen (attempt (findExecutable path)) (\<lambda>r.
        case r of
          Inr u \<Rightarrow> if IsAbs path then ret path else throw ErrDot
        | Inl e \<Rightarrow> LookPath ds file))"

fun statAll :: "(string \<times> string) list \<Rightarrow> (manager_error, unit) io" where
  "statAll [] = ret ()"
| "statAll ((label, p) # ps) = andThen (wrap (NotReadable label p) (Stat p)) (\<lambda>_. statAll ps)"

definition preflightVMRun :: "string list \<Rightarrow> ((string \<times> string) list \<Rightarrow> (string \<times> string) list)
    \<Rightarrow> string \<Rightarrow> string \<Rightarrow> string \<Rightarrow> (manager_error, string) io" where
  "preflightVMRun PATH shuffle firecrackerPath kernelPath bootImagePath =
     andThen (if ContainsRune firecrackerPath slash then ret firecrackerPath
              else wrap (\<lambda>_. FirecrackerNotFound firecrackerPath) (LookPath PATH firecrackerPath)) (\<lambda>resolvedFirecracker.
     andThen (statAll (shuffle [(''firecracker'', resolvedFirecracker), (''kernel'', kernelPath), (''boot image'', bootImagePath)])) (\<lambda>_.
     andThen (wrap NoKvm (Stat ''/dev/kvm'')) (\<lambda>_.
     ret resolvedFirecracker)))"

definition managerPreparedImage :: "PreparedImage \<Rightarrow> ManagerImage" where
  "managerPreparedImage prepared =
     \<lparr>mi_ImageRef = pp_ImageRef prepared, mi_ManifestDigest = pp_ManifestDigest prepared, mi_ChainID = pp_ChainID prepared,
      mi_RootfsPath = pp_RootfsPath prepared, mi_OCIConfigPath = pp_OCIConfigPath prepared, mi_CacheHit = pp_CacheHit prepared\<rparr>"

section \<open>Operations\<close>

definition manager_New :: "HostConfig.Config \<Rightarrow> HostConfig.Config" where
  "manager_New cfg = runtime_New cfg"

definition managerPrepareImage :: "'ref manager_env \<Rightarrow> HostConfig.Config \<Rightarrow> string \<Rightarrow> Platform \<Rightarrow> (manager_error, ManagerImage) hio" where
  "managerPrepareImage env cfg ref platform =
     vbind (blocking ManagerPrepare (PrepareImage (me_runtime env) (runtime_New cfg) ref platform)) (\<lambda>prepared.
     vret (managerPreparedImage prepared))"

definition managerPreflight :: "'ref manager_env \<Rightarrow> HostConfig.Config \<Rightarrow> string \<Rightarrow> string \<Rightarrow> string \<Rightarrow> (manager_error, string) hio" where
  "managerPreflight env cfg fc kern boot =
     hos id (preflightVMRun (me_PATH env) (me_shuffle env) (firstNonEmpty [fc, ''firecracker''])
       (firstNonEmpty [kern, KernelPath cfg]) (firstNonEmpty [boot, BootImagePath cfg]))"

definition managerCreateSnapshot :: "'ref manager_env \<Rightarrow> HostConfig.Config \<Rightarrow> CreateSnapshotRequest \<Rightarrow> (manager_error, SnapshotArtifact) hio" where
  "managerCreateSnapshot env cfg req =
     vbind (require (cs_ImageRef req \<noteq> '''') ManagerRefRequired) (\<lambda>_.
     let timeout = (if cs_Timeout req \<le> 0 then 60 * second else cs_Timeout req) in
     vbind (managerPreflight env cfg (cs_FirecrackerPath req) (cs_KernelPath req) (cs_BootImagePath req)) (\<lambda>resolvedFirecracker.
     vbind (managerPrepareImage env cfg (cs_ImageRef req) (cs_Platform req)) (\<lambda>prepared.
     let snapshot = (if sa_MemPath (cs_Snapshot req) = '''' \<and> cs_SnapshotDir req \<noteq> ''''
                     then mkArtifact (cs_SnapshotDir req) (mi_ChainID prepared) else cs_Snapshot req) in
     vlift ManagerVm (CreateReadySnapshot (me_vmm env)
       \<lparr>sq_ID = '''', sq_StoreDir = StoreDir cfg, sq_FirecrackerPath = resolvedFirecracker, sq_Jailer = cs_Jailer req,
        sq_KernelPath = firstNonEmpty [cs_KernelPath req, KernelPath cfg],
        sq_BootImagePath = firstNonEmpty [cs_BootImagePath req, BootImagePath cfg],
        sq_TargetImagePath = mi_RootfsPath prepared, sq_MachineConfig = cs_MachineConfig req, sq_VsockCID = 0,
        sq_Timeout = timeout, sq_Snapshot = snapshot\<rparr>))))"

text \<open>The parts of \<open>Run\<close>: the defaults, the jobs and the snapshot.\<close>

definition runDefaults :: "RunRequest \<Rightarrow> ImageConfig \<Rightarrow> JobDefaults" where
  "runDefaults req imageConfig =
     (let defaults = rq_Defaults req;
          env1 = (if d_Env defaults = [] then rc_Env (ic_Config imageConfig) else d_Env defaults);
          env2 = (if env1 = [] then [''PATH=/usr/local/sbin:/usr/local/bin:/usr/sbin:/usr/bin:/sbin:/bin''] else env1) in
      \<lparr>d_UID = (case d_UID defaults of None \<Rightarrow> Some (rq_UID req) | Some u \<Rightarrow> Some u),
       d_GID = (case d_GID defaults of None \<Rightarrow> Some (rq_GID req) | Some g \<Rightarrow> Some g),
       d_Env = env2,
       d_TimeoutMillis = (if d_TimeoutMillis defaults = 0 then rq_Timeout req div millisecond else d_TimeoutMillis defaults),
       d_MaxOutputBytes = (if d_MaxOutputBytes defaults = 0 then 4 * 2 ^ 20 else d_MaxOutputBytes defaults)\<rparr>)"

definition runJobsOf :: "RunRequest \<Rightarrow> ImageConfig \<Rightarrow> Job list option" where
  "runJobsOf req imageConfig =
     (if rq_Jobs req \<noteq> [] then Some (rq_Jobs req)
      else
        let argv = (if rq_Command req = [] then defaultCommand imageConfig else rq_Command req) in
        if argv = [] then None
        else
          let workspace = firstNonEmpty [rq_Workspace req, ''/workspace''];
              workdir = firstNonEmpty [rq_Workdir req, workspace] in
          Some [zero_job\<lparr>j_Type := JobMkdir, j_Path := workspace, j_Mode := 493\<rparr>,
                zero_job\<lparr>j_Type := JobExec, j_Argv := argv, j_WorkingDir := workdir\<rparr>])"

definition runSnapshot :: "'ref manager_env \<Rightarrow> HostConfig.Config \<Rightarrow> RunRequest \<Rightarrow> string \<Rightarrow> ManagerImage \<Rightarrow> (manager_error, SnapshotArtifact option \<times> int) hio" where
  "runSnapshot env cfg req resolvedFirecracker prepared =
     (if rq_Snapshot req = None \<and> rq_SnapshotDir req \<noteq> ''''
      then
        let snapshot = mkArtifact (rq_SnapshotDir req) (mi_ChainID prepared) in
        vbind (hos id (SnapshotExists (Some snapshot))) (\<lambda>present.
          if present then vret (Some snapshot, 0)
          else
            vbind (managerCreateSnapshot env cfg
              \<lparr>cs_ImageRef = rq_ImageRef req, cs_Platform = rq_Platform req, cs_KernelPath = rq_KernelPath req,
               cs_BootImagePath = rq_BootImagePath req, cs_FirecrackerPath = resolvedFirecracker, cs_Jailer = rq_Jailer req,
               cs_MachineConfig = rq_MachineConfig req, cs_Timeout = rq_Timeout req, cs_SnapshotDir = '''',
               cs_Snapshot = snapshot\<rparr>) (\<lambda>created. vret (Some created, me_elapsed env SnapshotPhase)))
      else vret (rq_Snapshot req, 0))"

text \<open>
  \<open>Run\<close>.  The second environment is the one that the nested \<open>CreateSnapshot\<close> meets.
\<close>

definition Run :: "'ref manager_env \<Rightarrow> 'ref manager_env \<Rightarrow> HostConfig.Config \<Rightarrow> RunRequest \<Rightarrow> (manager_error, ManagerRunResult) hio" where
  "Run env snapEnv cfg req0 =
     vbind (require (rq_ImageRef req0 \<noteq> '''') ManagerRefRequired) (\<lambda>_.
     let req = req0\<lparr>rq_Timeout := (if rq_Timeout req0 \<le> 0 then 60 * second else rq_Timeout req0)\<rparr> in
     vbind (managerPreflight env cfg (rq_FirecrackerPath req) (rq_KernelPath req) (rq_BootImagePath req)) (\<lambda>resolvedFirecracker.
     vbind (managerPrepareImage env cfg (rq_ImageRef req) (rq_Platform req)) (\<lambda>prepared.
     vbind (hos id (readOCIConfig (dec_Image (env_json (me_runtime env))) (mi_OCIConfigPath prepared))) (\<lambda>imageConfig.
     vbind (case runJobsOf req imageConfig of None \<Rightarrow> vthrow NoCommand | Some js \<Rightarrow> vret js) (\<lambda>jobs.
     vbind (runSnapshot snapEnv cfg req resolvedFirecracker prepared) (\<lambda>(snapshot, snapshotDuration).
     vbind (vlift ManagerVm (StartVM (me_vmm env)
       \<lparr>sv_ID = '''', sv_StoreDir = StoreDir cfg, sv_FirecrackerPath = resolvedFirecracker, sv_Jailer = rq_Jailer req,
        sv_KernelPath = firstNonEmpty [rq_KernelPath req, KernelPath cfg],
        sv_BootImagePath = firstNonEmpty [rq_BootImagePath req, BootImagePath cfg],
        sv_TargetImagePath = mi_RootfsPath prepared, sv_MachineConfig = rq_MachineConfig req, sv_VsockCID = 0,
        sv_Defaults = runDefaults req imageConfig, sv_Workspace = firstNonEmpty [rq_Workspace req, ''/workspace''],
        sv_Jobs = jobs, sv_Shutdown = True, sv_Timeout = rq_Timeout req, sv_Snapshot = snapshot\<rparr>)) (\<lambda>vm.
     vbind (case (rq_CleanupJailer req, rq_Jailer req) of
              (True, Some j) \<Rightarrow> vdrop (RemoveAll (JailerVMDir j resolvedFirecracker (vh_ID (rr_VM vm))))
            | _ \<Rightarrow> vret ()) (\<lambda>_.
     vret \<lparr>mr_Image = prepared, mr_VM = vm,
       mr_Timings = \<lparr>mt_PreflightDuration = me_elapsed env PreflightPhase, mt_PrepareDuration = me_elapsed env PreparePhase,
         mt_ReadConfigDuration = me_elapsed env ReadConfigPhase, mt_SnapshotDuration = snapshotDuration,
         mt_TotalDuration = me_elapsed env RunPhase\<rparr>\<rparr>))))))))"

section \<open>Images and snapshots\<close>

text \<open>\<open>cancelled\<close>: the request's context is done when the call starts.\<close>

fun imagesOf :: "(string \<Rightarrow> Metadata option) \<Rightarrow> string \<Rightarrow> (string \<times> entry) list \<Rightarrow> (manager_error, ManagerImage list) io" where
  "imagesOf decode Dir0 [] = ret []"
| "imagesOf decode Dir0 ((name, e) # rest) =
     (if is_dir (Some e) \<or> Ext name \<noteq> ''.json'' then imagesOf decode Dir0 rest
      else
        andThen (wrap ManagerStore (ReadJSON decode (Join [Dir0, ''rootfs'', ''complete'', name]))) (\<lambda>meta.
        andThen (imagesOf decode Dir0 rest) (\<lambda>images.
        ret (\<lparr>mi_ImageRef = md_ImageRef meta, mi_ManifestDigest = md_ManifestDigest meta, mi_ChainID = md_ChainID meta,
              mi_RootfsPath = RootfsPath Dir0 (md_ChainID meta), mi_OCIConfigPath = '''', mi_CacheHit = True\<rparr> # images))))"

definition ListImages :: "(string \<Rightarrow> Metadata option) \<Rightarrow> HostConfig.Config \<Rightarrow> bool \<Rightarrow> (manager_error, ManagerImage list) io" where
  "ListImages decode cfg cancelled =
     (if cancelled then throw ManagerCancelled
      else andThen (attempt (ReadDir (Join [StoreDir cfg, ''rootfs'', ''complete'']))) (\<lambda>r.
        case r of
          Inl e \<Rightarrow> if e = ENOENT then ret [] else throw (ManagerOs e)
        | Inr entries \<Rightarrow> imagesOf decode (StoreDir cfg) entries))"

fun removeEach :: "string list \<Rightarrow> (manager_error, unit) io" where
  "removeEach [] = ret ()"
| "removeEach (p # ps) =
     andThen (attempt (Remove p)) (\<lambda>r.
       case r of
         Inl e \<Rightarrow> if e = ENOENT then removeEach ps else throw (ManagerOs e)
       | Inr u \<Rightarrow> removeEach ps)"

definition DeleteImage :: "HostConfig.Config \<Rightarrow> bool \<Rightarrow> string \<Rightarrow> (manager_error, unit) io" where
  "DeleteImage cfg cancelled chainID =
     (if cancelled then throw ManagerCancelled
      else case validateChainID chainID of
        Some e \<Rightarrow> throw e
      | None \<Rightarrow> removeEach [RootfsPath (StoreDir cfg) chainID, RootfsMetadataPath (StoreDir cfg) chainID])"

fun snapshotsOf :: "string \<Rightarrow> string list \<Rightarrow> (string \<times> entry) list \<Rightarrow> ('e, SnapshotInfo list) io" where
  "snapshotsOf snapshotDir seen [] = ret []"
| "snapshotsOf snapshotDir seen ((name, e) # rest) =
     (if is_dir (Some e) \<or> Ext name \<noteq> ''.snapshot'' then snapshotsOf snapshotDir seen rest
      else
        let chainID = ''sha256:'' @ TrimSuffix name ''.snapshot'' in
        if chainID \<in> set seen then snapshotsOf snapshotDir seen rest
        else
          let artifact = mkArtifact snapshotDir chainID in
          andThen (SnapshotExists (Some artifact)) (\<lambda>present.
          andThen (snapshotsOf snapshotDir (chainID # seen) rest) (\<lambda>infos.
          ret (\<lparr>si_ChainID = chainID, si_MemPath = sa_MemPath artifact, si_SnapshotPath = sa_SnapshotPath artifact,
                si_WorkspaceDir = sa_WorkspaceDir artifact, si_Exists = present\<rparr> # infos))))"

definition ListSnapshots :: "bool \<Rightarrow> string \<Rightarrow> (manager_error, SnapshotInfo list) io" where
  "ListSnapshots cancelled snapshotDir =
     (if cancelled then throw ManagerCancelled
      else andThen (attempt (ReadDir snapshotDir)) (\<lambda>r.
        case r of
          Inl e \<Rightarrow> if e = ENOENT then ret [] else throw (ManagerOs e)
        | Inr entries \<Rightarrow> snapshotsOf snapshotDir [] entries))"

definition DeleteSnapshot :: "bool \<Rightarrow> string \<Rightarrow> string \<Rightarrow> (manager_error, unit) io" where
  "DeleteSnapshot cancelled snapshotDir chainID =
     (if cancelled then throw ManagerCancelled
      else case validateChainID chainID of
        Some e \<Rightarrow> throw e
      | None \<Rightarrow>
          let artifact = mkArtifact snapshotDir chainID in
          andThen (removeEach [sa_MemPath artifact, sa_SnapshotPath artifact]) (\<lambda>_.
          andThen (attempt (RemoveAll (sa_WorkspaceDir artifact))) (\<lambda>r.
            case r of
              Inl e \<Rightarrow> if e = ENOENT then ret () else throw (ManagerOs e)
            | Inr u \<Rightarrow> ret ())))"

end
