(* ===== verification/ServerConfig.thy ===== *)
theory ServerConfig
  imports Manager
begin

text \<open>
  The daemon's configuration (\<open>internal/server/config.go\<close>): defaults, validation, and what the
  manager and the runner get of it.  The JSON decoder is a parameter that merges a document
  into a configuration, \<open>None\<close> when it fails; \<open>arch\<close> is Go's \<open>runtime.GOARCH\<close>.
\<close>

definition DefaultListen :: string where "DefaultListen = ''127.0.0.1:8080''"

record ServerJailerConfig =
  sjc_Binary :: string
  sjc_ChrootBaseDir :: string
  sjc_UID :: int
  sjc_GID :: int
  sjc_NumaNode :: int
  sjc_CgroupVersion :: string
  sjc_CgroupArgs :: "string list"

record Limits =
  MaxTimeoutMillis :: int
  MaxOutputBytes :: int
  MaxVCPUCount :: int
  MaxMemSizeMiB :: int
  MaxTasks :: int
  MaxWriteFileBytes :: int

record ServerConfig =
  cf_Listen :: string
  cf_StoreDir :: string
  cf_KernelPath :: string
  cf_BootImagePath :: string
  cf_FirecrackerPath :: string
  cf_SnapshotDir :: string
  cf_Machine :: MachineConfig
  cf_Jailer :: "ServerJailerConfig option"
  cf_Limits :: Limits
  cf_CleanupJailer :: bool

datatype config_error =
    ListenRequired
  | PathsRequired
  | MachineExceedsLimits
  | JailerBinaryRequired
  | ConfigRead errno
  | ConfigDecode

text \<open>\<open>if v <= 0 { v = d }\<close>.\<close>

definition orPositive :: "int \<Rightarrow> int \<Rightarrow> int" where
  "orPositive v d = (if v \<le> 0 then d else v)"

definition applyDefaults :: "ServerConfig \<Rightarrow> ServerConfig" where
  "applyDefaults cfg =
     (let store = orString (cf_StoreDir cfg) DefaultStoreDir;
          m = cf_Machine cfg;
          vcpu = orPositive (VCPUCount m) 1;
          mem = orPositive (MemSizeMiB m) 256;
          l = cf_Limits cfg in
      cfg\<lparr>cf_Listen := orString (cf_Listen cfg) DefaultListen,
          cf_StoreDir := store,
          cf_KernelPath := orString (cf_KernelPath cfg) DefaultKernelPath,
          cf_BootImagePath := orString (cf_BootImagePath cfg) DefaultBootImagePath,
          cf_FirecrackerPath := orString (cf_FirecrackerPath cfg) ''firecracker'',
          cf_SnapshotDir := orString (cf_SnapshotDir cfg) (store @ ''/snapshots''),
          cf_Machine := m\<lparr>VCPUCount := vcpu, MemSizeMiB := mem\<rparr>,
          cf_Limits := l\<lparr>MaxTimeoutMillis := orPositive (MaxTimeoutMillis l) 60000,
                         MaxOutputBytes := orPositive (MaxOutputBytes l) (4 * 2 ^ 20),
                         MaxVCPUCount := orPositive (MaxVCPUCount l) vcpu,
                         MaxMemSizeMiB := orPositive (MaxMemSizeMiB l) mem,
                         MaxTasks := orPositive (MaxTasks l) 32,
                         MaxWriteFileBytes := orPositive (MaxWriteFileBytes l) (4 * 2 ^ 20)\<rparr>,
          cf_Jailer := map_option (\<lambda>j. j\<lparr>sjc_CgroupVersion := orString (sjc_CgroupVersion j) ''2''\<rparr>) (cf_Jailer cfg)\<rparr>)"

definition Validate :: "ServerConfig \<Rightarrow> config_error option" where
  "Validate cfg =
     (if cf_Listen cfg = '''' then Some ListenRequired
      else if cf_StoreDir cfg = '''' \<or> cf_KernelPath cfg = '''' \<or> cf_BootImagePath cfg = '''' \<or>
              cf_FirecrackerPath cfg = '''' \<or> cf_SnapshotDir cfg = '''' then Some PathsRequired
      else if VCPUCount (cf_Machine cfg) > MaxVCPUCount (cf_Limits cfg) \<or>
              MemSizeMiB (cf_Machine cfg) > MaxMemSizeMiB (cf_Limits cfg) then Some MachineExceedsLimits
      else (case cf_Jailer cfg of
              Some j \<Rightarrow> if sjc_Binary j = '''' then Some JailerBinaryRequired else None
            | None \<Rightarrow> None))"

definition DefaultConfig :: ServerConfig where
  "DefaultConfig = applyDefaults
     \<lparr>cf_Listen = DefaultListen, cf_StoreDir = DefaultStoreDir, cf_KernelPath = DefaultKernelPath,
      cf_BootImagePath = DefaultBootImagePath, cf_FirecrackerPath = ''firecracker'',
      cf_SnapshotDir = DefaultStoreDir @ ''/snapshots'', cf_Machine = \<lparr>VCPUCount = 1, MemSizeMiB = 256\<rparr>, cf_Jailer = None,
      cf_Limits = \<lparr>MaxTimeoutMillis = 60000, MaxOutputBytes = 4 * 2 ^ 20, MaxVCPUCount = 4, MaxMemSizeMiB = 2048,
                   MaxTasks = 32, MaxWriteFileBytes = 4 * 2 ^ 20\<rparr>,
      cf_CleanupJailer = False\<rparr>"

text \<open>\<open>LoadConfig\<close> returns the configuration next to a validation error; its callers give up on the error.\<close>

definition LoadConfig :: "(string \<Rightarrow> ServerConfig \<Rightarrow> ServerConfig option) \<Rightarrow> string \<Rightarrow> (config_error, ServerConfig) io" where
  "LoadConfig merge path =
     andThen (wrap ConfigRead (ReadFile path)) (\<lambda>contents.
       case merge contents DefaultConfig of
         None \<Rightarrow> throw ConfigDecode
       | Some cfg0 \<Rightarrow>
           let cfg = applyDefaults cfg0 in
           (case Validate cfg of None \<Rightarrow> ret cfg | Some e \<Rightarrow> throw e))"

definition RuntimeConfigOf :: "string \<Rightarrow> ServerConfig \<Rightarrow> HostConfig.Config" where
  "RuntimeConfigOf arch cfg =
     \<lparr>StoreDir = cf_StoreDir cfg, KernelPath = cf_KernelPath cfg, BootImagePath = cf_BootImagePath cfg,
      cfg_Platform = \<lparr>OS = ''linux'', Architecture = arch\<rparr>,
      cfg_Rootfs = \<lparr>MinSizeBytes = 0, MaxSizeBytes = 0, ExtraBytes = 0, FSKind = ''''\<rparr>\<rparr>"

definition FirecrackerJailer :: "ServerConfig \<Rightarrow> JailerConfig option" where
  "FirecrackerJailer cfg = map_option (\<lambda>j.
     \<lparr>jc_Binary = sjc_Binary j, jc_ChrootBaseDir = sjc_ChrootBaseDir j, jc_UID = sjc_UID j, jc_GID = sjc_GID j,
      jc_NumaNode = sjc_NumaNode j, jc_CgroupVersion = sjc_CgroupVersion j, jc_CgroupArgs = sjc_CgroupArgs j\<rparr>) (cf_Jailer cfg)"

section \<open>Completed configurations\<close>

lemma orPositive_simps [simp]:
  "0 < d \<Longrightarrow> 0 < orPositive v d" "orPositive (orPositive v d) d = orPositive v d" "0 < v \<Longrightarrow> orPositive v d = v"
  by (auto simp: orPositive_def)

lemma defaults_nonempty [simp]:
  "DefaultListen \<noteq> ''''" "DefaultStoreDir \<noteq> ''''" "DefaultKernelPath \<noteq> ''''" "DefaultBootImagePath \<noteq> ''''"
  by (simp_all add: DefaultListen_def DefaultStoreDir_def DefaultKernelPath_def DefaultBootImagePath_def)

lemma applyDefaults_idem: "applyDefaults (applyDefaults cfg) = applyDefaults cfg"
  by (cases "cf_Jailer cfg") (simp_all add: applyDefaults_def Let_def)

definition positive_limits :: "Limits \<Rightarrow> bool" where
  "positive_limits l = (0 < MaxTimeoutMillis l \<and> 0 < MaxOutputBytes l \<and> 0 < MaxVCPUCount l \<and> 0 < MaxMemSizeMiB l \<and>
     0 < MaxTasks l \<and> 0 < MaxWriteFileBytes l)"

lemma applyDefaults_positive: "positive_limits (cf_Limits (applyDefaults cfg))"
  by (simp add: applyDefaults_def Let_def positive_limits_def)

lemma Validate_completed:
  "Validate (applyDefaults cfg) = None \<longleftrightarrow>
    (let c = applyDefaults cfg in
     VCPUCount (cf_Machine c) \<le> MaxVCPUCount (cf_Limits c) \<and> MemSizeMiB (cf_Machine c) \<le> MaxMemSizeMiB (cf_Limits c) \<and>
     (\<forall>j. cf_Jailer cfg = Some j \<longrightarrow> sjc_Binary j \<noteq> ''''))"
  by (auto simp: Validate_def applyDefaults_def Let_def split: option.splits)

end
