(* ===== verification/ApiServer.thy ===== *)
theory ApiServer
  imports ServerConfig
begin

text \<open>
  The daemon's HTTP operations (\<open>internal/server/server.go\<close>): each handler after the framework has
  decoded the request, with the status of an error as the constructor of the answer.  The
  schema constraints that the framework checks from the struct tags are not relied on, except that a
  field has its Go type.
\<close>

datatype api_error = BadRequest request_error | InternalError manager_error
  and request_error =
    ImageRefMissing
  | NoTasks
  | TooManyTasks
  | TimeoutExceedsLimit
  | MachineTooBig
  | NotUnderWorkspace string
  | NotBase64
  | ContentsTooBig
  | ArgvMissing
  | UnsupportedTask string
  | UnsupportedSnapshotMode string
  | Refused manager_error

record Task =
  t_Type :: string
  t_Path :: string
  t_Mode :: uint32
  t_ContentsBase64 :: string
  t_CreateParents :: bool
  t_Argv :: "string list"
  t_WorkingDir :: string

record ApiRunRequest =
  ar_ImageRef :: string
  ar_Tasks :: "Task list"
  ar_Workdir :: string
  ar_UID :: int
  ar_GID :: int
  ar_TimeoutMillis :: int
  ar_SnapshotMode :: string
  ar_Machine :: MachineConfig

record RunTimingsDTO =
  td_PreflightDurationMillis :: int
  td_PrepareDurationMillis :: int
  td_ReadConfigDurationMillis :: int
  td_SnapshotDurationMillis :: int
  td_TotalDurationMillis :: int

record VMTimingsDTO =
  vd_SetupDurationMillis :: int
  vd_MachineStartDurationMillis :: int
  vd_AgentReadyDurationMillis :: int
  vd_JobsDurationMillis :: int
  vd_ShutdownWaitDurationMillis :: int
  vd_TotalDurationMillis :: int

record RunOutput =
  ro_Image :: ManagerImage
  ro_Results :: "JobResult list"
  ro_Timings :: RunTimingsDTO
  ro_VM :: VMHandle
  ro_VMTimings :: VMTimingsDTO

text \<open>The server: its configuration and the manager's.\<close>

record ApiServer =
  as_Config :: ServerConfig
  as_Manager :: HostConfig.Config

definition server_New :: "string \<Rightarrow> ServerConfig \<Rightarrow> config_error + ApiServer" where
  "server_New arch cfg0 =
     (let cfg = applyDefaults cfg0 in
      case Validate cfg of
        Some e \<Rightarrow> Inl e
      | None \<Rightarrow> Inr \<lparr>as_Config = cfg, as_Manager = manager_New (RuntimeConfigOf arch cfg)\<rparr>)"

section \<open>From tasks to jobs\<close>

definition validateWorkspacePath :: "string \<Rightarrow> request_error option" where
  "validateWorkspacePath path =
     (let clean = Clean path in
      if \<not> HasPrefix clean ''/workspace'' then Some (NotUnderWorkspace path)
      else if clean \<noteq> ''/workspace'' \<and> \<not> HasPrefix clean ''/workspace/'' then Some (NotUnderWorkspace path)
      else None)"

definition decodedBase64Len :: "string \<Rightarrow> int option" where
  "decodedBase64Len v = map_option (\<lambda>d. int (length d)) (DecodeString v)"

definition hostPlatform :: "string \<Rightarrow> Platform" where
  "hostPlatform arch = \<lparr>OS = ''linux'', Architecture = arch\<rparr>"

text \<open>One round of the loop of \<open>tasksToJobs\<close>.\<close>

definition taskToJob :: "Limits \<Rightarrow> string \<Rightarrow> Task \<Rightarrow> request_error + Job" where
  "taskToJob limits defaultWorkdir task =
     (if t_Type task = JobMkdir then
        (case validateWorkspacePath (t_Path task) of
           Some e \<Rightarrow> Inl e
         | None \<Rightarrow> Inr (zero_job\<lparr>j_Type := JobMkdir, j_Path := t_Path task,
                      j_Mode := (if t_Mode task = 0 then 493 else t_Mode task), j_CreateParents := t_CreateParents task\<rparr>))
      else if t_Type task = JobWriteFile then
        (case validateWorkspacePath (t_Path task) of
           Some e \<Rightarrow> Inl e
         | None \<Rightarrow>
             (case decodedBase64Len (t_ContentsBase64 task) of
                None \<Rightarrow> Inl NotBase64
              | Some decodedLen \<Rightarrow>
                  if decodedLen > MaxWriteFileBytes limits then Inl ContentsTooBig
                  else Inr (zero_job\<lparr>j_Type := JobWriteFile, j_Path := t_Path task,
                         j_Mode := (if t_Mode task = 0 then 420 else t_Mode task),
                         j_ContentsBase64 := t_ContentsBase64 task, j_CreateParents := t_CreateParents task\<rparr>)))
      else if t_Type task = JobExec then
        (if t_Argv task = [] then Inl ArgvMissing
         else
           let workdir = firstNonEmpty [t_WorkingDir task, defaultWorkdir] in
           (case validateWorkspacePath workdir of
              Some e \<Rightarrow> Inl e
            | None \<Rightarrow> Inr (zero_job\<lparr>j_Type := JobExec, j_Argv := t_Argv task, j_WorkingDir := workdir\<rparr>)))
      else Inl (UnsupportedTask (t_Type task)))"

fun jobsOf :: "Limits \<Rightarrow> string \<Rightarrow> Task list \<Rightarrow> request_error + Job list" where
  "jobsOf limits w [] = Inr []"
| "jobsOf limits w (t # ts) =
     (case taskToJob limits w t of
        Inl e \<Rightarrow> Inl e
      | Inr j \<Rightarrow> (case jobsOf limits w ts of Inl e \<Rightarrow> Inl e | Inr js \<Rightarrow> Inr (j # js)))"

definition tasksToJobs :: "Limits \<Rightarrow> Task list \<Rightarrow> string \<Rightarrow> request_error + Job list" where
  "tasksToJobs limits tasks defaultWorkdir =
     (case jobsOf limits defaultWorkdir tasks of
        Inl e \<Rightarrow> Inl e
      | Inr js \<Rightarrow> Inr (zero_job\<lparr>j_Type := JobMkdir, j_Path := ''/workspace'', j_Mode := 493\<rparr> # js))"

definition managerRunRequest :: "string \<Rightarrow> ServerConfig \<Rightarrow> ApiRunRequest \<Rightarrow> request_error + RunRequest" where
  "managerRunRequest arch cfg req =
     (let l = cf_Limits cfg in
      if ar_ImageRef req = '''' then Inl ImageRefMissing
      else if ar_Tasks req = [] then Inl NoTasks
      else if int (length (ar_Tasks req)) > MaxTasks l then Inl TooManyTasks
      else
        let timeoutMillis = (if ar_TimeoutMillis req \<le> 0 then MaxTimeoutMillis l else ar_TimeoutMillis req) in
        if timeoutMillis > MaxTimeoutMillis l then Inl TimeoutExceedsLimit
        else
          let m = ar_Machine req;
              machine = m\<lparr>VCPUCount := orPositive (VCPUCount m) (VCPUCount (cf_Machine cfg)),
                          MemSizeMiB := orPositive (MemSizeMiB m) (MemSizeMiB (cf_Machine cfg))\<rparr> in
          if VCPUCount machine > MaxVCPUCount l \<or> MemSizeMiB machine > MaxMemSizeMiB l then Inl MachineTooBig
          else
            (case tasksToJobs l (ar_Tasks req) (firstNonEmpty [ar_Workdir req, ''/workspace'']) of
               Inl e \<Rightarrow> Inl e
             | Inr js \<Rightarrow>
                 let mode = firstNonEmpty [ar_SnapshotMode req, ''disabled''] in
                 if mode \<noteq> ''disabled'' \<and> mode \<noteq> ''auto'' then Inl (UnsupportedSnapshotMode (ar_SnapshotMode req))
                 else Inr
                   \<lparr>rq_ImageRef = ar_ImageRef req, rq_Platform = hostPlatform arch, rq_Command = [],
                    rq_KernelPath = cf_KernelPath cfg, rq_BootImagePath = cf_BootImagePath cfg,
                    rq_FirecrackerPath = cf_FirecrackerPath cfg, rq_Jailer = FirecrackerJailer cfg,
                    rq_MachineConfig = machine, rq_Workspace = ''/workspace'',
                    rq_Workdir = firstNonEmpty [ar_Workdir req, ''/workspace''], rq_UID = ar_UID req, rq_GID = ar_GID req,
                    rq_Defaults = \<lparr>d_UID = Some (ar_UID req), d_GID = Some (ar_GID req), d_Env = [],
                                   d_TimeoutMillis = timeoutMillis, d_MaxOutputBytes = MaxOutputBytes l\<rparr>,
                    rq_Jobs = js, rq_Timeout = i64 (timeoutMillis * millisecond),
                    rq_SnapshotDir = (if mode = ''auto'' then cf_SnapshotDir cfg else ''''), rq_Snapshot = None,
                    rq_CleanupJailer = cf_CleanupJailer cfg\<rparr>))"

section \<open>Durations in milliseconds\<close>

text \<open>\<open>Duration.Milliseconds\<close>: Go's division rounds towards zero.\<close>

definition Milliseconds :: "int \<Rightarrow> int" where
  "Milliseconds d = (if d < 0 then - ((- d) div millisecond) else d div millisecond)"

definition runTimingsDTO :: "ManagerRunTimings \<Rightarrow> RunTimingsDTO" where
  "runTimingsDTO t =
     \<lparr>td_PreflightDurationMillis = Milliseconds (mt_PreflightDuration t),
      td_PrepareDurationMillis = Milliseconds (mt_PrepareDuration t),
      td_ReadConfigDurationMillis = Milliseconds (mt_ReadConfigDuration t),
      td_SnapshotDurationMillis = Milliseconds (mt_SnapshotDuration t),
      td_TotalDurationMillis = Milliseconds (mt_TotalDuration t)\<rparr>"

definition vmTimingsDTO :: "RunTimings \<Rightarrow> VMTimingsDTO" where
  "vmTimingsDTO t =
     \<lparr>vd_SetupDurationMillis = Milliseconds (rt_SetupDuration t),
      vd_MachineStartDurationMillis = Milliseconds (rt_MachineStartDuration t),
      vd_AgentReadyDurationMillis = Milliseconds (rt_AgentReadyDuration t),
      vd_JobsDurationMillis = Milliseconds (rt_JobsDuration t),
      vd_ShutdownWaitDurationMillis = Milliseconds (rt_ShutdownWaitDuration t),
      vd_TotalDurationMillis = Milliseconds (rt_TotalDuration t)\<rparr>"

section \<open>Handlers\<close>

definition health :: bool where
  "health = True"

definition prepareImage :: "'ref manager_env \<Rightarrow> string \<Rightarrow> ApiServer \<Rightarrow> string \<Rightarrow> (api_error, ManagerImage) hio" where
  "prepareImage env arch srv ref =
     (if ref = '''' then vthrow (BadRequest ImageRefMissing)
      else vlift InternalError (managerPrepareImage env (as_Manager srv) ref (hostPlatform arch)))"

definition listImages :: "(string \<Rightarrow> Metadata option) \<Rightarrow> ApiServer \<Rightarrow> bool \<Rightarrow> (api_error, ManagerImage list) hio" where
  "listImages decode srv cancelled = hos InternalError (ListImages decode (as_Manager srv) cancelled)"

definition deleteImage :: "ApiServer \<Rightarrow> bool \<Rightarrow> string \<Rightarrow> (api_error, bool) hio" where
  "deleteImage srv cancelled chainID =
     vbind (hos (\<lambda>e. BadRequest (Refused e)) (DeleteImage (as_Manager srv) cancelled chainID)) (\<lambda>_. vret True)"

definition createSnapshot :: "'ref manager_env \<Rightarrow> string \<Rightarrow> ApiServer \<Rightarrow> string \<Rightarrow> (api_error, SnapshotArtifact) hio" where
  "createSnapshot env arch srv ref =
     (let cfg = as_Config srv in
      if ref = '''' then vthrow (BadRequest ImageRefMissing)
      else vlift InternalError (managerCreateSnapshot env (as_Manager srv)
        \<lparr>cs_ImageRef = ref, cs_Platform = hostPlatform arch, cs_KernelPath = cf_KernelPath cfg,
         cs_BootImagePath = cf_BootImagePath cfg, cs_FirecrackerPath = cf_FirecrackerPath cfg, cs_Jailer = FirecrackerJailer cfg,
         cs_MachineConfig = cf_Machine cfg, cs_Timeout = i64 (MaxTimeoutMillis (cf_Limits cfg) * millisecond),
         cs_SnapshotDir = cf_SnapshotDir cfg,
         cs_Snapshot = \<lparr>sa_MemPath = '''', sa_SnapshotPath = '''', sa_WorkspaceDir = ''''\<rparr>\<rparr>))"

definition listSnapshots :: "ApiServer \<Rightarrow> bool \<Rightarrow> (api_error, SnapshotInfo list) hio" where
  "listSnapshots srv cancelled = hos InternalError (ListSnapshots cancelled (cf_SnapshotDir (as_Config srv)))"

definition deleteSnapshot :: "ApiServer \<Rightarrow> bool \<Rightarrow> string \<Rightarrow> (api_error, bool) hio" where
  "deleteSnapshot srv cancelled chainID =
     vbind (hos (\<lambda>e. BadRequest (Refused e)) (DeleteSnapshot cancelled (cf_SnapshotDir (as_Config srv)) chainID)) (\<lambda>_. vret True)"

definition run :: "'ref manager_env \<Rightarrow> 'ref manager_env \<Rightarrow> string \<Rightarrow> ApiServer \<Rightarrow> ApiRunRequest \<Rightarrow> (api_error, RunOutput) hio" where
  "run env snapEnv arch srv input =
     (case managerRunRequest arch (as_Config srv) input of
        Inl e \<Rightarrow> vthrow (BadRequest e)
      | Inr req \<Rightarrow>
          vbind (vlift InternalError (Run env snapEnv (as_Manager srv) req)) (\<lambda>result.
          vret \<lparr>ro_Image = mr_Image result, ro_Results = rr_Results (mr_VM result), ro_Timings = runTimingsDTO (mr_Timings result),
                ro_VM = rr_VM (mr_VM result), ro_VMTimings = vmTimingsDTO (rr_Timings (mr_VM result))\<rparr>))"

end
