(* ===== verification/ManagerSafety.thy ===== *)
theory ManagerSafety
  imports Manager
begin

text \<open>
  What the manager guarantees: deleting an image touches its two files only, every prepared image can be
  deleted, and a run leaves no VM behind and starts VMs on the prepared image only.
\<close>

section \<open>Chain IDs\<close>

lemma validateChainID_iff: "validateChainID c = None \<longleftrightarrow> blobname (TrimPrefix c ''sha256:'')"
  by (auto simp: validateChainID_def blobname_def Let_def list_ex_iff list_all_iff)

lemma validateChainID_cases: "validateChainID c = Some e \<Longrightarrow> e = InvalidChainID c"
  by (auto simp: validateChainID_def Let_def split: if_splits)

lemma blobname_no_colon: "blobname n \<Longrightarrow> CHR '':'' \<notin> set n"
proof
  assume "blobname n" "CHR '':'' \<in> set n"
  then have "is_hex (CHR '':'')" by (simp add: blobname_def list_all_iff)
  then show False by (simp add: is_hex_def)
qed

text \<open>With or without its prefix, a valid chain ID names one encoded digest.\<close>

lemma splitDigest_valid:
  assumes "validateChainID c = None"
  shows "splitDigest c = (''sha256'', TrimPrefix c ''sha256:'')"
proof (cases "prefix ''sha256:'' c")
  case True
  then obtain e where "c = ''sha256:'' @ e" by (auto simp: prefix_def)
  then show ?thesis using splitDigest_sha256 [of e] by (simp only: TrimPrefix_append)
next
  case False
  then have t: "TrimPrefix c ''sha256:'' = c" by (rule TrimPrefix_other)
  then have "CHR '':'' \<notin> set c" using assms blobname_no_colon by (simp add: validateChainID_iff)
  then show ?thesis using t by (simp add: splitDigest_def)
qed

section \<open>Removing files of the store\<close>

definition exact_removal :: "string list set \<Rightarrow> os \<Rightarrow> os \<Rightarrow> bool" where
  "exact_removal ps s s' = (inodes s' = inodes s \<and> (\<forall>q. q \<notin> ps \<longrightarrow> ent s' q = ent s q) \<and>
     (\<forall>q \<in> ps. ent s' q = ent s q \<or> ent s' q = None))"

lemma exact_removal_refl: "exact_removal ps s s"
  by (simp add: exact_removal_def)

lemma exact_removal_trans: "exact_removal ps s s' \<Longrightarrow> exact_removal qs s' s'' \<Longrightarrow> exact_removal (ps \<union> qs) s s''"
  unfolding exact_removal_def by (metis Un_iff)

lemma resolve_existing:
  assumes "store_ok dir s" "cleaned p" "rooted p" "prefix (comps dir) (comps p)" "ent s (comps p) \<noteq> None"
  shows "resolve s False p = Inr (comps p)"
proof (rule resolve_real [OF assms(2,3)])
  have "is_dir (ent s q)" if "prefix q (butlast (comps p))" "comps p \<noteq> []" for q
  proof (rule tree_prefix [OF store_okD(1) [OF assms(1)] assms(5)])
    show "strict_prefix q (comps p)" using that by (cases "comps p" rule: rev_cases) (auto simp: strict_prefix_def)
  qed
  moreover have "is_dir (ent s [])" using store_okD(1) [OF assms(1)] by (simp add: tree_def)
  ultimately show "real_dir (ent s) (butlast (comps p))" unfolding real_dir_iff by (metis butlast.simps(1) prefix_Nil)
qed simp

lemma lone_entry:
  assumes t: "tree s" and c: "\<not> (is_dir (ent s q) \<and> has_children q s)" and p: "strict_prefix q p"
  shows "ent s p = None"
proof (rule ccontr)
  assume e: "ent s p \<noteq> None"
  then have "is_dir (ent s q)" using tree_prefix [OF t _ p] by blast
  moreover have "has_children q s"
    using e p unfolding has_children_def ent_def by (auto simp: list_ex_iff dest!: map_of_SomeD)
  ultimately show False using c by blast
qed

lemma Remove_cases:
  assumes "Remove p s = (r, s')"
  shows "(\<exists>e n. r = Inl e \<and> s' = s\<lparr>tick := n\<rparr> \<and> (e = ENOENT \<longrightarrow> (\<forall>q. resolve s False p = Inr q \<longrightarrow> ent s q = None))) \<or>
    (\<exists>q n. r = Inr () \<and> s' = del_tree q (s\<lparr>tick := n\<rparr>) \<and> resolve s False p = Inr q \<and> \<not> (is_dir (ent s q) \<and> has_children q s))"
proof -
  have fe: "fault_errno e \<noteq> ENOENT" for e by (simp add: fault_errno_def)
  have tk: "has_children q (s\<lparr>tick := n\<rparr>) = has_children q s" for q n by (simp add: has_children_def)
  show ?thesis
  proof (cases "fault s (tick s)")
    case (Some e)
    then show ?thesis using assms fe [of e] by (auto simp: Remove_def sysop_def Let_def)
  next
    case None
    show ?thesis
    proof (cases "resolve s False p")
      case (Inl e)
      then show ?thesis using assms None by (auto simp: Remove_def sysop_def Let_def)
    next
      case (Inr q)
      then show ?thesis using assms None
        by (cases "ent s q") (auto simp: Remove_def sysop_def Let_def tk split: if_splits)
    qed
  qed
qed

lemma Remove_exact:
  assumes ok: "store_ok dir s" and p: "cleaned p" "rooted p" "prefix (comps dir) (comps p)" and r: "Remove p s = (r, s')"
  shows "store_ok dir s' \<and> exact_removal {comps p} s s' \<and> (r = Inr () \<or> r = Inl ENOENT \<longrightarrow> ent s' (comps p) = None)"
proof -
  have k: "store_ok dir s'" by (rule valid_both [OF valid_store_Remove ok r])
  have t: "tree s" using ok by (rule store_okD)
  have deleted: "exact_removal {comps p} s (del_tree q (s\<lparr>tick := n\<rparr>)) \<and> ent (del_tree q (s\<lparr>tick := n\<rparr>)) (comps p) = None"
    if "resolve s False p = Inr q" "\<not> (is_dir (ent s q) \<and> has_children q s)" for q n
  proof -
    have q: "q = comps p" using that(1) by (rule resolve_store [OF ok p])
    have "ent s x = None" if "prefix (comps p) x" "x \<noteq> comps p" for x
      using lone_entry [OF t] that \<open>\<not> (is_dir (ent s q) \<and> has_children q s)\<close> q by (simp add: strict_prefix_def)
    then show ?thesis using q by (auto simp: exact_removal_def)
  qed
  have missing: "ent s (comps p) = None" if "resolve s False p = Inl e" for e
    using resolve_existing [OF ok p] that by fastforce
  from Remove_cases [OF r] consider
      (err) e n where "r = Inl e" "s' = s\<lparr>tick := n\<rparr>" "e = ENOENT \<longrightarrow> (\<forall>q. resolve s False p = Inr q \<longrightarrow> ent s q = None)"
    | (gone) q n where "r = Inr ()" "s' = del_tree q (s\<lparr>tick := n\<rparr>)" "resolve s False p = Inr q"
        "\<not> (is_dir (ent s q) \<and> has_children q s)"
    by blast
  then have "exact_removal {comps p} s s' \<and> (r = Inr () \<or> r = Inl ENOENT \<longrightarrow> ent s' (comps p) = None)"
  proof cases
    case err
    have "ent s (comps p) = None" if "e = ENOENT"
      using missing resolve_store [OF ok p, of False] err(3) that by (cases "resolve s False p") auto
    then show ?thesis using err by (auto simp: exact_removal_def)
  next
    case gone
    then show ?thesis using deleted by simp
  qed
  then show ?thesis using k by blast
qed


lemma image_paths:
  assumes "cleaned dir" "rooted dir" "validateChainID c = None"
  defines "enc \<equiv> TrimPrefix c ''sha256:''"
  shows "store_file dir (RootfsPath dir c)" "comps (RootfsPath dir c) = comps dir @ [''rootfs'', ''complete'', enc @ ''.ext4'']"
    "store_file dir (RootfsMetadataPath dir c)" "comps (RootfsMetadataPath dir c) = comps dir @ [''rootfs'', ''complete'', enc @ ''.json'']"
proof -
  have "plain enc" using assms(3) unfolding enc_def validateChainID_iff by (rule blobname_plain)
  then have "plain (enc @ ''.ext4'')" "plain (enc @ ''.json'')" by (auto intro!: plain_ext simp: plain_def)
  then have l: "list_all plain [''rootfs'', ''complete'', enc @ ''.ext4'']" "list_all plain [''rootfs'', ''complete'', enc @ ''.json'']"
    by (simp_all add: plain_def)
  show "store_file dir (RootfsPath dir c)" "comps (RootfsPath dir c) = comps dir @ [''rootfs'', ''complete'', enc @ ''.ext4'']"
    "store_file dir (RootfsMetadataPath dir c)" "comps (RootfsMetadataPath dir c) = comps dir @ [''rootfs'', ''complete'', enc @ ''.json'']"
    using store_file_Join [OF assms(1,2) l(1)] store_file_Join [OF assms(1,2) l(2)] splitDigest_valid [OF assms(3)]
    by (simp_all add: RootfsPath_def RootfsMetadataPath_def enc_def)
qed

lemma store_file_below:
  "store_file dir p \<Longrightarrow> cleaned p \<and> rooted p \<and> prefix (comps dir) (comps p)"
  by (auto simp: store_file_def strict_prefix_def intro: prefix_order.trans prefixeq_butlast)

lemma removeEach_exact:
  assumes "store_ok dir s" "\<And>p. p \<in> set ps \<Longrightarrow> store_file dir p" "removeEach ps s = (r, s')"
  shows "store_ok dir s' \<and> exact_removal (comps ` set ps) s s' \<and> (r = Inr () \<longrightarrow> (\<forall>p \<in> set ps. ent s' (comps p) = None))"
  using assms
proof (induction ps arbitrary: s)
  case Nil
  then show ?case by (simp add: ret_def exact_removal_refl)
next
  case (Cons p ps)
  have p: "cleaned p" "rooted p" "prefix (comps dir) (comps p)" using Cons.prems(2) store_file_below by auto
  obtain r1 s1 where r1: "Remove p s = (r1, s1)" by fastforce
  note e1 = Remove_exact [OF Cons.prems(1) p r1]
  show ?case
  proof (cases "r1 = Inr () \<or> r1 = Inl ENOENT")
    case True
    then have rest: "removeEach ps s1 = (r, s')"
      using Cons.prems(3) r1 by (auto simp: andThen_def attempt_def)
    have ih: "store_ok dir s' \<and> exact_removal (comps ` set ps) s1 s' \<and> (r = Inr () \<longrightarrow> (\<forall>p \<in> set ps. ent s' (comps p) = None))"
      using Cons.IH [OF _ _ rest] e1 Cons.prems(2) by simp
    then have "ent s' (comps p) = None"
      using True e1 unfolding exact_removal_def by (metis (no_types, lifting))
    moreover have "exact_removal (comps ` set (p # ps)) s s'" using exact_removal_trans [of "{comps p}" s s1] e1 ih by simp
    ultimately show ?thesis using ih by simp
  next
    case False
    then obtain e where "r1 = Inl e" "e \<noteq> ENOENT" by (cases r1) auto
    then have "r = Inl (ManagerOs e)" "s' = s1" using Cons.prems(3) r1 by (auto simp: andThen_def attempt_def throw_def)
    moreover have "exact_removal (comps ` set (p # ps)) s s1"
      using exact_removal_trans [of "{comps p}" s s1 "comps ` set ps" s1] e1 exact_removal_refl by simp
    ultimately show ?thesis using e1 by simp
  qed
qed

section \<open>Properties of deletion\<close>

text \<open>
  C9.  Deleting an image is exact: it removes at most the root file system and the metadata of that chain
  ID from \<open>rootfs/complete\<close>, and nothing else in the file system changes, whatever call
  fails; an ID that is not a SHA-256 digest removes nothing.  After a successful deletion neither file exists, and the store is intact.
\<close>

theorem DeleteImage_exact:
  assumes "cleaned (StoreDir cfg)" "rooted (StoreDir cfg)" "store_ok (StoreDir cfg) s"
    and "DeleteImage cfg cancelled c s = (r, s')"
  defines "base \<equiv> comps (StoreDir cfg) @ [''rootfs'', ''complete'']" and "enc \<equiv> TrimPrefix c ''sha256:''"
  shows "store_ok (StoreDir cfg) s' \<and> exact_removal {base @ [enc @ ''.ext4''], base @ [enc @ ''.json'']} s s' \<and>
    (r = Inr () \<longrightarrow> blobname enc \<and> ent s' (base @ [enc @ ''.ext4'']) = None \<and> ent s' (base @ [enc @ ''.json'']) = None) \<and>
    (\<not> blobname enc \<longrightarrow> s' = s)"
proof (cases "cancelled \<or> \<not> blobname enc")
  case True
  then obtain e where "r = Inl e" "s' = s"
    using assms(4) validateChainID_iff [of c] by (auto simp: DeleteImage_def throw_def enc_def split: if_splits option.splits)
  then show ?thesis using assms(3) by (simp add: exact_removal_refl)
next
  case False
  then have v: "validateChainID c = None" by (simp add: validateChainID_iff enc_def)
  let ?ps = "[RootfsPath (StoreDir cfg) c, RootfsMetadataPath (StoreDir cfg) c]"
  have d: "removeEach ?ps s = (r, s')" using assms(4) False v by (simp add: DeleteImage_def)
  have f: "\<And>p. p \<in> set ?ps \<Longrightarrow> store_file (StoreDir cfg) p" using image_paths(1,3) [OF assms(1,2) v] by auto
  show ?thesis
    using removeEach_exact [OF assms(3) f d] False by (simp add: image_paths(2,4) [OF assms(1,2) v] base_def enc_def)
qed



text \<open>A store in which the image \<open>aa...a\<close> is complete.\<close>

definition mgr_chain :: string where
  "mgr_chain = replicate 64 (CHR ''a'')"

definition mgr_cfg :: HostConfig.Config where
  "mgr_cfg = Default\<lparr>StoreDir := ''/var/s''\<rparr>"

definition mgr_store :: os where
  "mgr_store = one_file [''var'', ''s'', ''rootfs'', ''complete''] (mgr_chain @ ''.ext4'') ''image''"

lemma mgr_blobname: "blobname mgr_chain"
  unfolding blobname_def mgr_chain_def is_hex_def by (simp add: list_all_length)

lemma mgr_TrimPrefix: "TrimPrefix mgr_chain ''sha256:'' = mgr_chain"
  by (rule TrimPrefix_other) (simp add: mgr_chain_def numeral_eq_Suc)

lemma mgr_StoreDir [simp]: "StoreDir mgr_cfg = ''/var/s''"
  by (simp add: mgr_cfg_def)

lemma mgr_store_ok: "store_ok ''/var/s'' mgr_store"
  unfolding mgr_store_def by (rule one_file_ok) (simp add: blobdir_def demo_comps)

theorem DeleteImage_exact_witness:
  "fst (DeleteImage mgr_cfg False mgr_chain mgr_store) = Inr () \<and>
   store_ok ''/var/s'' (snd (DeleteImage mgr_cfg False mgr_chain mgr_store)) \<and>
   ent mgr_store [''var'', ''s'', ''rootfs'', ''complete'', mgr_chain @ ''.ext4''] \<noteq> None \<and>
   ent (snd (DeleteImage mgr_cfg False mgr_chain mgr_store)) [''var'', ''s'', ''rootfs'', ''complete'', mgr_chain @ ''.ext4''] = None"
proof -
  have r: "fst (DeleteImage mgr_cfg False mgr_chain mgr_store) = Inr ()" by code_simp
  have e: "ent mgr_store [''var'', ''s'', ''rootfs'', ''complete'', mgr_chain @ ''.ext4''] \<noteq> None"
    by (simp add: mgr_store_def one_file_ent)
  have dir: "cleaned (StoreDir mgr_cfg)" "rooted (StoreDir mgr_cfg)" "store_ok (StoreDir mgr_cfg) mgr_store"
    using demo_dir mgr_store_ok by auto
  have "DeleteImage mgr_cfg False mgr_chain mgr_store = (Inr (), snd (DeleteImage mgr_cfg False mgr_chain mgr_store))"
    using r by (metis prod.collapse)
  from DeleteImage_exact [OF dir this] show ?thesis using r e by (simp add: demo_comps mgr_TrimPrefix)
qed

section \<open>Running\<close>

context log_kind
begin

lemma adds_hos: "adds A (hos f m)"
  by (rule adds_pure) (auto simp: hos_def split: prod.splits sum.splits)

lemma adds_blocking: "adds A (blocking f m)"
  by (rule adds_pure) (auto simp: blocking_def split: option.splits prod.splits sum.splits)

lemma adds_vlift: "adds A m \<Longrightarrow> adds A (vlift f m)"
  unfolding adds_def vlift_def by (auto split: option.splits prod.splits sum.splits)

lemmas adds_manager = adds_silent adds_hos adds_blocking adds_vlift

lemma adds_prepare: "adds A (managerPrepareImage env cfg ref p)" "adds A (managerPreflight env cfg a b c)"
  unfolding managerPrepareImage_def managerPreflight_def by (intro adds_manager)+

end

lemma managerCreateSnapshot_balanced: "adds (\<lambda>es. running es = 0) (managerCreateSnapshot env cfg req)"
  unfolding managerCreateSnapshot_def Let_def
  by (intro idle.adds_manager idle.adds_prepare CreateReadySnapshot_balanced)

lemma Run_balanced: "adds (\<lambda>es. running es = 0) (Run env env' cfg req)"
  unfolding Run_def runSnapshot_def Let_def
  by (intro idle.adds_manager idle.adds_prepare StartVM_balanced managerCreateSnapshot_balanced; (split prod.split bool.split)?)
    (auto intro: idle.adds_manager split: option.splits)


text \<open>A step whose result is known before the rest.\<close>

definition yields :: "('a \<Rightarrow> bool) \<Rightarrow> ('e, 'a) hio \<Rightarrow> bool" where
  "yields P m = (\<forall>h a h'. m h = Some (Inr a, h') \<longrightarrow> P a)"

lemma adds_mono: "adds A m \<Longrightarrow> (\<And>es. A es \<Longrightarrow> B es) \<Longrightarrow> adds B m"
  unfolding adds_def by blast

context log_kind
begin

lemma adds_vbind_yields:
  assumes "yields P m" "adds A m" "\<And>a. P a \<Longrightarrow> adds A (k a)"
  shows "adds A (vbind m k)"
proof -
  let ?k = "\<lambda>a. if P a then k a else (\<lambda>h. None)"
  have "vbind m k = vbind m ?k"
    using assms(1) by (auto simp: vbind_def yields_def fun_eq_iff split: option.splits sum.splits)
  moreover have "adds A (vbind m ?k)" using assms(2,3) by (intro adds_vbind adds_if adds_never)
  ultimately show ?thesis by simp
qed

end

definition run_event :: "string \<Rightarrow> MachineConfig \<Rightarrow> Job list \<Rightarrow> vm_event \<Rightarrow> bool" where
  "run_event dir mc js e = (case e of
       Created cfg \<Rightarrow> hardened cfg \<and> (\<exists>c. validateChainID c = None \<and> map PathOnHost (tl (sc_Drives cfg)) = [RootfsPath dir c]) \<and> sc_MachineCfg cfg = MachineConfiguration mc
     | JobsSent b \<Rightarrow> b_Shutdown b \<and> b_Version b = Version \<and> (js = [] \<or> b_Jobs b = js)
     | _ \<Rightarrow> True)"

lemma proper_run_event:
  assumes "validateChainID c = None" "js = [] \<or> ks = js"
  shows "list_all (proper (RootfsPath dir c) mc ks) es \<Longrightarrow> list_all (run_event dir mc js) es"
  unfolding list_all_iff using assms by (fastforce simp: proper_def run_event_def split: vm_event.splits)

text \<open>What the manager knows of a prepared image.\<close>

definition image_ok :: "string \<Rightarrow> ManagerImage \<Rightarrow> bool" where
  "image_ok dir p = (mi_RootfsPath p = RootfsPath dir (mi_ChainID p) \<and> validateChainID (mi_ChainID p) = None)"

lemma splitDigest_TrimPrefix:
  "HasPrefix c ''sha256:'' \<Longrightarrow> snd (splitDigest c) = TrimPrefix c ''sha256:''"
  unfolding HasPrefix_def prefix_def using splitDigest_sha256 TrimPrefix_append by (metis snd_conv)

lemma PrepareImage_ok:
  assumes "PrepareImage env cfg ref platform s = Some (Inr p, s')"
  shows "pp_RootfsPath p = RootfsPath (StoreDir cfg) (pp_ChainID p)" "validateChainID (pp_ChainID p) = None"
    "pp_ImageRef p = ref" "ref \<noteq> ''''"
proof -
  have "wf_prepared (StoreDir cfg) ref p \<and> ref \<noteq> ''''" using PrepareImage_prepared [OF assms] .
  then show "pp_RootfsPath p = RootfsPath (StoreDir cfg) (pp_ChainID p)" "validateChainID (pp_ChainID p) = None"
    "pp_ImageRef p = ref" "ref \<noteq> ''''"
    using splitDigest_TrimPrefix by (auto simp: wf_prepared_def validateChainID_iff)
qed

lemma runtime_New_StoreDir: "StoreDir (runtime_New (manager_New cfg)) = StoreDir (manager_New cfg)"
  by (simp add: manager_New_def runtime_New_idem)

lemma managerPrepareImage_yields: "yields (image_ok (StoreDir (manager_New cfg))) (managerPrepareImage env (manager_New cfg) ref p)"
  unfolding yields_def managerPrepareImage_def vbind_def blocking_def vret_def image_ok_def managerPreparedImage_def
  by (auto dest: PrepareImage_ok(1,2) simp: runtime_New_StoreDir split: option.splits sum.splits prod.splits)


lemma image_StartVM:
  assumes "image_ok dir p" "sv_TargetImagePath req = mi_RootfsPath p" "sv_MachineConfig req = mc" "js = [] \<or> sv_Jobs req = js"
  shows "adds (list_all (run_event dir mc js)) (StartVM vm req)"
proof (rule adds_mono [OF StartVM_proper])
  show "list_all (proper (sv_TargetImagePath req) (sv_MachineConfig req) (sv_Jobs req)) es \<Longrightarrow> list_all (run_event dir mc js) es" for es
    using assms proper_run_event [of "mi_ChainID p" js "sv_Jobs req" dir mc es] by (auto simp: image_ok_def)
qed

lemma image_CreateReadySnapshot:
  assumes "image_ok dir p" "sq_TargetImagePath req = mi_RootfsPath p" "sq_MachineConfig req = mc"
  shows "adds (list_all (run_event dir mc js)) (CreateReadySnapshot vm req)"
proof (rule adds_mono [OF CreateReadySnapshot_proper])
  show "list_all (proper (sq_TargetImagePath req) (sq_MachineConfig req) js) es \<Longrightarrow> list_all (run_event dir mc js) es" for es
    using assms proper_run_event [of "mi_ChainID p" js js dir mc es] by (auto simp: image_ok_def)
qed

lemma snapshot_events:
  "cs_MachineConfig req = mc \<Longrightarrow>
    adds (list_all (run_event (StoreDir (manager_New cfg)) mc js)) (managerCreateSnapshot env (manager_New cfg) req)"
  unfolding managerCreateSnapshot_def Let_def
  by (rule each.adds_vbind [OF each.adds_require], rule each.adds_vbind [OF each.adds_prepare(2)],
      rule each.adds_vbind_yields [OF managerPrepareImage_yields each.adds_prepare(1)],
      rule each.adds_vlift, erule image_CreateReadySnapshot) simp_all

lemma Run_events:
  "adds (list_all (run_event (StoreDir (manager_New cfg)) (rq_MachineConfig req) (rq_Jobs req))) (Run env env' (manager_New cfg) req)"
  unfolding Run_def Let_def
proof (rule each.adds_vbind [OF each.adds_require], rule each.adds_vbind [OF each.adds_prepare(2)],
    rule each.adds_vbind_yields [OF managerPrepareImage_yields each.adds_prepare(1)], rule each.adds_vbind [OF each.adds_hos],
    rule each.adds_vbind_yields [where P = "\<lambda>js. rq_Jobs req = [] \<or> js = rq_Jobs req"], goal_cases)
  case (1 u fc p cfg)
  then show ?case by (auto simp: yields_def runJobsOf_def vthrow_def vret_def Let_def split: option.splits if_splits)
next
  case (2 u fc p cfg)
  then show ?case by (intro each.adds_silent)
next
  case (3 u fc p imageConfig js)
  show ?case
  proof (rule each.adds_vbind, goal_cases)
    case 1
    show ?case unfolding runSnapshot_def Let_def by (intro each.adds_manager snapshot_events) simp
  next
    case (2 snap)
    show ?case
      by (cases snap, simp only: prod.case, rule each.adds_vbind [OF each.adds_vlift [OF image_StartVM [OF 3(1)]]])
        (use 3(2) in \<open>auto intro!: each.adds_silent split: prod.split bool.split option.split\<close>)
  qed
qed

lemma snapshot_jailed: "cs_Jailer req = jo \<Longrightarrow> adds (list_all (jailed jo)) (managerCreateSnapshot env cfg req)"
  unfolding managerCreateSnapshot_def Let_def
  by (intro each.adds_manager each.adds_prepare; rule adds_mono [OF CreateReadySnapshot_jailed]) simp

lemma Run_jailed: "adds (list_all (jailed (rq_Jailer req))) (Run env env' cfg req)"
  unfolding Run_def runSnapshot_def Let_def
  by (intro each.adds_manager each.adds_prepare snapshot_jailed adds_mono [OF StartVM_jailed]; (split prod.split bool.split)?)
    (auto intro: each.adds_manager split: option.splits)

section \<open>Which snapshots are used\<close>

text \<open>The artifacts of one snapshot directory: the two files that it holds for a valid chain ID.\<close>

definition artifact_of :: "string \<Rightarrow> SnapshotArtifact \<Rightarrow> bool" where
  "artifact_of d a = (d \<noteq> '''' \<and> (\<exists>id. validateChainID id = None \<and> a = mkArtifact d id))"

lemma artifact_ofI: "d \<noteq> '''' \<Longrightarrow> image_ok dir p \<Longrightarrow> artifact_of d (mkArtifact d (mi_ChainID p))"
  by (auto simp: artifact_of_def image_ok_def)

lemma snapshot_restores:
  assumes "sa_MemPath (cs_Snapshot req) \<noteq> '''' \<Longrightarrow> G (cs_Snapshot req)" "\<And>a. artifact_of (cs_SnapshotDir req) a \<Longrightarrow> G a"
  shows "adds (list_all (restores G (cs_Jailer req))) (managerCreateSnapshot env (manager_New cfg) req)"
  unfolding managerCreateSnapshot_def Let_def
  by (rule each.adds_vbind [OF each.adds_require], rule each.adds_vbind [OF each.adds_prepare(2)],
      rule each.adds_vbind_yields [OF managerPrepareImage_yields each.adds_prepare(1)],
      rule each.adds_vlift, rule adds_mono [OF CreateReadySnapshot_restores [where G = G]])
    (use assms artifact_ofI in auto)

lemma snapshot_yields:
  assumes "G (cs_Snapshot req)" "sa_MemPath (cs_Snapshot req) \<noteq> '''' \<or> cs_SnapshotDir req = ''''"
  shows "yields G (managerCreateSnapshot env cfg req)"
  unfolding yields_def managerCreateSnapshot_def Let_def vlift_def
  using assms by (auto elim!: vbind_result dest!: CreateReadySnapshot_result split: option.splits sum.splits prod.splits if_splits)

lemma runSnapshot_restores:
  assumes "image_ok dir p" "\<And>a. rq_Snapshot req = Some a \<Longrightarrow> G a" "\<And>a. artifact_of (rq_SnapshotDir req) a \<Longrightarrow> G a"
  shows "adds (list_all (restores G (rq_Jailer req))) (runSnapshot env (manager_New cfg) req fc p) \<and>
    yields (\<lambda>(snap, t). \<forall>a. snap = Some a \<longrightarrow> G a) (runSnapshot env (manager_New cfg) req fc p)"
proof (cases "rq_Snapshot req = None \<and> rq_SnapshotDir req \<noteq> ''''")
  case False
  then show ?thesis using assms(2) by (auto simp: runSnapshot_def yields_def vret_def intro: each.adds_vret)
next
  case True
  let ?a = "mkArtifact (rq_SnapshotDir req) (mi_ChainID p)"
  let ?c = "\<lparr>cs_ImageRef = rq_ImageRef req, cs_Platform = rq_Platform req, cs_KernelPath = rq_KernelPath req,
     cs_BootImagePath = rq_BootImagePath req, cs_FirecrackerPath = fc, cs_Jailer = rq_Jailer req,
     cs_MachineConfig = rq_MachineConfig req, cs_Timeout = rq_Timeout req, cs_SnapshotDir = '''', cs_Snapshot = ?a\<rparr>"
  have g: "G ?a" using True assms(1,3) artifact_ofI by blast
  have y: "yields G (managerCreateSnapshot env (manager_New cfg) ?c)" using g by (intro snapshot_yields) simp_all
  have "adds (list_all (restores G (cs_Jailer ?c))) (managerCreateSnapshot env (manager_New cfg) ?c)"
    using g by (intro snapshot_restores) (simp_all add: artifact_of_def)
  then have a: "adds (list_all (restores G (rq_Jailer req))) (managerCreateSnapshot env (manager_New cfg) ?c)" by simp
  show ?thesis
  proof
    show "adds (list_all (restores G (rq_Jailer req))) (runSnapshot env (manager_New cfg) req fc p)"
      unfolding runSnapshot_def Let_def using a
      by (simp add: True) (intro each.adds_vbind [OF each.adds_hos] each.adds_if each.adds_vret each.adds_vbind)
    show "yields (\<lambda>(snap, t). \<forall>a. snap = Some a \<longrightarrow> G a) (runSnapshot env (manager_New cfg) req fc p)"
      unfolding runSnapshot_def Let_def yields_def using g y
      by (simp add: True) (auto elim!: vbind_result simp: vret_def yields_def vbind_def split: if_splits option.splits sum.splits prod.splits)
  qed
qed

lemma Run_restores:
  assumes "\<And>a. rq_Snapshot req = Some a \<Longrightarrow> G a" "\<And>a. artifact_of (rq_SnapshotDir req) a \<Longrightarrow> G a"
  shows "adds (list_all (restores G (rq_Jailer req))) (Run env env' (manager_New cfg) req)"
  unfolding Run_def Let_def
proof (rule each.adds_vbind [OF each.adds_require], rule each.adds_vbind [OF each.adds_prepare(2)],
    rule each.adds_vbind_yields [OF managerPrepareImage_yields each.adds_prepare(1)], rule each.adds_vbind [OF each.adds_hos],
    rule each.adds_vbind, goal_cases)
  case (1 u fc p imageConfig)
  then show ?case by (auto intro: each.adds_silent split: option.split)
next
  case (2 u fc p imageConfig js)
  let ?req = "req\<lparr>rq_Timeout := if rq_Timeout req \<le> 0 then 60 * second else rq_Timeout req\<rparr>"
  have s: "adds (list_all (restores G (rq_Jailer ?req))) (runSnapshot env' (manager_New cfg) ?req fc p) \<and>
      yields (\<lambda>(snap, t). \<forall>a. snap = Some a \<longrightarrow> G a) (runSnapshot env' (manager_New cfg) ?req fc p)"
    using 2 assms by (intro runSnapshot_restores) auto
  then have "adds (list_all (restores G (rq_Jailer req))) (runSnapshot env' (manager_New cfg) ?req fc p)" by simp
  with s show ?case
    by (intro each.adds_vbind_yields [OF conjunct2 [OF s]])
      (auto intro!: each.adds_vbind each.adds_vlift each.adds_silent adds_mono [OF StartVM_restores [where G = G]]
        split: prod.split bool.split option.split)
qed

section \<open>Properties of runs\<close>

text \<open>
  However a run ends (result, error or timeout, cold or from a snapshot, with a snapshot made on the
  way), every VM it started is stopped (a failed start counts as none).  Every machine it creates is hardened and has as target drive the
  store's root file system of a valid chain ID, and the requested size; the agent receives exactly the requested jobs, when
  the request has any, with the order to shut down.  Every VMM process, the one that restores a snapshot too, runs under the
  jailer of the request when it has one.
\<close>

theorem Run_safe:
  "case Run env env' (manager_New cfg) req h of
     None \<Rightarrow> True
   | Some (r, h') \<Rightarrow> \<exists>es. h_log h' = h_log h @ es \<and> running es = 0 \<and>
       list_all (run_event (StoreDir (manager_New cfg)) (rq_MachineConfig req) (rq_Jobs req)) es \<and>
       list_all (jailed (rq_Jailer req)) es"
proof (cases "Run env env' (manager_New cfg) req h")
  case (Some x)
  then obtain r h' where x: "Run env env' (manager_New cfg) req h = Some (r, h')" by fastforce
  from adds_result [OF Run_balanced [of env env' "manager_New cfg" req], of h]
    adds_result [OF Run_events [of cfg req env env'], of h]
    adds_result [OF Run_jailed [of req env env' "manager_New cfg"], of h]
  show ?thesis using x by auto
qed simp

end
