(* ===== verification/ApiSafety.thy ===== *)
theory ApiSafety
  imports ApiServer ManagerSafety AgentSafety
begin

text \<open>
  What the daemon's API guarantees: a configuration that starts the server is complete, an accepted run
  request stays within the configured limits and host paths, the server's path check is the guest
  agent's, and a run over HTTP inherits the manager's guarantees.
\<close>

section \<open>Paths under /workspace\<close>

lemma takeWhile_slash: "slash \<notin> set c \<Longrightarrow> c @ slash # u = d @ slash # v \<Longrightarrow> slash \<notin> set d \<Longrightarrow> c = d"
proof -
  assume a: "slash \<notin> set c" "c @ slash # u = d @ slash # v" "slash \<notin> set d"
  have "takeWhile (\<lambda>x. x \<noteq> slash) (c @ slash # u) = c" "takeWhile (\<lambda>x. x \<noteq> slash) (d @ slash # v) = d"
    using a(1,3) by (subst takeWhile_append2; auto)+
  then show ?thesis using a(2) by metis
qed

lemma slash_not_workspace: "slash \<notin> set ''workspace''"
  by simp

lemma first_component:
  assumes "list_all plain (c # cs)"
  shows "(slash # join_with ''/'' (c # cs) = ''/workspace'' \<or> prefix ''/workspace/'' (slash # join_with ''/'' (c # cs))) \<longleftrightarrow> c = ''workspace''"
proof (cases "cs = []")
  case True
  have "\<not> prefix ''workspace/'' c" using assms by (auto simp: plain_def prefix_def)
  then show ?thesis using True by simp
next
  case False
  have sc: "slash \<notin> set c" using assms by (simp add: plain_def)
  have j: "join_with ''/'' (c # cs) = c @ slash # join_with ''/'' cs" using False by (simp add: join_with_Cons)
  have "c @ slash # join_with ''/'' cs \<noteq> ''workspace''"
    using slash_not_workspace by (metis in_set_conv_decomp)
  moreover have "prefix ''workspace/'' (c @ slash # join_with ''/'' cs) \<longleftrightarrow> c = ''workspace''"
  proof
    assume "prefix ''workspace/'' (c @ slash # join_with ''/'' cs)"
    then obtain v where "c @ slash # join_with ''/'' cs = ''workspace'' @ slash # v" by (auto simp: prefix_def)
    then show "c = ''workspace''" using takeWhile_slash [OF sc _ slash_not_workspace] by blast
  qed simp
  ultimately show ?thesis using j by simp
qed

lemma comps_workspace: "comps ''/workspace'' = [''workspace'']"
  by code_simp

lemma validateWorkspacePath_iff:
  "validateWorkspacePath p = None \<longleftrightarrow> rooted p \<and> prefix (comps ''/workspace'') (comps p)"
proof (cases "rooted p")
  case False
  then have "\<not> rooted (Clean p)" by simp
  then have "\<not> prefix ''/workspace'' (Clean p)" by (auto simp: prefix_def rooted_def)
  then show ?thesis using False by (simp add: validateWorkspacePath_def HasPrefix_def Let_def)
next
  case True
  have cl: "Clean p = slash # join_with ''/'' (comps p)" using True by (simp add: Clean_def render_def)
  have pl: "list_all plain (comps p)" using True by (rule comps_rooted_plain)
  have v: "validateWorkspacePath p = None \<longleftrightarrow> Clean p = ''/workspace'' \<or> prefix ''/workspace/'' (Clean p)"
    by (auto simp: validateWorkspacePath_def HasPrefix_def Let_def prefix_def split: if_splits)
  show ?thesis
  proof (cases "comps p")
    case Nil
    then show ?thesis using v cl comps_workspace by simp
  next
    case (Cons c cs)
    then show ?thesis using v cl first_component [OF pl [unfolded Cons]] True comps_workspace by (auto simp: prefix_def)
  qed
qed

section \<open>Accepted requests\<close>

text \<open>A job that the server lets through: inside the workspace, within the size limit, no overrides.\<close>

definition job_allowed :: "Limits \<Rightarrow> Job \<Rightarrow> bool" where
  "job_allowed l j =
     ((j_Type j = JobMkdir \<and> validateWorkspacePath (j_Path j) = None \<or>
       j_Type j = JobWriteFile \<and> validateWorkspacePath (j_Path j) = None \<and>
         (\<exists>d. DecodeString (j_ContentsBase64 j) = Some d \<and> int (length d) \<le> MaxWriteFileBytes l) \<or>
       j_Type j = JobExec \<and> j_Argv j \<noteq> [] \<and> validateWorkspacePath (j_WorkingDir j) = None) \<and>
      j_Env j = [] \<and> j_UID j = None \<and> j_GID j = None \<and> j_TimeoutMillis j = 0 \<and> j_MaxOutputBytes j = 0)"

lemma job_types: "JobMkdir \<noteq> JobWriteFile" "JobMkdir \<noteq> JobExec" "JobWriteFile \<noteq> JobExec"
  by (simp_all add: JobMkdir_def JobWriteFile_def JobExec_def)

lemma taskToJob_allowed: "taskToJob l w t = Inr j \<Longrightarrow> job_allowed l j"
  by (auto simp: taskToJob_def job_allowed_def zero_job_def decodedBase64Len_def Let_def job_types
      split: if_splits option.splits)

lemma jobsOf_allowed: "jobsOf l w ts = Inr js \<Longrightarrow> list_all (job_allowed l) js \<and> length js = length ts"
  by (induction ts arbitrary: js) (auto split: sum.splits dest: taskToJob_allowed)

lemma workspace_valid: "validateWorkspacePath ''/workspace'' = None"
  by code_simp

lemma tasksToJobs_allowed:
  "tasksToJobs l ts w = Inr js \<Longrightarrow> list_all (job_allowed l) js \<and> length js = Suc (length ts)"
  by (auto simp: tasksToJobs_def job_allowed_def zero_job_def workspace_valid dest!: jobsOf_allowed split: sum.splits)

text \<open>A manager request that the server may make.\<close>

definition within_limits :: "ServerConfig \<Rightarrow> RunRequest \<Rightarrow> bool" where
  "within_limits cfg r =
     (let l = cf_Limits cfg in
      1 < length (rq_Jobs r) \<and> int (length (rq_Jobs r)) \<le> MaxTasks l + 1 \<and> list_all (job_allowed l) (rq_Jobs r) \<and>
      0 < d_TimeoutMillis (rq_Defaults r) \<and> d_TimeoutMillis (rq_Defaults r) \<le> MaxTimeoutMillis l \<and>
      rq_Timeout r = i64 (d_TimeoutMillis (rq_Defaults r) * millisecond) \<and>
      (MaxTimeoutMillis l * millisecond < 2 ^ 63 \<longrightarrow> 0 < rq_Timeout r \<and> rq_Timeout r \<le> MaxTimeoutMillis l * millisecond) \<and>
      d_MaxOutputBytes (rq_Defaults r) = MaxOutputBytes l \<and>
      0 < VCPUCount (rq_MachineConfig r) \<and> VCPUCount (rq_MachineConfig r) \<le> MaxVCPUCount l \<and>
      0 < MemSizeMiB (rq_MachineConfig r) \<and> MemSizeMiB (rq_MachineConfig r) \<le> MaxMemSizeMiB l \<and>
      rq_KernelPath r = cf_KernelPath cfg \<and> rq_BootImagePath r = cf_BootImagePath cfg \<and>
      rq_FirecrackerPath r = cf_FirecrackerPath cfg \<and> rq_Jailer r = FirecrackerJailer cfg \<and>
      rq_CleanupJailer r = cf_CleanupJailer cfg \<and>
      rq_Workspace r = ''/workspace'' \<and> rq_SnapshotDir r \<in> {'''', cf_SnapshotDir cfg} \<and> rq_Snapshot r = None)"

lemma server_New_cases:
  "server_New arch cfg = Inr srv \<Longrightarrow> as_Config srv = applyDefaults cfg \<and> Validate (applyDefaults cfg) = None \<and>
    as_Manager srv = manager_New (RuntimeConfigOf arch (applyDefaults cfg))"
  by (auto simp: server_New_def Let_def split: option.splits)

lemma applyDefaults_machine: "0 < VCPUCount (cf_Machine (applyDefaults cfg))" "0 < MemSizeMiB (cf_Machine (applyDefaults cfg))"
  by (simp_all add: applyDefaults_def Let_def)

lemma timeout_bounds:
  assumes "0 < t" "t \<le> m" "m * millisecond < 2 ^ 63"
  shows "0 < i64 (t * millisecond) \<and> i64 (t * millisecond) \<le> m * millisecond"
proof -
  have "0 < t * millisecond" "t * millisecond \<le> m * millisecond" using assms(1,2) by (simp_all add: millisecond_def)
  moreover from this assms(3) have "i64 (t * millisecond) = t * millisecond" by (intro i64_id) simp_all
  ultimately show ?thesis by simp
qed

text \<open>An accepted request, field by field.\<close>

lemma managerRunRequest_accepted:
  assumes "managerRunRequest arch cfg req = Inr r"
  defines "l \<equiv> cf_Limits cfg"
  defines "t \<equiv> if ar_TimeoutMillis req \<le> 0 then MaxTimeoutMillis l else ar_TimeoutMillis req"
  shows "ar_Tasks req \<noteq> []" "int (length (ar_Tasks req)) \<le> MaxTasks l" "t \<le> MaxTimeoutMillis l"
    "tasksToJobs l (ar_Tasks req) (firstNonEmpty [ar_Workdir req, ''/workspace'']) = Inr (rq_Jobs r)"
    "VCPUCount (rq_MachineConfig r) = orPositive (VCPUCount (ar_Machine req)) (VCPUCount (cf_Machine cfg))"
    "VCPUCount (rq_MachineConfig r) \<le> MaxVCPUCount l"
    "MemSizeMiB (rq_MachineConfig r) = orPositive (MemSizeMiB (ar_Machine req)) (MemSizeMiB (cf_Machine cfg))"
    "MemSizeMiB (rq_MachineConfig r) \<le> MaxMemSizeMiB l"
    "d_TimeoutMillis (rq_Defaults r) = t" "d_MaxOutputBytes (rq_Defaults r) = MaxOutputBytes l" "rq_Timeout r = i64 (t * millisecond)"
    "rq_KernelPath r = cf_KernelPath cfg" "rq_BootImagePath r = cf_BootImagePath cfg" "rq_FirecrackerPath r = cf_FirecrackerPath cfg"
    "rq_Jailer r = FirecrackerJailer cfg" "rq_CleanupJailer r = cf_CleanupJailer cfg" "rq_Workspace r = ''/workspace''"
    "rq_SnapshotDir r \<in> {'''', cf_SnapshotDir cfg}" "rq_Snapshot r = None"
proof -
  let ?v = "orPositive (VCPUCount (ar_Machine req)) (VCPUCount (cf_Machine cfg))"
  let ?m = "orPositive (MemSizeMiB (ar_Machine req)) (MemSizeMiB (cf_Machine cfg))"
  define w where "w = firstNonEmpty [ar_Workdir req, ''/workspace'']"
  define mode where "mode = firstNonEmpty [ar_SnapshotMode req, ''disabled'']"
  note folds = l_def [symmetric] t_def [symmetric] w_def [symmetric] mode_def [symmetric]
  obtain js where js: "tasksToJobs l (ar_Tasks req) w = Inr js"
    using assms(1) unfolding managerRunRequest_def Let_def folds
    by (simp split: if_split_asm sum.split_asm)
  have c: "ar_Tasks req \<noteq> [] \<and> int (length (ar_Tasks req)) \<le> MaxTasks l \<and> t \<le> MaxTimeoutMillis l \<and> ?v \<le> MaxVCPUCount l \<and> ?m \<le> MaxMemSizeMiB l"
    using assms(1) unfolding managerRunRequest_def Let_def folds
    by (simp add: js split: if_split_asm)
  have r: "r = \<lparr>rq_ImageRef = ar_ImageRef req, rq_Platform = hostPlatform arch, rq_Command = [],
      rq_KernelPath = cf_KernelPath cfg, rq_BootImagePath = cf_BootImagePath cfg,
      rq_FirecrackerPath = cf_FirecrackerPath cfg, rq_Jailer = FirecrackerJailer cfg,
      rq_MachineConfig = (ar_Machine req)\<lparr>VCPUCount := ?v, MemSizeMiB := ?m\<rparr>, rq_Workspace = ''/workspace'',
      rq_Workdir = w, rq_UID = ar_UID req, rq_GID = ar_GID req,
      rq_Defaults = \<lparr>d_UID = Some (ar_UID req), d_GID = Some (ar_GID req), d_Env = [],
                     d_TimeoutMillis = t, d_MaxOutputBytes = MaxOutputBytes l\<rparr>,
      rq_Jobs = js, rq_Timeout = i64 (t * millisecond),
      rq_SnapshotDir = (if mode = ''auto'' then cf_SnapshotDir cfg else ''''), rq_Snapshot = None,
      rq_CleanupJailer = cf_CleanupJailer cfg\<rparr>"
    using assms(1) unfolding managerRunRequest_def Let_def folds
    by (simp add: js split: if_split_asm)
  show "ar_Tasks req \<noteq> []" "int (length (ar_Tasks req)) \<le> MaxTasks l" "t \<le> MaxTimeoutMillis l"
    "tasksToJobs l (ar_Tasks req) (firstNonEmpty [ar_Workdir req, ''/workspace'']) = Inr (rq_Jobs r)"
    "VCPUCount (rq_MachineConfig r) = ?v" "VCPUCount (rq_MachineConfig r) \<le> MaxVCPUCount l"
    "MemSizeMiB (rq_MachineConfig r) = ?m" "MemSizeMiB (rq_MachineConfig r) \<le> MaxMemSizeMiB l"
    "d_TimeoutMillis (rq_Defaults r) = t" "d_MaxOutputBytes (rq_Defaults r) = MaxOutputBytes l" "rq_Timeout r = i64 (t * millisecond)"
    "rq_KernelPath r = cf_KernelPath cfg" "rq_BootImagePath r = cf_BootImagePath cfg" "rq_FirecrackerPath r = cf_FirecrackerPath cfg"
    "rq_Jailer r = FirecrackerJailer cfg" "rq_CleanupJailer r = cf_CleanupJailer cfg" "rq_Workspace r = ''/workspace''"
    "rq_SnapshotDir r \<in> {'''', cf_SnapshotDir cfg}" "rq_Snapshot r = None"
    using c js by (simp_all add: r w_def)
qed

lemma managerRunRequest_within:
  assumes "managerRunRequest arch (applyDefaults cfg) req = Inr r"
  shows "within_limits (applyDefaults cfg) r"
proof -
  let ?c = "applyDefaults cfg"
  let ?l = "cf_Limits ?c"
  have p: "positive_limits ?l" by (rule applyDefaults_positive)
  note a = managerRunRequest_accepted [OF assms]
  have j: "list_all (job_allowed ?l) (rq_Jobs r)" "length (rq_Jobs r) = Suc (length (ar_Tasks req))"
    using tasksToJobs_allowed [OF a(4)] by simp_all
  have t: "0 < d_TimeoutMillis (rq_Defaults r)" using a(9) p by (simp add: positive_limits_def)
  have d: "MaxTimeoutMillis ?l * millisecond < 2 ^ 63 \<longrightarrow> 0 < rq_Timeout r \<and> rq_Timeout r \<le> MaxTimeoutMillis ?l * millisecond"
    using timeout_bounds [OF t] a(3) unfolding a(9,11) by blast
  have m: "0 < VCPUCount (rq_MachineConfig r)" "0 < MemSizeMiB (rq_MachineConfig r)"
    using a(5,7) applyDefaults_machine [of cfg] by (simp_all add: orPositive_def)
  show ?thesis
    using a(1,2,3) d t m j a(6,8)
    by (simp add: within_limits_def Let_def a(9-17,19)) (use a(18) in simp)
qed

section \<open>Properties\<close>

text \<open>
  C16.  The server's check of a path and the guest agent's check with the workspace
  \<open>/workspace\<close> accept the same strings: no path that the server lets through is refused by
  the agent as outside, and the server lets none through that the agent would refuse.
\<close>

theorem server_check_is_agent_check:
  "(validateWorkspacePath p = None) = (\<exists>c. safePath ''/workspace'' p = Inr c)"
  using validateWorkspacePath_iff safePath_iff [of "''/workspace''" p] by (auto simp: rooted_def)

text \<open>
  C6.  Whatever configuration the server was started with, every run request it accepts stays
  within the limits: number of jobs, every path under \<open>/workspace\<close>, decoded size of every file, the timeout of a job, output, CPUs and memory.  The
  time that the whole run may take is the same number of milliseconds as a duration, so it is positive and at most the configured maximum
  unless that maximum itself exceeds 64 bits of nanoseconds.  The kernel, boot
  image, Firecracker binary, jailer and snapshot directory are the configured ones, whatever the request says.
\<close>

theorem accepted_run_within_limits:
  "case server_New arch cfg of
     Inl e \<Rightarrow> True
   | Inr srv \<Rightarrow> (case managerRunRequest arch (as_Config srv) req of
        Inl e \<Rightarrow> True
      | Inr r \<Rightarrow> within_limits (as_Config srv) r)"
  using managerRunRequest_within by (auto dest!: server_New_cases split: sum.splits)

text \<open>
  A configuration file that loads always starts the server with exactly the loaded
  configuration, all limits positive and the default machine within them.
\<close>

theorem loaded_config_starts:
  "case LoadConfig merge path s of
     (Inl e, s') \<Rightarrow> True
   | (Inr cfg, s') \<Rightarrow> (\<exists>srv. server_New arch cfg = Inr srv \<and> as_Config srv = cfg) \<and> positive_limits (cf_Limits cfg) \<and>
       VCPUCount (cf_Machine cfg) \<le> MaxVCPUCount (cf_Limits cfg) \<and> MemSizeMiB (cf_Machine cfg) \<le> MaxMemSizeMiB (cf_Limits cfg)"
proof -
  have "(\<exists>srv. server_New arch cfg = Inr srv \<and> as_Config srv = cfg) \<and> positive_limits (cf_Limits cfg) \<and>
       VCPUCount (cf_Machine cfg) \<le> MaxVCPUCount (cf_Limits cfg) \<and> MemSizeMiB (cf_Machine cfg) \<le> MaxMemSizeMiB (cf_Limits cfg)"
    if l: "LoadConfig merge path s = (Inr cfg, s')" for cfg s'
  proof -
    obtain cfg0 where c: "cfg = applyDefaults cfg0" "Validate cfg = None"
      using l unfolding LoadConfig_def andThen_def wrap_def throw_def ret_def
      by (auto simp: Let_def split: prod.splits sum.splits option.splits)
    then have "applyDefaults cfg = cfg" by (simp add: applyDefaults_idem)
    then have "server_New arch cfg = Inr \<lparr>as_Config = cfg, as_Manager = manager_New (RuntimeConfigOf arch cfg)\<rparr>"
      using c(2) by (simp add: server_New_def)
    moreover have "positive_limits (cf_Limits cfg)" unfolding c(1) by (rule applyDefaults_positive)
    ultimately show ?thesis using c Validate_completed [of cfg0] by (simp add: Let_def)
  qed
  then show ?thesis by (auto split: prod.splits sum.splits)
qed

definition api_event :: "ServerConfig \<Rightarrow> vm_event \<Rightarrow> bool" where
  "api_event cfg e = (case e of
       Created c \<Rightarrow> hardened c \<and>
         (\<exists>id. validateChainID id = None \<and> map PathOnHost (tl (sc_Drives c)) = [RootfsPath (cf_StoreDir cfg) id]) \<and>
         VcpuCount (sc_MachineCfg c) \<le> MaxVCPUCount (cf_Limits cfg) \<and> MemSizeMib (sc_MachineCfg c) \<le> MaxMemSizeMiB (cf_Limits cfg)
     | JobsSent b \<Rightarrow> b_Shutdown b \<and> list_all (job_allowed (cf_Limits cfg)) (b_Jobs b)
     | _ \<Rightarrow> True)"

text \<open>
  What the daemon may do with its VMs: such events only, under the configured jailer, from the snapshots of the configured directory, and
  no VM left running.
\<close>

definition api_restores :: "ServerConfig \<Rightarrow> vm_event \<Rightarrow> bool" where
  "api_restores cfg = restores (artifact_of (cf_SnapshotDir cfg)) (FirecrackerJailer cfg)"

definition served_events :: "ServerConfig \<Rightarrow> vm_event list \<Rightarrow> bool" where
  "served_events cfg es = (running es = 0 \<and> list_all (api_event cfg) es \<and> list_all (jailed (FirecrackerJailer cfg)) es \<and>
     list_all (api_restores cfg) es)"

interpretation served: log_kind "served_events cfg" for cfg
  by unfold_locales (auto simp: served_events_def)

lemma served_eventsI:
  assumes "adds (\<lambda>es. running es = 0) m" "adds (list_all (api_event cfg)) m" "adds (list_all (jailed (FirecrackerJailer cfg))) m"
    "adds (list_all (api_restores cfg)) m"
  shows "adds (served_events cfg) m"
proof (rule addsI)
  fix h r h' assume "m h = Some (r, h')"
  then show "\<exists>es. h_log h' = h_log h @ es \<and> served_events cfg es"
    using assms unfolding adds_def served_events_def by (metis same_append_eq)
qed

lemma run_event_api:
  assumes w: "within_limits cfg r" and d: "dir = cf_StoreDir cfg"
  shows "list_all (run_event dir (rq_MachineConfig r) (rq_Jobs r)) es \<Longrightarrow> list_all (api_event cfg) es"
proof -
  have j: "rq_Jobs r \<noteq> []" "list_all (job_allowed (cf_Limits cfg)) (rq_Jobs r)"
    using w by (auto simp: within_limits_def Let_def)
  have m: "VcpuCount (MachineConfiguration (rq_MachineConfig r)) \<le> MaxVCPUCount (cf_Limits cfg)"
    "MemSizeMib (MachineConfiguration (rq_MachineConfig r)) \<le> MaxMemSizeMiB (cf_Limits cfg)"
    using w by (auto simp: within_limits_def MachineConfiguration_def Let_def)
  have "run_event dir (rq_MachineConfig r) (rq_Jobs r) e \<Longrightarrow> api_event cfg e" for e
    using j m d by (cases e) (auto simp: run_event_def api_event_def)
  then show "list_all (run_event dir (rq_MachineConfig r) (rq_Jobs r)) es \<Longrightarrow> list_all (api_event cfg) es"
    by (auto simp: list_all_iff)
qed

lemma manager_StoreDir: "StoreDir (manager_New (RuntimeConfigOf arch (applyDefaults cfg))) = cf_StoreDir (applyDefaults cfg)"
  by (simp add: manager_New_def runtime_New_def RuntimeConfigOf_def applyDefaults_def Let_def)

lemma run_served:
  assumes "server_New arch cfg = Inr srv"
  shows "adds (served_events (as_Config srv)) (run env env' arch' srv req)"
proof (cases "managerRunRequest arch' (as_Config srv) req")
  case (Inl e)
  then show ?thesis by (simp add: run_def served.adds_vthrow)
next
  case (Inr r)
  note s = server_New_cases [OF assms]
  have w: "within_limits (as_Config srv) r" using Inr s managerRunRequest_within by simp
  then have j: "rq_Jailer r = FirecrackerJailer (as_Config srv)" by (simp add: within_limits_def Let_def)
  have d: "StoreDir (as_Manager srv) = cf_StoreDir (as_Config srv)" using s manager_StoreDir by simp
  have "adds (list_all (restores (artifact_of (cf_SnapshotDir (as_Config srv))) (rq_Jailer r))) (Run env env' (as_Manager srv) r)"
    unfolding conjunct2 [OF conjunct2 [OF s]] using w
    by (intro Run_restores) (auto simp: within_limits_def artifact_of_def Let_def)
  then have "adds (served_events (as_Config srv)) (Run env env' (as_Manager srv) r)"
    using adds_mono [OF Run_events run_event_api [OF w d]] s Run_jailed [of r env env' "as_Manager srv"] j
    by (intro served_eventsI Run_balanced) (auto simp: api_restores_def)
  then show ?thesis using Inr by (auto simp: run_def intro!: served.adds_manager)
qed

text \<open>
  A run over the API, from the HTTP body to the VMs: however it ends, every VM it
  started is stopped, and every VM it created is hardened, boots the store's root file system of a valid chain
  ID and has at most the configured number of CPUs and memory, and runs under the configured jailer; the jobs sent to it are
  within the limits, and a VM is restored only from a snapshot of the configured directory; a request that is not accepted starts nothing and changes nothing.
\<close>

theorem served_run_safe:
  "case server_New arch cfg of
     Inl e \<Rightarrow> True
   | Inr srv \<Rightarrow> (case run env env' arch srv req h of
        None \<Rightarrow> True
      | Some (Inl (BadRequest e), h') \<Rightarrow> h' = h
      | Some (r, h') \<Rightarrow> \<exists>es. h_log h' = h_log h @ es \<and> running es = 0 \<and> list_all (api_event (as_Config srv)) es \<and>
          list_all (jailed (FirecrackerJailer (as_Config srv))) es \<and> list_all (api_restores (as_Config srv)) es)"
proof (cases "server_New arch cfg")
  case (Inr srv)
  have refused: "h' = h" if "run env env' arch srv req h = Some (Inl (BadRequest e), h')" for e h'
    using that by (auto simp: run_def vbind_def vlift_def vret_def vthrow_def split: option.splits prod.splits sum.splits)
  show ?thesis using Inr refused adds_result [OF run_served [OF Inr, where env = env and env' = env' and req = req and arch' = arch], of h]
    by (auto simp: served_events_def split: option.splits prod.splits sum.splits api_error.splits)
qed simp

lemma startFromSnapshot_machine:
  "startFromSnapshot vm (req\<lparr>sv_MachineConfig := mc\<rparr>) snap = startFromSnapshot vm req snap"
proof -
  obtain a where "req\<lparr>sv_MachineConfig := mc\<rparr> = a" by simp
  moreover from this have "sv_ID a = sv_ID req" "sv_FirecrackerPath a = sv_FirecrackerPath req" "sv_Jailer a = sv_Jailer req"
    "sv_BootImagePath a = sv_BootImagePath req" "sv_TargetImagePath a = sv_TargetImagePath req" "sv_Defaults a = sv_Defaults req"
    "sv_Workspace a = sv_Workspace req" "sv_Jobs a = sv_Jobs req" by auto
  ultimately show ?thesis
    unfolding startFromSnapshot_def restoredRun_def linkSnapshot_def batchRequest_def by (simp only:)
qed

text \<open>
  C35.  A snapshot fixes the machine: restoring one gives the same run whatever machine size the
  request names, since the artifact is chosen by the chain ID alone.
\<close>

theorem restore_ignores_machine_size:
  "StartVM vm (req\<lparr>sv_Snapshot := Some snap, sv_MachineConfig := mc\<rparr>) = StartVM vm (req\<lparr>sv_Snapshot := Some snap\<rparr>)"
proof -
  have "startDefaults vm (req\<lparr>sv_Snapshot := Some snap, sv_MachineConfig := mc\<rparr>) =
      (startDefaults vm (req\<lparr>sv_Snapshot := Some snap\<rparr>))\<lparr>sv_MachineConfig := mc\<rparr>" by (simp add: startDefaults_def)
  moreover have "sv_Snapshot (startDefaults vm (req\<lparr>sv_Snapshot := Some snap\<rparr>)) = Some snap" by (simp add: startDefaults_def)
  ultimately show ?thesis by (simp add: StartVM_def startFromSnapshot_machine Let_def)
qed

lemma orString_empty: "orString '''' d = d"
  by (simp add: orString_def)

text \<open>
  Moving the store in the configuration file does not move the snapshots: a document that only
  sets the store directory leaves the snapshot directory at the default store's, although
  \<open>applyDefaults\<close> derives it from the store directory.
\<close>

theorem moved_store_keeps_snapshot_dir:
  "case LoadConfig (\<lambda>_ cfg. Some (cfg\<lparr>cf_StoreDir := d\<rparr>)) path s of
     (Inl e, s') \<Rightarrow> True
   | (Inr cfg, s') \<Rightarrow> cf_SnapshotDir cfg = DefaultStoreDir @ ''/snapshots'' \<and> cf_StoreDir cfg = orString d DefaultStoreDir \<and>
       cf_SnapshotDir (applyDefaults (DefaultConfig\<lparr>cf_StoreDir := d, cf_SnapshotDir := ''''\<rparr>)) = orString d DefaultStoreDir @ ''/snapshots''"
  unfolding LoadConfig_def andThen_def wrap_def throw_def ret_def
  by (auto simp: Let_def applyDefaults_def DefaultConfig_def orString_empty split: prod.splits sum.splits option.splits)


section \<open>Uploads that the agent cannot take\<close>

text \<open>Four files of four megabytes each, written one after the other.\<close>

definition big_upload :: "nat \<Rightarrow> Task" where
  "big_upload n = \<lparr>t_Type = JobWriteFile, t_Path = ''/workspace/f'', t_Mode = 0,
     t_ContentsBase64 = EncodeToString (replicate n (CHR ''x'')), t_CreateParents = False, t_Argv = [], t_WorkingDir = ''''\<rparr>"

definition big_request :: "nat \<Rightarrow> ApiRunRequest" where
  "big_request n = \<lparr>ar_ImageRef = ''alpine'', ar_Tasks = replicate 4 (big_upload n), ar_Workdir = '''', ar_UID = 0, ar_GID = 0,
     ar_TimeoutMillis = 0, ar_SnapshotMode = '''', ar_Machine = \<lparr>VCPUCount = 0, MemSizeMiB = 0\<rparr>\<rparr>"

lemma big_upload_job:
  assumes "int n \<le> MaxWriteFileBytes l"
  shows "\<exists>j. taskToJob l w (big_upload n) = Inr j \<and> j_ContentsBase64 j = EncodeToString (replicate n (CHR ''x''))"
proof -
  have "validateWorkspacePath ''/workspace/f'' = None" by code_simp
  then show ?thesis using assms job_types
    by (simp add: taskToJob_def big_upload_def decodedBase64Len_def decode_encode zero_job_def)
qed

text \<open>
  With the default configuration the server accepts a run whose files alone are longer, in the encoding they
  are sent in, than the body that the guest agent reads by default.
\<close>

theorem accepted_upload_exceeds_agent_body:
  "\<exists>r. managerRunRequest arch DefaultConfig (big_request (4 * 2 ^ 20)) = Inr r \<and>
     sum_list (map (\<lambda>j. int (length (j_ContentsBase64 j))) (rq_Jobs r)) > DefaultMaxBodyBytes"
proof -
  let ?n = "4 * 2 ^ 20 :: nat" and ?l = "cf_Limits DefaultConfig"
  have l: "MaxWriteFileBytes ?l = int ?n" "MaxTasks ?l = 32" "MaxTimeoutMillis ?l = 60000" "MaxVCPUCount ?l = 4"
    "MaxMemSizeMiB ?l = 2048" "VCPUCount (cf_Machine DefaultConfig) = 1" "MemSizeMiB (cf_Machine DefaultConfig) = 256"
    by (simp_all add: DefaultConfig_def applyDefaults_def Let_def)
  have "int ?n \<le> MaxWriteFileBytes ?l" using l(1) by simp
  from big_upload_job [OF this] obtain j where
    j: "taskToJob ?l ''/workspace'' (big_upload ?n) = Inr j" and c: "j_ContentsBase64 j = EncodeToString (replicate ?n (CHR ''x''))"
    by blast
  have js: "jobsOf ?l ''/workspace'' (replicate 4 (big_upload ?n)) = Inr [j, j, j, j]"
    using j by (simp add: numeral_eq_Suc del: power_Suc)
  have len: "length (j_ContentsBase64 j) = 5592408" unfolding c length_EncodeToString by simp
  show ?thesis
    using js l len
    by (simp add: managerRunRequest_def big_request_def tasksToJobs_def orPositive_def zero_job_def DefaultMaxBodyBytes_def Let_def)
qed


end
