(* ===== verification/ImageSafety.thy ===== *)
theory ImageSafety
  imports ImageRuntime
begin

text \<open>
  Preparing an image from end to end: whatever fails on the way (a fault of the file system, the registry, the lock, the
  builder), the content store stays good; and preparing returns whenever the lock is answered and the builder returns.
\<close>

section \<open>The files of a root file system\<close>

lemma rootfs_files:
  assumes "cleaned dir" "rooted dir" "blobname enc"
  defines "c \<equiv> ''sha256:'' @ enc"
  shows "store_file dir (RootfsPath dir c)" "comps (RootfsPath dir c) = comps dir @ [''rootfs'', ''complete'', enc @ ''.ext4'']"
    "store_file dir (RootfsBuildingPath dir c)" "comps (RootfsBuildingPath dir c) = comps dir @ [''rootfs'', ''building'', enc @ ''.ext4.tmp'']"
    "store_file dir (LockPath dir c)" "comps (LockPath dir c) = comps dir @ [''locks'', enc @ ''.lock'']"
    "json_file dir (RootfsMetadataPath dir c)"
proof -
  have s: "slash \<notin> set enc" using blobname_plain [OF assms(3)] by (simp add: plain_def)
  have p: "plain (enc @ ''.ext4'')" "plain (enc @ ''.ext4.tmp'')" "plain (enc @ ''.lock'')" "plain (enc @ ''.json'')"
    using plain_ext [OF s] by simp_all
  note j = store_file_Join [OF assms(1,2)]
  show "store_file dir (RootfsPath dir c)" "comps (RootfsPath dir c) = comps dir @ [''rootfs'', ''complete'', enc @ ''.ext4'']"
    using j [of "[''rootfs'', ''complete'', enc @ ''.ext4'']"] p by (simp_all add: RootfsPath_def c_def splitDigest_sha256 [simplified] plain_def)
  show "store_file dir (RootfsBuildingPath dir c)" "comps (RootfsBuildingPath dir c) = comps dir @ [''rootfs'', ''building'', enc @ ''.ext4.tmp'']"
    using j [of "[''rootfs'', ''building'', enc @ ''.ext4.tmp'']"] p by (simp_all add: RootfsBuildingPath_def c_def splitDigest_sha256 [simplified] plain_def)
  show "store_file dir (LockPath dir c)" "comps (LockPath dir c) = comps dir @ [''locks'', enc @ ''.lock'']"
    using j [of "[''locks'', enc @ ''.lock'']"] p by (simp_all add: LockPath_def c_def splitDigest_sha256 [simplified] plain_def)
  show "json_file dir (RootfsMetadataPath dir c)"
    using assms(1-3) blobname_plain by (intro digest_json) (auto simp: plain_digest_def c_def splitDigest_sha256 [simplified] plain_def)
qed

lemma dotted_not_blob: "CHR ''.'' \<in> set n \<Longrightarrow> \<not> blobname n"
  by (rule blobname_no_dot)

section \<open>Single calls\<close>

lemma store_result: "valid (store_ok dir) m (\<lambda>_. store_ok dir) (store_ok dir) \<Longrightarrow> store_ok dir s \<Longrightarrow> store_ok dir (snd (m s))"
  using valid_both by (metis prod.collapse)

lemma store_readonly: "readonly m \<Longrightarrow> store_ok dir s \<Longrightarrow> store_ok dir (snd (m s))"
  by (rule store_result [OF valid_readonly]) auto

lemma valid_store_OpenCreate:
  assumes "store_file dir p" "\<not> blobname (last (comps p))"
  shows "valid (store_ok dir) (OpenCreate p m) (\<lambda>_. store_ok dir) (store_ok dir)"
  unfolding OpenCreate_def
proof (rule valid_sysop)
  fix s assume "store_ok dir s"
  then show "store_ok dir (s\<lparr>tick := Suc (tick s)\<rparr>)" by (rule stable_tick [OF stable_store_ok])
next
  fix s i s' assume s: "store_ok dir s"
  let ?t = "s\<lparr>tick := Suc (tick s)\<rparr>"
  assume o': "(case resolve ?t True p of Inl e \<Rightarrow> Inl e
     | Inr q \<Rightarrow> (case ent ?t q of
                   None \<Rightarrow> Inr (new_file q m ?t)
                 | Some (RegE i) \<Rightarrow> Inr (i, ?t)
                 | Some (DirE a) \<Rightarrow> Inl EISDIR
                 | Some (LnkE t a) \<Rightarrow> Inl ELOOP)) = Inr (i, s')"
  have t: "store_ok dir ?t" using s by (rule stable_tick [OF stable_store_ok])
  have p: "cleaned p" "rooted p" "prefix (comps dir) (comps p)" "comps p \<noteq> []"
    using assms(1) by (auto simp: store_file_def strict_prefix_def intro: prefix_order.trans prefixeq_butlast)
  obtain q where q: "resolve ?t True p = Inr q" using o' by (auto split: sum.splits)
  have q': "q = comps p" by (rule resolve_store [OF t p(1-3) q])
  have d: "is_dir (ent ?t (butlast q))" by (rule resolve_parent [OF store_okD(1) [OF t] p(2) q])
  show "store_ok dir s'"
    using o' q new_file_store_ok(1) [OF t, of q m i s'] d p(4) assms(2) t q'
    by (auto split: option.splits entry.splits)
qed

section \<open>The lock\<close>

lemma Acquire_store:
  assumes p: "store_file dir p" "\<not> blobname (last (comps p))" and s: "store_ok dir s" and a: "Acquire env p s = Some (r, s')"
  shows "store_ok dir s'"
proof -
  let ?m = "andThen (wrap LockOs (MkdirAll (Dir p) 493)) (\<lambda>_. wrap LockOs (OpenCreate p 420))"
  have "valid (store_ok dir) ?m (\<lambda>_. store_ok dir) (store_ok dir)"
    using store_file_Dir [OF p(1)]
    by (intro valid_andThen [OF valid_wrap [OF valid_store_MkdirAll] valid_wrap [OF valid_store_OpenCreate [OF p]]]) auto
  then have "store_ok dir (snd (?m s))" using s by (rule store_result)
  then show ?thesis
    using a store_readonly [OF readonly_FClose] unfolding Acquire_def
    by (auto split: prod.splits sum.splits option.splits)
qed

lemma Close_store: "store_ok dir s \<Longrightarrow> store_ok dir (snd (Close l s))"
  unfolding Close_def by (simp add: case_prod_beta store_readonly [OF readonly_FClose] split: option.split)

section \<open>The builder\<close>

text \<open>
  What is relied on of an image builder: it keeps the store good, and what it leaves in the place it was given is no directory when it succeeds.
\<close>

abbreviation buildingPath :: "string \<Rightarrow> string \<Rightarrow> string" where
  "buildingPath dir e \<equiv> RootfsBuildingPath dir (''sha256:'' @ e)"

definition builder_keeps :: "string \<Rightarrow> image_builder \<Rightarrow> bool" where
  "builder_keeps dir b = (\<forall>img e sz s r s'. blobname e \<longrightarrow> store_ok dir s \<longrightarrow> b img (buildingPath dir e) sz s = Some (r, s') \<longrightarrow>
     store_ok dir s' \<and> (r = Inr () \<longrightarrow> \<not> is_dir (ent s' (comps (buildingPath dir e)))))"

lemma applyLayers_readonly: "\<exists>t. snd (applyLayers x n gunzip untar ctx ls d s) = s\<lparr>tick := t\<rparr>"
proof (induction ls arbitrary: d s)
  case Nil
  then show ?case by (auto intro: same_tick)
next
  case (Cons l ls)
  obtain path diff where l: "l = (path, diff)" by (cases l)
  obtain r d' s' where a: "ApplyLayer x n gunzip untar ctx path diff d s = ((r, d'), s')" by (metis prod.collapse)
  have "snd (ApplyLayer x n gunzip untar ctx path diff d s) = snd (ReadFile path s)"
    unfolding DiskfsApplier.ApplyLayer_def by (auto split: prod.splits sum.splits)
  moreover obtain t where "snd (ReadFile path s) = s\<lparr>tick := t\<rparr>"
    using readonly_ReadFile [of path] unfolding readonly_def by (metis prod.collapse)
  ultimately have s': "s' = s\<lparr>tick := t\<rparr>" using a by simp
  obtain t' where "snd (applyLayers x n gunzip untar ctx ls d' s') = s'\<lparr>tick := t'\<rparr>" using Cons by blast
  then show ?case using a s' by (cases r) (auto simp: l)
qed

text \<open>The builder of \<open>pure_ext4.go\<close> does so when the library does when it makes the image file and writes to it.\<close>

lemma PureGoExt4Builder_keeps:
  assumes "\<And>c sz s r s'. blobname c \<Longrightarrow> store_ok dir s \<Longrightarrow> mkfs (buildingPath dir c) sz s = (r, s') \<Longrightarrow>
      store_ok dir s' \<and> (\<forall>fs. r = XOk fs \<longrightarrow> \<not> is_dir (ent s' (comps (buildingPath dir c))))"
    and "\<And>c fs s. blobname c \<Longrightarrow> store_ok dir s \<Longrightarrow> \<not> is_dir (ent s (comps (buildingPath dir c))) \<Longrightarrow>
      store_ok dir (sync (buildingPath dir c) fs s) \<and> \<not> is_dir (ent (sync (buildingPath dir c) fs s) (comps (buildingPath dir c)))"
  shows "builder_keeps dir (PureGoExt4Builder x n mkfs sync gunzip untar ctx)"
  unfolding builder_keeps_def
proof (intro allI impI)
  fix img :: PulledImage and c sz s r s'
  let ?p = "buildingPath dir c"
  let ?ls = "map (\<lambda>l. (l_CompressedBlobPath l, l_DiffID l)) (pi_Layers img)"
  assume c: "blobname c" and s: "store_ok dir s" and b: "PureGoExt4Builder x n mkfs sync gunzip untar ctx img ?p sz s = Some (r, s')"
  obtain m s1 where m: "mkfs ?p sz s = (m, s1)" by fastforce
  note s1 = assms(1) [OF c s m]
  have s': "s' = snd (Build x n mkfs sync gunzip untar ctx ?ls ?p sz s)"
    using b unfolding PureGoExt4Builder_def by (auto split: prod.splits dres.splits)
  show "store_ok dir s' \<and> (r = Inr () \<longrightarrow> \<not> is_dir (ent s' (comps ?p)))"
  proof (cases m)
    case (XOk fs)
    let ?d = "\<lparr>FS = fs, Symlinks = (\<lambda>_. False)\<rparr>"
    obtain t where t: "snd (applyLayers x n gunzip untar ctx ?ls ?d s1) = s1\<lparr>tick := t\<rparr>" using applyLayers_readonly by blast
    have "store_ok dir (s1\<lparr>tick := t\<rparr>)" using s1 stable_tick [OF stable_store_ok] by blast
    then show ?thesis using assms(2) [OF c, of "s1\<lparr>tick := t\<rparr>"] s1 t m XOk
      by (simp add: s' Build_def case_prod_beta)
  qed (use s1 m b in \<open>auto simp: Build_def PureGoExt4Builder_def\<close>)
qed

section \<open>Publishing\<close>

lemma rename_rootfs:
  assumes dir: "cleaned dir" "rooted dir" "blobname enc" and s: "store_ok dir s" "\<not> is_dir (ent s (comps (RootfsBuildingPath dir (''sha256:'' @ enc))))"
    and r: "Rename (RootfsBuildingPath dir (''sha256:'' @ enc)) (RootfsPath dir (''sha256:'' @ enc)) s = (r, s')"
  shows "store_ok dir s'"
proof (cases r)
  case (Inl e)
  then show ?thesis using Rename_error r stable_tick [OF stable_store_ok s(1)] by blast
next
  case (Inr u)
  let ?b = "RootfsBuildingPath dir (''sha256:'' @ enc)" and ?c = "RootfsPath dir (''sha256:'' @ enc)"
  note f = rootfs_files [OF dir]
  obtain o1 q e where rs: "resolve s False ?b = Inr o1" "ent s o1 = Some e" "resolve s False ?c = Inr q"
    using Rename_resolves r Inr by blast
  have below: "cleaned p \<and> rooted p \<and> prefix (comps dir) (comps p)" if "store_file dir p" for p
    using that by (auto simp: store_file_def strict_prefix_def intro: prefix_order.trans prefixeq_butlast)
  have o1: "o1 = comps ?b" using resolve_store [OF s(1) _ _ _ rs(1)] below [OF f(3)] by blast
  have q: "q = comps ?c" using resolve_store [OF s(1) _ _ _ rs(3)] below [OF f(1)] by blast
  have "\<not> is_lnk (ent s o1)" using store_nolinks [OF s(1), of o1] below [OF f(3)] o1 by (simp add: nolinks_iff)
  then obtain i where i: "ent s o1 = Some (RegE i)" using rs(2) s(2) o1 by (cases e) auto
  have "q \<noteq> o1" "rooted ?c" using f(2,4) o1 q below [OF f(1)] by auto
  moreover have "\<not> blobname (enc @ ''.ext4'')" by (rule dotted_not_blob) simp
  then have "q \<noteq> blobdir dir @ [n]" if "blobname n" for n using that f(2) q by (auto simp: blobdir_def)
  ultimately show ?thesis
    using Rename_store_ok(1) [OF s(1) i rs(1) [unfolded o1 [symmetric]] rs(3)] r Inr by blast
qed

lemma prepareDirs_store:
  assumes "store_file dir a" "store_file dir b"
  shows "valid (store_ok dir) (prepareDirs a b) (\<lambda>_. store_ok dir) (store_ok dir)"
  unfolding prepareDirs_def using store_file_Dir [OF assms(1)] store_file_Dir [OF assms(2)]
  by (intro valid_andThen [OF valid_wrap [OF valid_store_MkdirAll]] valid_andThen [OF valid_attempt_same [OF valid_store_Remove]] valid_ret) auto

lemma WriteMetadata_store:
  "json_file dir (RootfsMetadataPath dir c) \<Longrightarrow> valid (store_ok dir) (WriteMetadata enc dir img c sz) (\<lambda>_. store_ok dir) (store_ok dir)"
  unfolding WriteMetadata_def
  by (intro valid_andThen [OF valid_reads [where Q = "\<lambda>_. store_ok dir"]] valid_WriteJSON_store)

lemma build_store:
  assumes dir: "cleaned dir" "rooted dir" "blobname e" and b: "builder_keeps dir builder" and s: "store_ok dir s"
    and bd: "build builder enc dir img (''sha256:'' @ e) (RootfsPath dir (''sha256:'' @ e)) s = Some (r, s')"
  shows "store_ok dir s'"
proof -
  let ?b = "RootfsBuildingPath dir (''sha256:'' @ e)" and ?c = "RootfsPath dir (''sha256:'' @ e)"
  note f = rootfs_files [OF dir]
  obtain p s1 where p: "prepareDirs ?c ?b s = (p, s1)" by fastforce
  have s1: "store_ok dir s1" using valid_both [OF prepareDirs_store [OF f(1,3)] s p] .
  show ?thesis
  proof (cases p)
    case (Inl x)
    then show ?thesis using bd p s1 by (simp add: build_def Let_def)
  next
    case (Inr u)
    obtain br s2 where b2: "builder img ?b (estimateRootfsSize img) s1 = Some (br, s2)"
      using bd p Inr by (auto simp: build_def Let_def split: option.splits)
    have s2: "store_ok dir s2" "br = Inr () \<longrightarrow> \<not> is_dir (ent s2 (comps ?b))" using b s1 b2 dir(3) unfolding builder_keeps_def by blast+
    obtain rr s3 where r3: "Rename ?b ?c s2 = (rr, s3)" by fastforce
    have s3: "store_ok dir s3" if "br = Inr ()" using rename_rootfs [OF dir s2(1) _ r3] s2(2) that by blast
    have rm: "store_ok dir (snd (Remove ?b t))" if "store_ok dir t" for t using store_result [OF valid_store_Remove that] .
    have wm: "store_ok dir (snd (wrap RootfsMeta (WriteMetadata enc dir img (''sha256:'' @ e) (estimateRootfsSize img)) s3))"
      if "br = Inr ()" using store_result [OF valid_wrap [OF WriteMetadata_store [OF f(7)]] s3 [OF that]] .
    show ?thesis using bd p Inr b2 r3 rm [OF s2(1)] rm s3 wm
      by (auto simp: build_def Let_def split: sum.splits)
  qed
qed

lemma chain_blobname: "ComputeChainID ds = Inr c \<Longrightarrow> \<exists>e. c = ''sha256:'' @ e \<and> blobname e"
  unfolding ComputeChainID_def using blobname_digest by (auto split: if_splits option.splits)

lemma EnsureRootfs_store:
  assumes dir: "cleaned dir" "rooted dir" and b: "builder_keeps dir builder" and s: "store_ok dir s"
    and e: "EnsureRootfs builder enc env dir img s = Some (r, s')"
  shows "store_ok dir s'"
proof (cases "ComputeChainID (rf_DiffIDs (ic_RootFS (pi_Config img)))")
  case (Inl x)
  then show ?thesis using e s by (simp add: EnsureRootfs_def)
next
  case (Inr c)
  obtain n where n: "c = ''sha256:'' @ n" "blobname n" using chain_blobname [OF Inr] by blast
  note f = rootfs_files [OF dir n(2)]
  have st: "store_ok dir t'" if "Stat p t = (x, t')" "store_ok dir t" for p t x t'
    using store_readonly [OF readonly_Stat that(2), of p] that(1) by simp
  have "\<not> blobname (n @ ''.lock'')" by (rule dotted_not_blob) simp
  then have ac: "store_ok dir t'" if "Acquire env (LockPath dir c) t = Some (x, t')" "store_ok dir t" for t x t'
    using Acquire_store [OF f(5) _ that(2)] that(1) f(6) n(1) by simp
  have bd: "store_ok dir t'" if "build builder enc dir img c (RootfsPath dir c) t = Some (x, t')" "store_ok dir t" for t x t'
    using build_store [OF dir n(2) b that(2)] that(1) n(1) by simp
  show ?thesis using e s unfolding EnsureRootfs_def Inr Let_def
    by (auto split: prod.splits sum.splits option.splits dest!: st ac bd intro: Close_store)
qed

section \<open>Preparing an image\<close>

lemma Init_store:
  assumes "cleaned dir" "rooted dir"
  shows "valid (store_ok dir) (Init dir) (\<lambda>_. store_ok dir) (store_ok dir)"
proof -
  have mk: "valid (store_ok dir) (makeDirs ds) (\<lambda>_. store_ok dir) (store_ok dir)" if "list_all (\<lambda>d. cleaned d \<and> rooted d) ds" for ds
    using that by (induction ds) (auto intro!: valid_ret valid_andThen [OF valid_wrap [OF valid_store_MkdirAll]])
  have j: "cleaned (Join (dir # es)) \<and> rooted (Join (dir # es))" if "list_all plain es" for es
    using Join_plain [OF cleaned_nonempty [OF assms(1)] that] assms(2) by simp
  show ?thesis unfolding Init_def BlobDir_def by (rule mk) (simp add: j plain_def)
qed

lemma exists_readonly: "readonly (exists p)"
  unfolding exists_def by (intro readonly_andThen readonly_attempt readonly_Stat readonly_ret)

lemma readonly_ReadJSON: "readonly (ReadJSON decode p)"
  unfolding ReadJSON_def
  by (intro readonly_andThen readonly_wrap readonly_ReadFile) (auto intro: readonly_ret readonly_throw split: option.split)

lemma preparedFromCache_readonly: "readonly (preparedFromCache env dir ref platform)"
  unfolding preparedFromCache_def Let_def
  by (auto intro!: readonly_andThen readonly_wrap readonly_ReadJSON readonly_ReadFile readonly_Stat readonly_ret readonly_throw
      split: option.split sum.split)

text \<open>
  Preparing an image keeps the content store good, whatever fails on the way: every blob still has the
  digest it is named by, and the store has no symbolic links.  This relies on the registry's client naming blobs by plain digests and
  on the builder leaving the rest of the store alone.
\<close>

theorem PrepareImage_keeps_store:
  assumes dir: "cleaned (StoreDir cfg)" "rooted (StoreDir cfg)"
    and reg: "\<And>x p img. remote_Image (env_registry env) x p = Some img \<Longrightarrow> wf_image img"
    and b: "builder_keeps (StoreDir cfg) (env_builder env)"
    and s: "store_ok (StoreDir cfg) s" and p: "PrepareImage env cfg ref platform s = Some (r, s')"
  shows "store_ok (StoreDir cfg) s'"
proof -
  let ?d = "StoreDir cfg"
  have i: "store_ok ?d t'" if "Init ?d t = (x, t')" "store_ok ?d t" for t x t'
    using valid_both [OF Init_store [OF dir] that(2,1)] .
  have c: "store_ok ?d t'" if "preparedFromCache env ?d ref q t = (x, t')" "store_ok ?d t" for q t x t'
    using store_readonly [OF preparedFromCache_readonly [where env = env and dir = ?d and ref = ref and platform = q] that(2)] that(1) by simp
  have pull: "store_ok ?d t'" if "Pull (env_registry env) (env_json env) ?d ref q t = (x, t')" "store_ok ?d t" for q t x t'
  proof -
    have "valid (store_ok ?d) (Pull (env_registry env) (env_json env) ?d ref q) (\<lambda>_. store_ok ?d) (store_ok ?d)"
      by (rule valid_conseq [OF Pull_keeps_store [OF dir]]) (use reg in auto)
    then show ?thesis using that by (auto intro: valid_both)
  qed
  have e: "store_ok ?d t'" if "EnsureRootfs (env_builder env) (env_encMeta env) (env_lock env) ?d im t = Some (x, t')" "store_ok ?d t" for im t x t'
    using EnsureRootfs_store [OF dir b that(2,1)] .
  show ?thesis using p s unfolding PrepareImage_def pullAndBuild_def Let_def
    by (auto split: if_splits prod.splits sum.splits option.splits dest!: i c pull e)
qed

section \<open>Preparing returns\<close>

lemma Acquire_answered: "\<exists>k. flock_try env k \<noteq> WouldBlock \<or> lock_cancelled env k \<Longrightarrow> \<exists>r s'. Acquire env p s = Some (r, s')"
proof -
  assume "\<exists>k. flock_try env k \<noteq> WouldBlock \<or> lock_cancelled env k"
  then have "\<exists>k. lockRound env p k \<noteq> None" by (auto simp: lockRound_def split: flock_answer.splits)
  then have "\<exists>x. poll (lockRound env p) 0 = Some x" unfolding poll_returns_iff .
  then obtain x where "poll (lockRound env p) 0 = Some x" ..
  then show ?thesis unfolding Acquire_def by (simp add: case_prod_beta split: sum.split)
qed

text \<open>Preparing an image returns whenever the lock is answered or the caller gives up, and the builder returns.\<close>

theorem PrepareImage_returns:
  assumes l: "\<exists>k. flock_try (env_lock env) k \<noteq> WouldBlock \<or> lock_cancelled (env_lock env) k"
    and b: "\<And>img p sz t. env_builder env img p sz t \<noteq> None"
  shows "\<exists>r s'. PrepareImage env cfg ref platform s = Some (r, s')"
proof -
  have bd: "build (env_builder env) enc d img c p t = None \<Longrightarrow> False" for enc d img c p t
    using b [of img "RootfsBuildingPath d c" "estimateRootfsSize img" "snd (prepareDirs p (RootfsBuildingPath d c) t)"]
    unfolding build_def Let_def by (auto split: prod.splits sum.splits option.splits)
  have ac: "Acquire (env_lock env) p t = None \<Longrightarrow> False" for p t
    using Acquire_answered [OF l, of p t] by auto
  have en: "EnsureRootfs (env_builder env) (env_encMeta env) (env_lock env) d img t = None \<Longrightarrow> False" for d img t
    unfolding EnsureRootfs_def Let_def
    by (auto split: prod.splits sum.splits option.splits dest: bd ac)
  have "PrepareImage env cfg ref platform s = None \<Longrightarrow> False"
    unfolding PrepareImage_def pullAndBuild_def Let_def
    by (auto split: if_splits prod.splits sum.splits option.splits dest: en)
  then show ?thesis by (cases "PrepareImage env cfg ref platform s") auto
qed

section \<open>A builder that makes an empty file\<close>

definition empty_builder :: image_builder where
  "empty_builder img p sz s = (case OpenExcl p 420 s of (Inl e, s') \<Rightarrow> Some (Inl FsError, s') | (Inr i, s') \<Rightarrow> Some (Inr (), s'))"

lemma empty_builder_keeps:
  assumes dir: "cleaned dir" "rooted dir"
  shows "builder_keeps dir empty_builder"
  unfolding builder_keeps_def
proof (intro allI impI)
  fix img :: PulledImage and e sz s r s'
  let ?p = "buildingPath dir e"
  assume e: "blobname e" and s: "store_ok dir s" and b: "empty_builder img ?p sz s = Some (r, s')"
  note f = rootfs_files [OF dir e]
  have "\<not> blobname (e @ ''.ext4.tmp'')" by (rule dotted_not_blob) simp
  then have t: "temp_of dir ?p ?p" using f(3,4) by (simp add: temp_of_def store_file_def suffix_def)
  obtain x s1 where o': "OpenExcl ?p 420 s = (x, s1)" by fastforce
  then have s': "s' = s1" using b by (auto simp: empty_builder_def split: sum.splits)
  show "store_ok dir s' \<and> (r = Inr () \<longrightarrow> \<not> is_dir (ent s' (comps ?p)))"
  proof (cases x)
    case (Inr i)
    then have "draft dir ?p i '''' s1" using valid_Inr [OF valid_store_OpenExcl [OF f(3) t] s] o' by blast
    then show ?thesis by (simp add: s' draft_def)
  next
    case (Inl err)
    then have "store_ok dir s'" "r = Inl FsError" using valid_Inl [OF valid_store_OpenExcl [OF f(3) t] s] o' s' b
      by (auto simp: empty_builder_def)
    then show ?thesis by simp
  qed
qed

definition prepare_env :: "string runtime_env" where
  "prepare_env = \<lparr>env_registry = demo_registry, env_json = demo_json, env_builder = empty_builder, env_encMeta = (\<lambda>_. Some ''{}''),
     env_decManifest = (\<lambda>_. None), env_lock = busy_then_free\<rparr>"

theorem PrepareImage_keeps_store_witness:
  "\<exists>r s'. PrepareImage prepare_env (Default\<lparr>StoreDir := ''/var/s''\<rparr>) ''alpine'' (cfg_Platform Default) empty_os = Some (r, s') \<and> store_ok ''/var/s'' s'"
proof -
  let ?cfg = "Default\<lparr>StoreDir := ''/var/s''\<rparr>"
  have dir: "cleaned (StoreDir ?cfg)" "rooted (StoreDir ?cfg)" using demo_dir by auto
  have wf: "wf_image img" if "remote_Image (env_registry prepare_env) x p = Some img" for x p img
    using that by (auto simp: prepare_env_def demo_registry_def wf_image_def wf_layer_def demo_layer_def sha_plain)
  have b: "builder_keeps (StoreDir ?cfg) (env_builder prepare_env)" using empty_builder_keeps [OF dir] by (simp add: prepare_env_def)
  have s: "store_ok (StoreDir ?cfg) empty_os" using empty_os_ok by simp
  have "\<exists>r s'. PrepareImage prepare_env ?cfg ''alpine'' (cfg_Platform Default) empty_os = Some (r, s')"
  proof (rule PrepareImage_returns)
    show "\<exists>k. flock_try (env_lock prepare_env) k \<noteq> WouldBlock \<or> lock_cancelled (env_lock prepare_env) k"
      by (rule exI [of _ 3]) (simp add: prepare_env_def busy_then_free_def)
    show "env_builder prepare_env img p sz t \<noteq> None" for img p sz t
      by (simp add: prepare_env_def empty_builder_def split: prod.split sum.split)
  qed
  then obtain r s' where p: "PrepareImage prepare_env ?cfg ''alpine'' (cfg_Platform Default) empty_os = Some (r, s')" by blast
  have "store_ok (StoreDir ?cfg) s'" by (rule PrepareImage_keeps_store [OF dir wf b s p])
  then show ?thesis using p by simp
qed

end
