(* ===== verification/Daemon.thy ===== *)
theory Daemon
  imports ApiSafety ImageSafety ServeMux
begin

text \<open>
  The daemon as a whole: the route table of \<open>internal/server/server.go\<close>, every operation as one request
  against the host, and the states that any sequence of requests can reach.  Requests run one after the
  other here; the interleaving of requests for the same image is the subject of \<open>RootfsProtocol\<close>.
\<close>

section \<open>Routes\<close>

datatype operation = OpHealth | OpPrepareImage | OpListImages | OpDeleteImage
  | OpCreateSnapshot | OpListSnapshots | OpDeleteSnapshot | OpRun

definition Register :: "(operation \<times> string \<times> string) list" where
  "Register =
     [(OpHealth, ''GET'', ''/healthz''),
      (OpPrepareImage, ''POST'', ''/v1/images/prepare''),
      (OpListImages, ''GET'', ''/v1/images''),
      (OpDeleteImage, ''DELETE'', ''/v1/images/{chain_id}''),
      (OpCreateSnapshot, ''POST'', ''/v1/snapshots''),
      (OpListSnapshots, ''GET'', ''/v1/snapshots''),
      (OpDeleteSnapshot, ''DELETE'', ''/v1/snapshots/{chain_id}''),
      (OpRun, ''POST'', ''/v1/runs'')]"

definition Handler :: "string \<Rightarrow> string \<Rightarrow> operation routing" where
  "Handler = mux Register"

section \<open>Requests\<close>

text \<open>
  A request after the framework has decoded it: \<open>body\<close> is the decoded body, if the operation has one that
  decodes.  Where it does not, the framework answers 422 without calling the handler.
\<close>

datatype input_body = NoBody | RefBody string | TasksBody ApiRunRequest

datatype api_request = HealthReq | PrepareReq string | ListImagesReq | DeleteImageReq string
  | CreateSnapshotReq string | ListSnapshotsReq | DeleteSnapshotReq string | RunReq ApiRunRequest

datatype api_output = HealthOut bool | ImageOut ManagerImage | ImagesOut "ManagerImage list" | DeletedOut bool
  | SnapshotOut SnapshotArtifact | SnapshotsOut "SnapshotInfo list" | RunOut RunOutput

fun requestOf :: "operation \<Rightarrow> string list \<Rightarrow> input_body \<Rightarrow> api_request option" where
  "requestOf OpHealth [] b = Some HealthReq"
| "requestOf OpPrepareImage [] (RefBody ref) = Some (PrepareReq ref)"
| "requestOf OpListImages [] b = Some ListImagesReq"
| "requestOf OpDeleteImage [c] b = Some (DeleteImageReq c)"
| "requestOf OpCreateSnapshot [] (RefBody ref) = Some (CreateSnapshotReq ref)"
| "requestOf OpListSnapshots [] b = Some ListSnapshotsReq"
| "requestOf OpDeleteSnapshot [c] b = Some (DeleteSnapshotReq c)"
| "requestOf OpRun [] (TasksBody r) = Some (RunReq r)"
| "requestOf _ _ _ = None"

text \<open>What a request meets: the manager's environments, the decoder of metadata, and whether its client has gone.\<close>

record 'ref request_env =
  re_env :: "'ref manager_env"
  re_snapEnv :: "'ref manager_env"
  re_decode :: "string \<Rightarrow> Metadata option"
  re_cancelled :: bool
  re_arch :: string

fun handle :: "'ref request_env \<Rightarrow> ApiServer \<Rightarrow> api_request \<Rightarrow> (api_error, api_output) hio" where
  "handle e srv HealthReq = vret (HealthOut health)"
| "handle e srv (PrepareReq ref) = vbind (prepareImage (re_env e) (re_arch e) srv ref) (\<lambda>i. vret (ImageOut i))"
| "handle e srv ListImagesReq = vbind (listImages (re_decode e) srv (re_cancelled e)) (\<lambda>is. vret (ImagesOut is))"
| "handle e srv (DeleteImageReq c) = vbind (deleteImage srv (re_cancelled e) c) (\<lambda>b. vret (DeletedOut b))"
| "handle e srv (CreateSnapshotReq ref) = vbind (createSnapshot (re_env e) (re_arch e) srv ref) (\<lambda>a. vret (SnapshotOut a))"
| "handle e srv ListSnapshotsReq = vbind (listSnapshots srv (re_cancelled e)) (\<lambda>is. vret (SnapshotsOut is))"
| "handle e srv (DeleteSnapshotReq c) = vbind (deleteSnapshot srv (re_cancelled e) c) (\<lambda>b. vret (DeletedOut b))"
| "handle e srv (RunReq r) = vbind (run (re_env e) (re_snapEnv e) (re_arch e) srv r) (\<lambda>out. vret (RunOut out))"

fun statusOf :: "api_error + api_output \<Rightarrow> nat" where
  "statusOf (Inl (BadRequest e)) = 400"
| "statusOf (Inl (InternalError e)) = 500"
| "statusOf (Inr out) = 200"

definition ServeHTTP :: "'ref request_env \<Rightarrow> ApiServer \<Rightarrow> string \<Rightarrow> string \<Rightarrow> input_body \<Rightarrow> host \<Rightarrow> (nat \<times> host) option" where
  "ServeHTTP e srv meth path body h =
     (case Handler meth path of
        NoRoute \<Rightarrow> Some (404, h)
      | MethodNotAllowed \<Rightarrow> Some (405, h)
      | Routed op vs \<Rightarrow>
          (case requestOf op vs body of
             None \<Rightarrow> Some (422, h)
           | Some req \<Rightarrow> map_option (\<lambda>(r, h'). (statusOf r, h')) (handle e srv req h)))"

text \<open>The states of the host after any number of requests, with the status that each of them got.\<close>

inductive serves :: "ApiServer \<Rightarrow> ('ref request_env \<times> string \<times> string \<times> input_body \<times> nat) list \<Rightarrow> host \<Rightarrow> host \<Rightarrow> bool" for srv where
  none: "serves srv [] h h"
| request: "ServeHTTP e srv meth path body h = Some (st, h1) \<Longrightarrow> serves srv ls h1 h2 \<Longrightarrow>
    serves srv ((e, meth, path, body, st) # ls) h h2"

section \<open>Routing\<close>

lemma Register_unambiguous: "unambiguous Register"
  by (rule apart_pairs_unambiguous) code_simp

text \<open>A request reaches an operation exactly when one of the registered patterns matches it.\<close>

lemma Handler_iff:
  "Handler meth path = Routed op vs \<longleftrightarrow>
    (\<exists>m pat. (op, m, pat) \<in> set Register \<and> methodMatches m meth \<and> matchSegs (Split slash pat) (Split slash path) = Some vs)"
  unfolding Handler_def using mux_sound mux_complete [OF Register_unambiguous] by metis

text \<open>Safe methods reach only the operations that look.\<close>

lemma Handler_GET:
  assumes "Handler meth path = Routed op vs" "meth = ''GET'' \<or> meth = ''HEAD''"
  shows "op \<in> {OpHealth, OpListImages, OpListSnapshots}"
  using assms unfolding Handler_def mux_def Register_def methodMatches_def
  by (elim disjE) (simp_all split: if_splits)

section \<open>Operations that only look\<close>

lemma readonly_SnapshotExists: "readonly (SnapshotExists a)"
  unfolding SnapshotExists_def
  by (auto intro!: readonly_andThen exists_readonly readonly_ret split: option.split)

lemma readonly_imagesOf: "readonly (imagesOf decode d es)"
  by (induction es rule: imagesOf.induct) (auto intro!: readonly_andThen readonly_wrap readonly_ReadJSON readonly_ret)

lemma readonly_snapshotsOf: "readonly (snapshotsOf d seen es)"
  by (induction es arbitrary: seen rule: list.induct)
    (auto simp: Let_def intro!: readonly_andThen readonly_SnapshotExists readonly_ret)

lemma readonly_listing:
  "readonly (ListImages decode cfg c)" "readonly (ListSnapshots c d)"
  unfolding ListImages_def ListSnapshots_def
  by (auto intro!: readonly_andThen readonly_attempt readonly_ReadDir readonly_imagesOf readonly_snapshotsOf readonly_ret readonly_throw
      split: sum.split)

lemma readonly_hos: "readonly m \<Longrightarrow> \<exists>r t. hos f m h = Some (r, h\<lparr>h_os := (h_os h)\<lparr>tick := t\<rparr>\<rparr>)"
  unfolding hos_def readonly_def by (cases "m (h_os h)") (fastforce split: sum.split)

section \<open>What requests do to VMs\<close>

lemma snapshot_event_api:
  assumes "Validate cfg = None" "0 < VCPUCount (cf_Machine cfg)" "0 < MemSizeMiB (cf_Machine cfg)" "dir = cf_StoreDir cfg"
    and "job_allowed (cf_Limits cfg) j"
  shows "list_all (run_event dir (cf_Machine cfg) [j]) es \<Longrightarrow> list_all (api_event cfg) es"
proof -
  have "run_event dir (cf_Machine cfg) [j] e \<Longrightarrow> api_event cfg e" for e
    using assms by (cases e) (auto simp: run_event_def api_event_def MachineConfiguration_def Validate_def split: if_splits)
  then show "list_all (run_event dir (cf_Machine cfg) [j]) es \<Longrightarrow> list_all (api_event cfg) es" by (auto simp: list_all_iff)
qed

lemma some_job_allowed: "\<exists>j. job_allowed l j"
  using tasksToJobs_allowed [of l "[]" "''/workspace''"] by (force simp: tasksToJobs_def)

lemma createSnapshot_served:
  assumes "server_New arch cfg = Inr srv"
  shows "adds (served_events (as_Config srv)) (createSnapshot env arch' srv ref)"
proof (cases "ref = ''''")
  case False
  note s = server_New_cases [OF assms]
  obtain j where j: "job_allowed (cf_Limits (as_Config srv)) j" using some_job_allowed by blast
  have d: "StoreDir (as_Manager srv) = cf_StoreDir (as_Config srv)" using s manager_StoreDir by simp
  have "adds (served_events (as_Config srv)) (managerCreateSnapshot env (as_Manager srv) req)"
    if "cs_MachineConfig req = cf_Machine (as_Config srv)" "cs_Jailer req = FirecrackerJailer (as_Config srv)"
      and "sa_MemPath (cs_Snapshot req) = ''''" "cs_SnapshotDir req = cf_SnapshotDir (as_Config srv)" for req
  proof -
    have "adds (list_all (restores (artifact_of (cf_SnapshotDir (as_Config srv))) (cs_Jailer req))) (managerCreateSnapshot env (as_Manager srv) req)"
      unfolding conjunct2 [OF conjunct2 [OF s]] using that(3,4) by (intro snapshot_restores) simp_all
    then show ?thesis
      using adds_mono [OF snapshot_events [OF that(1)] snapshot_event_api [OF _ _ _ d j]] s applyDefaults_machine [of cfg] that(2)
      by (intro served_eventsI managerCreateSnapshot_balanced snapshot_jailed) (auto simp: api_restores_def)
  qed
  then show ?thesis using False by (auto simp: createSnapshot_def Let_def intro!: served.adds_vlift)
qed (simp add: createSnapshot_def Let_def served.adds_vthrow)

lemma handle_served:
  assumes "server_New arch cfg = Inr srv"
  shows "adds (served_events (as_Config srv)) (handle e srv req)"
  using run_served [OF assms] createSnapshot_served [OF assms]
  by (cases req)
    (auto simp: prepareImage_def listImages_def deleteImage_def listSnapshots_def deleteSnapshot_def
      intro!: served.adds_manager served.adds_prepare)

lemma ServeHTTP_served:
  assumes "server_New arch cfg = Inr srv" "ServeHTTP e srv meth path body h = Some (st, h')"
  shows "\<exists>es. h_log h' = h_log h @ es \<and> served_events (as_Config srv) es"
proof -
  consider "h' = h" | req r where "handle e srv req h = Some (r, h')"
    using assms(2) by (auto simp: ServeHTTP_def split: routing.splits option.splits)
  then show ?thesis
  proof cases
    case 1
    then show ?thesis using served.none by auto
  next
    case 2
    then show ?thesis using handle_served [OF assms(1)] unfolding adds_def by blast
  qed
qed

section \<open>Properties\<close>


text \<open>
  C17.  \<open>GET\<close> and \<open>HEAD\<close> are safe: whatever path is asked for, such a request is always answered and changes nothing on the
  host, neither the file system nor a VM.
\<close>

theorem GET_changes_nothing:
  "list_all (\<lambda>meth. \<exists>st t. ServeHTTP e srv meth path body h = Some (st, h\<lparr>h_os := (h_os h)\<lparr>tick := t\<rparr>\<rparr>)) [''GET'', ''HEAD'']"
proof -
  have q: "\<exists>t. h\<lparr>h_os := (h_os h)\<lparr>tick := t\<rparr>\<rparr> = h" by (rule exI [of _ "tick (h_os h)"]) simp
  have answered: "\<exists>st t. Some (k, h) = Some (st, h\<lparr>h_os := (h_os h)\<lparr>tick := t\<rparr>\<rparr>)" for k :: nat
    using q by (metis (no_types))
  have l: "\<exists>r t. handle e srv req h = Some (r, h\<lparr>h_os := (h_os h)\<lparr>tick := t\<rparr>\<rparr>)"
    if "req \<in> {HealthReq, ListImagesReq, ListSnapshotsReq}" for req
    using that answered readonly_hos [OF readonly_listing(1), of InternalError "re_decode e" "as_Manager srv" "re_cancelled e" h]
      readonly_hos [OF readonly_listing(2), of InternalError "re_cancelled e" "cf_SnapshotDir (as_Config srv)" h]
    by (elim insertE) (auto simp: listImages_def listSnapshots_def vbind_def vret_def split: sum.split)
  have "\<exists>st t. ServeHTTP e srv meth path body h = Some (st, h\<lparr>h_os := (h_os h)\<lparr>tick := t\<rparr>\<rparr>)"
    if m: "meth = ''GET'' \<or> meth = ''HEAD''" for meth
  proof (cases "Handler meth path")
    case (Routed op vs)
    from Handler_GET [OF this m] have "requestOf op vs body = None \<or> (\<exists>req \<in> {HealthReq, ListImagesReq, ListSnapshotsReq}. requestOf op vs body = Some req)"
      by (cases "(op, vs, body)" rule: requestOf.cases) auto
    then show ?thesis
    proof (elim disjE bexE)
      assume "requestOf op vs body = None"
      then show ?thesis using Routed answered by (simp add: ServeHTTP_def)
    next
      fix req assume "req \<in> {HealthReq, ListImagesReq, ListSnapshotsReq}" "requestOf op vs body = Some req"
      moreover from this(1) obtain r t where "handle e srv req h = Some (r, h\<lparr>h_os := (h_os h)\<lparr>tick := t\<rparr>\<rparr>)" using l by blast
      ultimately show ?thesis using Routed by (auto simp: ServeHTTP_def)
    qed
  qed (use answered in \<open>simp_all add: ServeHTTP_def\<close>)
  then show ?thesis by simp
qed


section \<open>A daemon that answers two requests\<close>

definition daemon_cfg :: ServerConfig where
  "daemon_cfg = DefaultConfig\<lparr>cf_StoreDir := ''/var/s''\<rparr>"

definition image_url :: string where
  "image_url = ''/v1/images/'' @ mgr_chain"

definition daemon_requests :: "'ref request_env \<Rightarrow> ('ref request_env \<times> string \<times> string \<times> input_body \<times> nat) list" where
  "daemon_requests e = [(e\<lparr>re_cancelled := False\<rparr>, ''DELETE'', image_url, NoBody, 200), (e, ''HEAD'', ''/healthz'', NoBody, 200)]"

lemma daemon_starts:
  "\<exists>srv. server_New ''amd64'' daemon_cfg = Inr srv \<and> StoreDir (as_Manager srv) = ''/var/s''"
  by (simp add: server_New_def daemon_cfg_def DefaultConfig_def applyDefaults_def Validate_def Let_def manager_New_def runtime_New_def
      RuntimeConfigOf_def orString_def)

lemma daemon_routes:
  "Handler ''DELETE'' image_url = Routed OpDeleteImage [mgr_chain]" "Handler ''HEAD'' ''/healthz'' = Routed OpHealth []"
  by code_simp+

lemma daemon_deletes:
  assumes "StoreDir (as_Manager srv) = ''/var/s''"
  shows "\<exists>h'. ServeHTTP (e\<lparr>re_cancelled := False\<rparr>) srv ''DELETE'' image_url NoBody \<lparr>h_os = mgr_store, h_log = []\<rparr> = Some (200, h')"
proof -
  have "DeleteImage (as_Manager srv) False mgr_chain = DeleteImage mgr_cfg False mgr_chain"
    using assms by (simp add: DeleteImage_def split: option.split)
  moreover have "fst (DeleteImage mgr_cfg False mgr_chain mgr_store) = Inr ()" by code_simp
  ultimately show ?thesis
    by (cases "DeleteImage mgr_cfg False mgr_chain mgr_store") (simp add: ServeHTTP_def daemon_routes deleteImage_def hos_def vbind_def vret_def)
qed


end
