(* ===== verification/DaemonStore.thy ===== *)
theory DaemonStore
  imports Daemon
begin

text \<open>
  The content store under the whole daemon: every operation on the host, whatever fails in it, keeps the store good, so that
  it is good in every state that the requests of a daemon without a jailer reach.  With a jailer the runner also makes hard links and log files, which the
  invariant of the store does not cover.
\<close>

section \<open>Programs that keep a property of the file system\<close>

definition keeps_fs :: "(os \<Rightarrow> bool) \<Rightarrow> (host, 'e, 'a) prog \<Rightarrow> bool" where
  "keeps_fs P m = (\<forall>h r h'. m h = Some (r, h') \<longrightarrow> P (h_os h) \<longrightarrow> P (h_os h'))"

lemma keepsD: "keeps_fs P m \<Longrightarrow> m h = Some (r, h') \<Longrightarrow> P (h_os h) \<Longrightarrow> P (h_os h')"
  unfolding keeps_fs_def by blast

lemma keeps_silent [intro!]:
  "keeps_fs P (vret a)" "keeps_fs P (vthrow e)" "keeps_fs P (require b e)" "keeps_fs P (emit ev)" "keeps_fs P (\<lambda>h. None)"
  "keeps_fs P (\<lambda>h. Some (r, h))" "keeps_fs P (waitForSocket vm)"
  by (auto simp: keeps_fs_def vret_def vthrow_def require_def emit_def waitForSocket_def split: if_splits option.splits bool.splits)

lemma keeps_vbind [intro!]: "keeps_fs P m \<Longrightarrow> (\<And>a. keeps_fs P (k a)) \<Longrightarrow> keeps_fs P (vbind m k)"
  unfolding keeps_fs_def vbind_def by (fastforce split: option.splits prod.splits sum.splits)

lemma keeps_vdefer [intro!]: "keeps_fs P c \<Longrightarrow> keeps_fs P m \<Longrightarrow> keeps_fs P (vdefer c m)"
  unfolding keeps_fs_def vdefer_def by (fastforce split: option.splits prod.splits)

lemma keeps_vlift [intro!]: "keeps_fs P m \<Longrightarrow> keeps_fs P (vlift f m)"
  unfolding keeps_fs_def vlift_def by (fastforce split: option.splits prod.splits sum.splits)

lemma keeps_hos [intro!]: "valid P m (\<lambda>_. P) P \<Longrightarrow> keeps_fs P (hos f m)"
  unfolding keeps_fs_def hos_def by (auto split: prod.splits sum.splits dest: valid_both)

lemma keeps_vos [intro!]: "valid P m (\<lambda>_. P) P \<Longrightarrow> keeps_fs P (vos m)"
  unfolding keeps_fs_def vos_def by (auto split: prod.splits sum.splits dest: valid_both)

lemma keeps_vdrop [intro!]: "valid P m (\<lambda>_. P) P \<Longrightarrow> keeps_fs P (vdrop m)"
  unfolding keeps_fs_def vdrop_def by (auto simp: snd_def split: prod.splits dest: valid_both)

lemma keeps_blocking [intro!]: "(\<And>s r s'. m s = Some (r, s') \<Longrightarrow> P s \<Longrightarrow> P s') \<Longrightarrow> keeps_fs P (blocking f m)"
  unfolding keeps_fs_def blocking_def by (fastforce split: option.splits prod.splits sum.splits)

lemma keeps_launch [intro!]: "keeps_fs P m \<Longrightarrow> keeps_fs P (launch vm cfg m)"
  unfolding launch_def by auto

lemma keeps_withProcess [intro!]: "keeps_fs P m \<Longrightarrow> keeps_fs P (withProcess cmd m)"
  unfolding withProcess_def by auto

section \<open>Calls of the runner\<close>

lemma valid_store_readonly: "readonly m \<Longrightarrow> valid (store_ok dir) m (\<lambda>_. store_ok dir) (store_ok dir)"
  by (rule valid_readonly) auto

lemma valid_store_RemoveAll: "valid (store_ok dir) (RemoveAll p) (\<lambda>_. store_ok dir) (store_ok dir)"
  unfolding RemoveAll_def
  by (rule valid_sysop) (auto intro: store_del_tree stable_tick [OF stable_store_ok] split: sum.splits if_splits)

lemma valid_store_Mkdir:
  assumes "rooted p"
  shows "valid (store_ok dir) (Mkdir p m) (\<lambda>_. store_ok dir) (store_ok dir)"
proof -
  have "store_ok dir s'" if s: "store_ok dir s" and m: "Mkdir p m s = (r, s')" for s s' and r :: "errno + unit"
  proof (rule grown_store_ok [OF _ s])
    show "grown s s'" by (rule valid_both [OF valid_Mkdir_grown grown_refl m])
    show "tree s'" by (rule valid_both [OF valid_touches_tree [OF touches_Mkdir [of True] assms] store_okD(1) [OF s] m])
  qed
  then show ?thesis by (intro validI)
qed

lemma valid_store_MkdirTemp:
  assumes "rooted d"
  shows "valid (store_ok dir) (MkdirTemp_try n d pre) (\<lambda>_. store_ok dir) (store_ok dir)"
proof (induction n)
  case (Suc n)
  have r: "rooted (d @ x)" for x using assms by (cases d) (auto simp: rooted_def)
  have "valid (\<lambda>s. store_ok dir s \<and> rooted p) (attempt (Mkdir p 448)) (\<lambda>_. store_ok dir) (store_ok dir)" for p
    using valid_attempt_same [OF valid_store_Mkdir, of p dir 448 "store_ok dir"] by (cases "rooted p") (auto simp: valid_def)
  with Suc show ?case
    unfolding MkdirTemp_try.simps
    by (intro valid_andThen [OF valid_reads, where Q = "\<lambda>p s. store_ok dir s \<and> rooted p"] valid_andThen)
      (auto intro!: valid_ret valid_throw simp: r split: sum.split)
qed (auto intro: valid_throw)

lemma rooted_Join: "rooted d \<Longrightarrow> cleaned (Join (d # es)) \<and> rooted (Join (d # es))"
proof -
  assume d: "rooted d"
  then have j: "Join (d # es) = Clean (join_with ''/'' (d # es))" by (simp add: Join_def rooted_def)
  have "rooted (join_with ''/'' (d # es))" using d by (cases es) (auto simp: rooted_def)
  then show ?thesis by (simp add: j)
qed

lemma rooted_paths:
  "rooted d \<Longrightarrow> cleaned (Join (d # es))" "rooted d \<Longrightarrow> rooted (Join (d # es))" "cleaned d \<Longrightarrow> cleaned (Dir d)"
  "cleaned d \<Longrightarrow> rooted d \<Longrightarrow> rooted (Dir d)"
  by (simp_all add: rooted_Join Dir_cleaned)

section \<open>The runner\<close>

lemma keeps_startFresh:
  assumes "rooted (sv_StoreDir req)" "sv_Jailer req = None"
  shows "keeps_fs (store_ok dir) (startFresh vm req)"
  unfolding startFresh_def runJobsInVM_def Let_def assms(2) option.case
  by (auto intro!: valid_store_MkdirAll valid_store_Remove rooted_paths assms split: race.split option.split prod.split)

lemma keeps_startFromSnapshot:
  assumes "rooted (vm_TempDir vm)" "sv_Jailer req = None"
  shows "keeps_fs (store_ok dir) (startFromSnapshot vm req snap)"
  unfolding startFromSnapshot_def restoredRun_def Let_def assms(2) option.case MkdirTemp_def
  by (auto intro!: valid_store_MkdirTemp valid_store_RemoveAll valid_store_Remove assms split: option.split prod.split)

lemma keeps_StartVM:
  assumes "rooted (sv_StoreDir req)" "rooted (vm_TempDir vm)" "sv_Jailer req = None"
  shows "keeps_fs (store_ok dir) (StartVM vm req)"
proof -
  have d: "sv_StoreDir (startDefaults vm req) = sv_StoreDir req" "sv_Jailer (startDefaults vm req) = None"
    using assms(1,3) by (auto simp: startDefaults_def rooted_def)
  show ?thesis
    unfolding StartVM_def Let_def
    by (auto intro!: keeps_startFresh keeps_startFromSnapshot simp: d assms(1,2) split: option.split)
qed

definition rooted_artifact :: "SnapshotArtifact \<Rightarrow> bool" where
  "rooted_artifact a = (cleaned (sa_MemPath a) \<and> rooted (sa_MemPath a) \<and> cleaned (sa_SnapshotPath a) \<and> rooted (sa_SnapshotPath a) \<and>
     (sa_WorkspaceDir a = '''' \<or> cleaned (sa_WorkspaceDir a) \<and> rooted (sa_WorkspaceDir a)))"

lemma mkArtifact_rooted: "rooted d \<Longrightarrow> rooted_artifact (mkArtifact d c)"
  by (simp add: rooted_artifact_def mkArtifact_def Let_def rooted_Join)

lemma keeps_CreateReadySnapshot:
  assumes "rooted (sq_StoreDir req)" "sq_Jailer req = None" "rooted_artifact (sq_Snapshot req)"
    and "\<And>m p s. store_ok dir s \<Longrightarrow> store_ok dir (snd (vm_CreateSnapshot vm m p s))"
  shows "keeps_fs (store_ok dir) (CreateReadySnapshot vm req)"
proof -
  have wait: "keeps_fs (store_ok dir) (\<lambda>h. case waitForAgent f g of None \<Rightarrow> None | Some None \<Rightarrow> Some (Inr (), h) | Some (Some e) \<Rightarrow> Some (Inl VmCtx, h))" for f g
    by (auto simp: keeps_fs_def split: option.splits)
  have snap: "keeps_fs (store_ok dir) (\<lambda>h. case vm_CreateSnapshot vm m p (h_os h) of
      (written, s) \<Rightarrow> Some (if written then Inr () else Inl VmSnapshot, h\<lparr>h_os := s\<rparr>))" for m p
    using assms(4) [of _ m p] by (auto simp: keeps_fs_def split: prod.splits) (metis snd_conv)
  have d: "sq_StoreDir (snapshotDefaults vm req) = sq_StoreDir req" "sq_Jailer (snapshotDefaults vm req) = None"
    "sq_Snapshot (snapshotDefaults vm req) = sq_Snapshot req"
    using assms(1,2) by (auto simp: snapshotDefaults_def rooted_def)
  show ?thesis
    using assms(1,3) unfolding CreateReadySnapshot_def captureSnapshot_def snapshotFiles_def Let_def d option.case
    by (auto intro!: valid_store_MkdirAll valid_store_Remove rooted_paths wait snap simp: rooted_artifact_def)
qed

section \<open>The manager\<close>

text \<open>
  What the store relies on: images with plain digests, a builder that leaves the store alone, an absolute directory for temporary files, and
  a VMM that writes a snapshot nowhere near the blobs.
\<close>

definition good_env :: "string \<Rightarrow> 'ref manager_env \<Rightarrow> bool" where
  "good_env dir env =
     ((\<forall>x p img. remote_Image (env_registry (me_runtime env)) x p = Some img \<longrightarrow> wf_image img) \<and>
      builder_keeps dir (env_builder (me_runtime env)) \<and> rooted (vm_TempDir (me_vmm env)) \<and>
      (\<forall>m p s. store_ok dir s \<longrightarrow> store_ok dir (snd (vm_CreateSnapshot (me_vmm env) m p s))))"

lemma StoreDir_New: "StoreDir cfg \<noteq> '''' \<Longrightarrow> StoreDir (runtime_New cfg) = StoreDir cfg"
  by (simp add: runtime_New_def Let_def orString_def)

lemma keeps_managerPrepareImage:
  assumes "cleaned (StoreDir cfg)" "rooted (StoreDir cfg)" "good_env (StoreDir cfg) env"
  shows "keeps_fs (store_ok (StoreDir cfg)) (managerPrepareImage env cfg ref p)"
proof -
  have d: "StoreDir (runtime_New cfg) = StoreDir cfg" using assms(2) by (intro StoreDir_New) (auto simp: rooted_def)
  have "store_ok (StoreDir cfg) s'" if "PrepareImage (me_runtime env) (runtime_New cfg) ref p s = Some (r, s')" "store_ok (StoreDir cfg) s" for s r s'
    using PrepareImage_keeps_store [where cfg = "runtime_New cfg" and env = "me_runtime env", unfolded d, OF assms(1,2) _ _ that(2,1)] assms(3)
    by (auto simp: good_env_def)
  then show ?thesis unfolding managerPrepareImage_def by auto
qed

lemma readonly_looked: "readonly (reads f)"
proof -
  have "\<exists>t. s = s\<lparr>tick := t\<rparr>" for s :: os by (rule exI [of _ "tick s"]) simp
  then show ?thesis by (auto simp: readonly_def reads_def)
qed

lemma readonly_LookPath: "readonly (LookPath PATH f)"
  by (induction PATH)
    (auto simp: Let_def findExecutable_def intro!: readonly_andThen readonly_attempt readonly_Stat readonly_looked readonly_ret readonly_throw
      split: sum.split entry.split)

lemma readonly_preflight: "readonly (preflightVMRun PATH shuffle f k b)"
proof -
  have "readonly (statAll ps)" for ps
    by (induction ps rule: statAll.induct) (auto intro!: readonly_andThen readonly_wrap readonly_Stat readonly_ret)
  then show ?thesis
    unfolding preflightVMRun_def by (auto intro!: readonly_andThen readonly_wrap readonly_LookPath readonly_Stat readonly_ret)
qed

lemma keeps_preflight: "keeps_fs (store_ok dir) (managerPreflight env cfg a b c)"
  unfolding managerPreflight_def by (intro keeps_hos valid_store_readonly readonly_preflight)

lemma keeps_managerCreateSnapshot:
  assumes "cleaned (StoreDir cfg)" "rooted (StoreDir cfg)" "good_env (StoreDir cfg) env" "cs_Jailer req = None"
    and "rooted_artifact (cs_Snapshot req) \<or> sa_MemPath (cs_Snapshot req) = '''' \<and> rooted (cs_SnapshotDir req)"
  shows "keeps_fs (store_ok (StoreDir cfg)) (managerCreateSnapshot env cfg req)"
proof -
  have g: "store_ok (StoreDir cfg) (snd (vm_CreateSnapshot (me_vmm env) m p s))" if "store_ok (StoreDir cfg) s" for m p s
    using assms(3) that by (simp add: good_env_def)
  have a: "rooted_artifact (if sa_MemPath (cs_Snapshot req) = '''' \<and> cs_SnapshotDir req \<noteq> '''' then mkArtifact (cs_SnapshotDir req) c else cs_Snapshot req)" for c
    using assms(5) mkArtifact_rooted [of "cs_SnapshotDir req" c] by (auto simp: rooted_def rooted_artifact_def)
  show ?thesis
    unfolding managerCreateSnapshot_def Let_def
    by (intro keeps_vbind keeps_silent keeps_vlift keeps_preflight keeps_managerPrepareImage keeps_CreateReadySnapshot)
      (simp_all add: assms g a)
qed

lemma keeps_Run:
  assumes "cleaned (StoreDir cfg)" "rooted (StoreDir cfg)" "good_env (StoreDir cfg) env" "good_env (StoreDir cfg) snapEnv" "rq_Jailer req = None"
    and "rq_SnapshotDir req = '''' \<or> rooted (rq_SnapshotDir req)"
  shows "keeps_fs (store_ok (StoreDir cfg)) (Run env snapEnv cfg req)"
proof -
  have t: "rooted (vm_TempDir (me_vmm env))" using assms(3) by (simp add: good_env_def)
  have snap: "keeps_fs (store_ok (StoreDir cfg)) (runSnapshot snapEnv cfg (req\<lparr>rq_Timeout := i\<rparr>) fc p)" for i fc p
    using assms(5,6) unfolding runSnapshot_def Let_def
    by (auto intro!: keeps_managerCreateSnapshot valid_store_readonly readonly_SnapshotExists mkArtifact_rooted assms(1,2,4))
  have read: "readonly (readOCIConfig decode p)" for decode p
    unfolding readOCIConfig_def by (auto intro!: readonly_andThen readonly_wrap readonly_ReadFile readonly_ret readonly_throw split: option.split)
  have jobs: "keeps_fs (store_ok (StoreDir cfg)) (case jo of None \<Rightarrow> vthrow NoCommand | Some js \<Rightarrow> vret js)" for jo
    by (auto split: option.split)
  show ?thesis
    unfolding Run_def Let_def split_beta
    by (intro keeps_vbind keeps_silent(1,2,3) keeps_preflight keeps_managerPrepareImage snap keeps_hos valid_store_readonly read keeps_vlift keeps_StartVM jobs assms(1-3) t)
      (auto simp: assms(2,5) intro!: keeps_silent split: bool.split)
qed

section \<open>The daemon\<close>

lemma valid_store_removeEach: "valid (store_ok dir) (removeEach ps) (\<lambda>_. store_ok dir) (store_ok dir)"
  by (induction ps) (auto intro!: valid_andThen [OF valid_attempt_same [OF valid_store_Remove]] valid_ret valid_throw split: sum.split)

lemma valid_store_DeleteImage: "valid (store_ok dir) (DeleteImage cfg c i) (\<lambda>_. store_ok dir) (store_ok dir)"
  unfolding DeleteImage_def by (auto intro!: valid_store_removeEach valid_throw simp del: removeEach.simps split: option.split)

lemma valid_store_DeleteSnapshot: "valid (store_ok dir) (DeleteSnapshot c d i) (\<lambda>_. store_ok dir) (store_ok dir)"
  unfolding DeleteSnapshot_def Let_def
  by (auto intro!: valid_andThen [OF valid_store_removeEach] valid_andThen [OF valid_attempt_same [OF valid_store_RemoveAll]] valid_ret valid_throw
      simp del: removeEach.simps split: option.split sum.split)

lemma handle_keeps_store:
  assumes srv: "server_New arch cfg = Inr srv" and jail: "cf_Jailer (as_Config srv) = None"
    and dirs: "cleaned (StoreDir (as_Manager srv))" "rooted (StoreDir (as_Manager srv))" "rooted (cf_SnapshotDir (as_Config srv))"
    and env: "good_env (StoreDir (as_Manager srv)) (re_env e)" "good_env (StoreDir (as_Manager srv)) (re_snapEnv e)"
  shows "keeps_fs (store_ok (StoreDir (as_Manager srv))) (handle e srv req)"
proof (cases req)
  case (CreateSnapshotReq ref)
  have "keeps_fs (store_ok (StoreDir (as_Manager srv))) (createSnapshot (re_env e) (re_arch e) srv ref)"
    unfolding createSnapshot_def Let_def
    using dirs env jail by (auto intro!: keeps_managerCreateSnapshot simp: FirecrackerJailer_def)
  then show ?thesis using CreateSnapshotReq by auto
next
  case (RunReq r)
  have "keeps_fs (store_ok (StoreDir (as_Manager srv))) (run (re_env e) (re_snapEnv e) (re_arch e) srv r)"
  proof (cases "managerRunRequest (re_arch e) (as_Config srv) r")
    case (Inr m)
    then have "rq_Jailer m = None" "rq_SnapshotDir m = '''' \<or> rooted (rq_SnapshotDir m)"
      using jail dirs(3) by (auto simp: managerRunRequest_def FirecrackerJailer_def Let_def split: if_splits sum.splits)
    then show ?thesis using Inr dirs env by (auto simp: run_def intro!: keeps_Run)
  qed (auto simp: run_def)
  then show ?thesis using RunReq by auto
qed (use dirs env in \<open>auto simp: prepareImage_def listImages_def deleteImage_def listSnapshots_def deleteSnapshot_def
      intro!: keeps_managerPrepareImage valid_store_readonly readonly_listing valid_store_DeleteImage valid_store_DeleteSnapshot\<close>)


section \<open>A daemon that prepares an image\<close>

definition store_vmm :: vmm where
  "store_vmm = \<lparr>vm_uuid = ''u'', vm_TempDir = ''/tmp'', vm_New = (\<lambda>_. True), vm_Start = True, vm_ProcStart = (\<lambda>_. True),
     vm_ConfigReady = (\<lambda>_. True), vm_Load = (\<lambda>_ _. True), vm_Pause = True, vm_CreateSnapshot = (\<lambda>_ _ s. (True, s)),
     vm_replies = (\<lambda>_. None), vm_health = (\<lambda>_. None), vm_json_len = (\<lambda>_. 0), vm_cancelled = (\<lambda>_. True), vm_callerDone = (\<lambda>_. True),
     vm_race = AgentFirst, vm_elapsed = (\<lambda>_. 0)\<rparr>"

definition store_env :: "string request_env" where
  "store_env =
     (let m = \<lparr>me_runtime = prepare_env, me_vmm = store_vmm, me_PATH = [], me_shuffle = id, me_elapsed = (\<lambda>_. 0)\<rparr>
      in \<lparr>re_env = m, re_snapEnv = m, re_decode = (\<lambda>_. None), re_cancelled = False, re_arch = ''amd64''\<rparr>)"

lemma store_env_good: "good_env ''/var/s'' (re_env store_env)" "re_snapEnv store_env = re_env store_env"
proof -
  have "wf_image img" if "remote_Image (env_registry prepare_env) x p = Some img" for x p img
    using that by (auto simp: prepare_env_def demo_registry_def wf_image_def wf_layer_def demo_layer_def sha_plain)
  moreover have "builder_keeps ''/var/s'' (env_builder prepare_env)"
    using empty_builder_keeps [OF conjunct1 [OF demo_dir] conjunct2 [OF demo_dir]] by (simp add: prepare_env_def)
  ultimately show "good_env ''/var/s'' (re_env store_env)" by (simp add: good_env_def store_env_def Let_def store_vmm_def rooted_def)
qed (simp add: store_env_def Let_def)


end
