(* ===== verification/ExampleClient.thy ===== *)
theory ExampleClient
  imports Daemon
begin

text \<open>
  The example client (\<open>main.go\<close>): it reads \<open>test.py\<close>, posts one run to the daemon and prints the answer.  The HTTP exchange is a parameter.
  The theory shows what the daemon makes of the request.
\<close>

section \<open>The program\<close>

record ClientTask =
  ct_Type :: string
  ct_Path :: string
  ct_ContentsB64 :: string
  ct_Mode :: int
  ct_CreateParents :: bool
  ct_Argv :: "string list"
  ct_WorkingDir :: string

record ClientRunRequest =
  cr_ImageRef :: string
  cr_SnapshotMode :: string
  cr_Tasks :: "ClientTask list"

definition payload :: "string \<Rightarrow> ClientRunRequest" where
  "payload script =
     \<lparr>cr_ImageRef = ''docker.io/library/python:3.14-alpine'', cr_SnapshotMode = ''auto'',
      cr_Tasks =
        [\<lparr>ct_Type = ''write_file'', ct_Path = ''/workspace/main.py'', ct_ContentsB64 = EncodeToString script, ct_Mode = 420,
          ct_CreateParents = True, ct_Argv = [], ct_WorkingDir = ''''\<rparr>,
         \<lparr>ct_Type = ''exec'', ct_Path = '''', ct_ContentsB64 = '''', ct_Mode = 0, ct_CreateParents = False,
          ct_Argv = [''python3'', ''main.py''], ct_WorkingDir = ''/workspace''\<rparr>]\<rparr>"

text \<open>
  How the program ends: \<open>must\<close> panics when the script cannot be read, \<open>log.Fatal\<close> ends it when the exchange or the reading of the
  answer fails; otherwise it prints the status and the body.
\<close>

datatype client_end = Panicked | Fatal | Printed nat string

definition client_main :: "(ClientRunRequest \<Rightarrow> (nat \<times> string option) option) \<Rightarrow> string option \<Rightarrow> client_end" where
  "client_main post script =
     (case script of
        None \<Rightarrow> Panicked
      | Some bytes \<Rightarrow>
          (case post (payload bytes) of
             None \<Rightarrow> Fatal
           | Some (status, None) \<Rightarrow> Fatal
           | Some (status, Some body) \<Rightarrow> Printed status body))"

fun client_exit :: "client_end \<Rightarrow> nat" where
  "client_exit Panicked = 2"
| "client_exit Fatal = 1"
| "client_exit (Printed status body) = 0"

section \<open>What the daemon makes of it\<close>

text \<open>
  The request as the daemon decodes it (\<open>RunRequest\<close> and \<open>Task\<close> of \<open>internal/server/server.go\<close>): the same JSON names, and for what the
  client leaves out the \<open>default\<close> of the field's tag, or zero.
\<close>

definition receivedTask :: "ClientTask \<Rightarrow> Task" where
  "receivedTask t = \<lparr>t_Type = ct_Type t, t_Path = ct_Path t, t_Mode = (if ct_Mode t = 0 then 420 else word_of_int (ct_Mode t)), t_ContentsBase64 = ct_ContentsB64 t,
     t_CreateParents = ct_CreateParents t, t_Argv = ct_Argv t, 
     t_WorkingDir = (if ct_WorkingDir t = '''' then ''/workspace'' else ct_WorkingDir t)\<rparr>"

definition receivedRequest :: "ClientRunRequest \<Rightarrow> ApiRunRequest" where
  "receivedRequest r = \<lparr>ar_ImageRef = cr_ImageRef r, ar_Tasks = map receivedTask (cr_Tasks r), ar_Workdir = ''/workspace'', ar_UID = 0, ar_GID = 0,
     ar_TimeoutMillis = 60000, ar_SnapshotMode = cr_SnapshotMode r, ar_Machine = \<lparr>VCPUCount = 0, MemSizeMiB = 0\<rparr>\<rparr>"

lemma payload_paths:
  "validateWorkspacePath ''/workspace/main.py'' = None" "validateWorkspacePath ''/workspace'' = None"
  by code_simp+


end
