(* ===== verification/AgentLimits.thy ===== *)
theory AgentLimits
  imports AgentBatch
begin

text \<open>
  The agent's numeric limits and its endpoint: file modes, captured output, total upload size,
  timeouts, the contents of written files, and the one-shot \<open>POST /jobs\<close>.
\<close>

section \<open>Modes, defaults and timeouts\<close>

text \<open>
  a mode that \<open>safeMode\<close> accepts has no bit beyond the nine permission bits, and a request
  with a setuid or setgid bit is refused.
\<close>

theorem safeMode_permissions:
  "safeMode m fallback = Inr r \<Longrightarrow>
     r AND 511 = r \<and> r \<le> 511 \<and> (if m = 0 then fallback else m) AND 3072 = 0"
proof -
  assume "safeMode m fallback = Inr r"
  then have r: "r = (if m = 0 then fallback else m) AND 511" "(if m = 0 then fallback else m) AND 3072 = 0"
    by (auto simp: safeMode_def Let_def split: if_splits)
  have "x AND 511 \<le> (511 :: uint32)" for x by (rule word_and_le1)
  then show ?thesis using r by (simp add: and.assoc)
qed

theorem safeMode_permissions_witness:
  "safeMode 511 420 = Inr 511 \<and> (511 :: uint32) AND 511 = 511"
proof -
  have "safeMode 511 420 = Inr 511" by code_simp
  from safeMode_permissions [OF this] this show ?thesis by simp
qed

section \<open>Captured output\<close>

lemma lb_WriteAll_buf:
  assumes "int (length (lb_buf b)) \<le> max 0 (lb_limit b)"
  shows "lb_buf (lb_WriteAll b ps) = take (nat (lb_limit b)) (lb_buf b @ concat ps)"
  using assms
proof (induction ps arbitrary: b)
  case Nil
  then show ?case by (auto simp: max_def split: if_splits)
next
  case (Cons p ps)
  let ?b = "snd (lb_Write b p)"
  have lim: "lb_limit ?b = lb_limit b" by (simp add: lb_Write_def Let_def)
  have buf: "lb_buf ?b = take (nat (lb_limit b)) (lb_buf b @ p)"
    using Cons.prems by (auto simp: lb_Write_def Let_def max_def nat_diff_distrib split: if_splits)
  have "int (length (lb_buf ?b)) \<le> max 0 (lb_limit ?b)" by (simp add: lim buf)
  then have "lb_buf (lb_WriteAll ?b ps) = take (nat (lb_limit ?b)) (lb_buf ?b @ concat ps)"
    by (rule Cons.IH)
  also have "\<dots> = take (nat (lb_limit b)) ((lb_buf b @ p) @ concat ps)"
    unfolding lim buf by (rule take_take_append)
  finally show ?case by simp
qed

lemma captured_eq: "captured limit ps = take (nat limit) (concat ps)"
  by (simp add: captured_def lb_WriteAll_buf)

text \<open>
  C23: whatever the chunks in which a command writes its output, the result of an \<open>exec\<close> job
  carries the base64 encoding of the first \<open>limit\<close> bytes of it, and decoding gives them back.
\<close>

theorem exec_output_truncated:
  assumes "r_OK (exec_result ty limit out)"
  shows "DecodeString (r_StdoutBase64 (exec_result ty limit out)) = Some (take (nat limit) (concat (ro_stdout out))) \<and>
    DecodeString (r_StderrBase64 (exec_result ty limit out)) = Some (take (nat limit) (concat (ro_stderr out)))"
  using assms
  by (auto simp: exec_result_def Let_def fail_def captured_eq decode_encode
      split: option.splits run_error.splits if_splits)

theorem exec_output_truncated_witness:
  "let out = \<lparr>ro_stdout = [''ab'', ''cdef'', ''g''], ro_stderr = [], ro_err = Some (ExitError 3),
       ro_deadline = False, ro_pid = Some 7\<rparr>
   in r_ExitCode (exec_result JobExec 4 out) = 3 \<and>
      DecodeString (r_StdoutBase64 (exec_result JobExec 4 out)) = Some ''abcd''"
proof -
  let ?out = "\<lparr>ro_stdout = [''ab'', ''cdef'', ''g''], ro_stderr = [], ro_err = Some (ExitError 3),
       ro_deadline = False, ro_pid = Some 7\<rparr>"
  have "r_OK (exec_result JobExec 4 ?out)" "r_ExitCode (exec_result JobExec 4 ?out) = 3"
    by (simp_all add: exec_result_def)
  with exec_output_truncated [of JobExec 4 ?out] show ?thesis by (simp add: Let_def)
qed

section \<open>Uploads\<close>

text \<open>The decoded size of a \<open>write_file\<close> job that succeeded.\<close>

definition stored_bytes :: "Job \<Rightarrow> JobResult \<Rightarrow> int" where
  "stored_bytes job res =
     (if j_Type job = JobWriteFile \<and> r_OK res
      then (case DecodeString (j_ContentsBase64 job) of Some bs \<Rightarrow> int (length bs) | None \<Rightarrow> 0) else 0)"

lemma runJob_upload:
  assumes "runJob run cfg ws defaults job up s = (res, up', s')" "r_OK res"
    and "0 \<le> up" "up \<le> c_MaxBodyBytes cfg" "0 \<le> c_MaxFileBytes cfg"
    and "c_MaxBodyBytes cfg + c_MaxFileBytes cfg < 2 ^ 63"
  shows "up' = up + stored_bytes job res" "up' \<le> c_MaxBodyBytes cfg" "0 \<le> stored_bytes job res"
    "stored_bytes job res \<le> c_MaxFileBytes cfg"
proof -
  have "up' = up + stored_bytes job res \<and> up' \<le> c_MaxBodyBytes cfg \<and> 0 \<le> stored_bytes job res
      \<and> stored_bytes job res \<le> c_MaxFileBytes cfg"
  proof (cases "j_Type job = JobWriteFile")
    case False
    with assms show ?thesis
      by (auto simp: runJob_def stored_bytes_def fail_def split: if_splits prod.splits)
  next
    case True
    then have "writeFile cfg ws defaults job up s = (res, up', s')"
      using assms(1) by (auto simp: runJob_def JobWriteFile_def JobMkdir_def)
    then show ?thesis
    proof (cases rule: writeFile_cases)
      case (stored t mode bs)
      have "i64 (up + int (length bs)) = up + int (length bs)"
        by (rule i64_id) (use assms stored in auto)
      with stored True assms(2) show ?thesis by (simp add: stored_bytes_def)
    qed (use assms(2) in simp)
  qed
  then show "up' = up + stored_bytes job res" "up' \<le> c_MaxBodyBytes cfg" "0 \<le> stored_bytes job res"
    "stored_bytes job res \<le> c_MaxFileBytes cfg" by auto
qed

lemma runJobs_upload:
  assumes "job_loop run cfg ws defaults js (up, s) = (rs, s')"
    and "0 \<le> up" "up \<le> c_MaxBodyBytes cfg" "0 \<le> c_MaxFileBytes cfg"
    and "c_MaxBodyBytes cfg + c_MaxFileBytes cfg < 2 ^ 63"
  shows "up + sum_list (map2 stored_bytes js rs) \<le> c_MaxBodyBytes cfg"
  using assms
proof (induction js arbitrary: up s rs)
  case (Cons j js)
  obtain r up1 s1 where st: "runJob run cfg ws defaults j up s = (r, up1, s1)" by (metis prod_cases3)
  show ?case
  proof (cases "r_OK r")
    case True
    note u = runJob_upload [OF st True Cons.prems(2-5)]
    obtain rs1 where rs1: "job_loop run cfg ws defaults js (up1, s1) = (rs1, s')" "rs = r # rs1"
      using Cons.prems(1) True st by (auto simp: batch.run_Cons job_step_def split: prod.splits)
    have "up1 + sum_list (map2 stored_bytes js rs1) \<le> c_MaxBodyBytes cfg"
      by (rule Cons.IH [OF rs1(1)]) (use u Cons.prems in auto)
    then show ?thesis using u rs1 by simp
  next
    case False
    then have "rs = [r]" using Cons.prems(1) st by (auto simp: batch.run_Cons job_step_def)
    with False Cons.prems show ?thesis by (simp add: stored_bytes_def)
  qed
qed (simp add: batch.run_Nil)



section \<open>The contents of a written file\<close>

lemma valid_store_contents:
  assumes ws: "cleaned ws" "rooted ws" and t: "cleaned t" "rooted t" "prefix (comps ws) (comps t)"
    and np: "\<not> j_CreateParents job"
  shows "valid (inside (comps ws) s0) (writeFile_store cfg ws defaults job t mode bs)
    (\<lambda>_. file_at (comps t) (\<lambda>d. contents d = bs \<and> perm (iattr d) = mode)) (\<lambda>_. True)"
proof -
  let ?w = "comps ws"
  let ?R = "\<lambda>s. inside ?w s0 s \<and> reachable_in ?w t (ent s)"
  let ?U = "\<lambda>s. inside ?w s0 s \<and> usable ?w t (ent s)"
  let ?F = "\<lambda>Q s. ?U s \<and> file_at (comps t) Q s"
  let ?O = "\<lambda>i s. (inside ?w s0 s \<and> usable ?w t (ent s) \<and> prefix ?w (comps t) \<and> ent s (comps t) = Some (RegE i))
    \<and> (\<exists>d. inodes s i = Some d \<and> contents d = '''')"
  have check: "valid (inside ?w s0) (ensureSafeParents ws t) (\<lambda>_. ?R) (\<lambda>_. True)"
    by (rule valid_conseq [OF guarded [OF ws t]]) auto
  have lstat: "valid ?R (attempt (Lstat t)) (\<lambda>_. ?R) (\<lambda>_. True)"
    by (intro valid_attempt_same valid_readonly readonly_Lstat stable_conj) auto
  have open': "valid ?R (OpenTruncNoFollow t mode) ?O (\<lambda>_. True)"
    using valid_store_file [of ?w s0 t mode] OpenTruncNoFollow_empty
    by (intro validI) (blast dest: valid_Inr)+
  have wr: "valid (?O i) (attempt (FWrite i bs))
      (\<lambda>r. case r of Inl e \<Rightarrow> \<lambda>_. True | Inr u \<Rightarrow> ?F (\<lambda>d. contents d = bs)) (\<lambda>_. True)" for i
  proof (rule valid_attempt, rule validI)
    fix s u s' assume s: "?O i s" and w: "FWrite i bs s = (Inr u, s')"
    have "?U s'"
      by (rule valid_Inr [OF valid_FWrite_usable [of ?w s0 t i bs] _ w]) (use s in blast)
    moreover have "file_at (comps t) (\<lambda>d. contents d = bs) s'"
      using s FWrite_appends [OF w] FWrite_ent [OF w] by (fastforce simp: file_at_def)
    ultimately show "(case Inr u of Inl e \<Rightarrow> \<lambda>_. True | Inr u \<Rightarrow> ?F (\<lambda>d. contents d = bs)) s'" by simp
  qed simp
  have close: "valid (case r of Inl e \<Rightarrow> \<lambda>_. True | Inr u \<Rightarrow> ?F (\<lambda>d. contents d = bs)) (attempt (FClose i))
      (\<lambda>_. case r of Inl e \<Rightarrow> \<lambda>_. True | Inr u \<Rightarrow> ?F (\<lambda>d. contents d = bs)) (\<lambda>_. True)" for i and r :: "errno + unit"
    by (intro valid_attempt_same valid_readonly readonly_FClose) (auto simp: stable_def inside_def file_at_def split: sum.split)
  have chmod: "valid (?F (\<lambda>d. contents d = bs)) (wrap ChmodFailed (Chmod t mode))
      (\<lambda>_. ?F (\<lambda>d. contents d = bs \<and> perm (iattr d) = mode)) (\<lambda>_. True)"
    unfolding Chmod_def by (rule valid_wrap [OF valid_chattr_file]) simp
  have chown: "valid (?F (\<lambda>d. contents d = bs \<and> perm (iattr d) = mode)) (chownIfNeeded t u g)
      (\<lambda>_. file_at (comps t) (\<lambda>d. contents d = bs \<and> perm (iattr d) = mode)) (\<lambda>_. True)" for u g
  proof -
    have "valid (?F (\<lambda>d. contents d = bs \<and> perm (iattr d) = mode)) (Chown t u g)
        (\<lambda>_. file_at (comps t) (\<lambda>d. contents d = bs \<and> perm (iattr d) = mode)) (\<lambda>_. True)"
      unfolding Chown_def
      by (rule valid_conseq [OF valid_chattr_file [where Q = "\<lambda>d. contents d = bs \<and> perm (iattr d) = mode"
            and R = "\<lambda>d. contents d = bs \<and> perm (iattr d) = mode"]])
        (auto simp: own_def)
    then show ?thesis
      unfolding chownIfNeeded_def
      by (intro valid_andThen [OF valid_reads, where Q = "\<lambda>_. ?F (\<lambda>d. contents d = bs \<and> perm (iattr d) = mode)"])
        (auto intro!: valid_ret valid_wrap)
  qed
  have tail: "valid (?F (\<lambda>d. contents d = bs)) (andThen (wrap ChmodFailed (Chmod t mode)) (\<lambda>_. chownIfNeeded t u g))
      (\<lambda>_. file_at (comps t) (\<lambda>d. contents d = bs \<and> perm (iattr d) = mode)) (\<lambda>_. True)" for u g
    by (rule valid_andThen [OF chmod chown])
  show ?thesis
    using np unfolding writeFile_store_def
    by (auto simp: andThen_ret intro!: valid_andThen [OF check] valid_andThen [OF lstat] valid_throw
        valid_andThen [OF valid_wrap [OF open']] valid_andThen [OF wr] valid_andThen [OF close]
        tail [unfolded conj_assoc] split: sum.split prod.split)
qed

text \<open>
  C22: when a \<open>write_file\<close> job reports success, its path, taken lexically, names a regular
  file with exactly the decoded contents and the requested permission bits.
\<close>

theorem writeFile_stores_contents:
  assumes "ready ws s" "writeFile cfg ws defaults job up s = (res, up', s')" "r_OK res"
  shows "\<exists>i d. ent s' (comps (j_Path job)) = Some (RegE i) \<and> inodes s' i = Some d \<and>
    DecodeString (j_ContentsBase64 job) = Some (contents d) \<and>
    safeMode (j_Mode job) 420 = Inr (perm (iattr d))"
  using assms(2)
proof (cases rule: writeFile_cases)
  case (stored t mode bs)
  have ws: "cleaned ws" "rooted ws" using assms(1) by (simp_all add: ready_def)
  note t = safePath_facts [OF ws(2) stored(1)]
  have c: "comps t = comps (j_Path job)" using stored(1) safePath_iff [OF ws(2)] by simp
  let ?job = "job\<lparr>j_CreateParents := False\<rparr>"
  obtain u where "writeFile_store cfg ws defaults job t mode bs s = (Inr u, s')"
    using stored(7) assms(3) by (auto simp: finish_def fail_def split: prod.splits sum.splits)
  then obtain s1 where s1: "s1 = s \<or> MkdirAll (Dir t) 493 s = (Inr (), s1)"
    and w: "writeFile_store cfg ws defaults ?job t mode bs s1 = (Inr u, s')"
    unfolding writeFile_store_parents [of cfg ws defaults job]
    by (auto simp: andThen_def wrap_def ret_def split: if_splits prod.splits sum.splits)
  have "grown s s1" using s1 valid_Inr [OF valid_MkdirAll_grown grown_refl] by auto
  then have "inside (comps ws) s1 s1" using assms(1) by (rule grown_inside)
  from valid_Inr [OF valid_store_contents [OF ws t] this w]
  have "file_at (comps t) (\<lambda>d. contents d = bs \<and> perm (iattr d) = mode) s'" by simp
  then show ?thesis using stored(2,3) c by (auto simp: file_at_def)
qed (use assms(3) in simp)

theorem writeFile_stores_contents_witness:
  "\<exists>i d. ent (snd (snd (writeFile demo_cfg ''/workspace'' zero_defaults (write_job ''/workspace/a'' False) 0 demo_os)))
       [''workspace'', ''a''] = Some (RegE i) \<and>
     inodes (snd (snd (writeFile demo_cfg ''/workspace'' zero_defaults (write_job ''/workspace/a'' False) 0 demo_os))) i
       = Some d \<and> Some ''hi'' = Some (contents d)"
proof -
  let ?w = "writeFile demo_cfg ''/workspace'' zero_defaults (write_job ''/workspace/a'' False) 0 demo_os"
  have ok: "r_OK (fst ?w)" by code_simp
  have d: "DecodeString (j_ContentsBase64 (write_job ''/workspace/a'' False)) = Some ''hi''" by code_simp
  have c: "comps ''/workspace/a'' = [''workspace'', ''a'']" by code_simp
  obtain res up s' where w: "?w = (res, up, s')" by (metis prod_cases3)
  with ok have "r_OK res" by simp
  from writeFile_stores_contents [OF demo_ready w this] show ?thesis by (auto simp: w d c)
qed

section \<open>The endpoint\<close>

text \<open>
  HTTP requests (method, path, body) one after the other, in the order in which their compare-and-swap
  on the used flag takes effect.
\<close>

fun serve :: "(string \<Rightarrow> (BatchRequest \<times> string) option) \<Rightarrow> runner \<Rightarrow> (string \<times> string \<times> string) list \<Rightarrow> Server \<Rightarrow> os
    \<Rightarrow> reply list \<times> os" where
  "serve json_first run [] srv s = ([], s)"
| "serve json_first run ((meth, path, body) # reqs) srv s =
     (case agent_Handler json_first run srv meth path body s of (r, shut, srv', s') \<Rightarrow>
        (case serve json_first run reqs srv' s' of (rs, s'') \<Rightarrow> (r # rs, s'')))"

definition to_jobs :: "string \<times> string \<times> string \<Rightarrow> bool" where
  "to_jobs q = (case q of (meth, path, body) \<Rightarrow> (case mux agent_routes meth path of Routed PostJobs vs \<Rightarrow> True | _ \<Rightarrow> False))"

fun is_batch :: "reply \<Rightarrow> bool" where
  "is_batch (BatchReply st resp) = True"
| "is_batch (TextReply st t) = False"

lemma jobs_used: "s_usedJobs (fst (snd (snd (jobs json_first run srv body s))))"
  by (auto simp: jobs_def Let_def split: option.splits prod.splits)

lemma agent_Handler_jobs: "to_jobs (meth, path, body) \<Longrightarrow> agent_Handler json_first run srv meth path body s = jobs json_first run srv body s"
  by (auto simp: to_jobs_def agent_Handler_def split: routing.splits agent_op.splits)

lemma agent_Handler_other:
  "\<not> to_jobs (meth, path, body) \<Longrightarrow> \<exists>st t. agent_Handler json_first run srv meth path body s = (TextReply st t, False, srv, s)"
  by (auto simp: to_jobs_def agent_Handler_def healthz_def split: routing.splits agent_op.splits)

lemma serve_used:
  "s_usedJobs srv \<Longrightarrow> snd (serve json_first run reqs srv s) = s \<and> filter is_batch (fst (serve json_first run reqs srv s)) = []"
proof (induction reqs)
  case (Cons q reqs)
  obtain meth path body where q: "q = (meth, path, body)" by (metis prod_cases3)
  have "\<exists>st t. agent_Handler json_first run srv meth path body s = (TextReply st t, False, srv, s)"
    using agent_Handler_other agent_Handler_jobs [of meth path body json_first run srv s] Cons.prems
    by (cases "to_jobs (meth, path, body)") (fastforce simp: jobs_def)+
  then show ?case using Cons q by (auto split: prod.splits)
qed simp

lemma jobs_then_used:
  assumes "jobs json_first run srv body s = (r, shut, srv', s')"
  shows "snd (serve json_first run reqs srv' s') = s'" "filter is_batch (fst (serve json_first run reqs srv' s')) = []"
  using serve_used [of srv'] jobs_used [of json_first run srv body s] assms by auto

text \<open>
  The endpoint is one-shot: of any sequence of HTTP requests to the agent, only the first one to \<open>POST /jobs\<close>
  can change anything, even when it was malformed, and at most one reply carries results.
\<close>

theorem jobs_one_shot:
  "snd (serve json_first run reqs (New s0 cfg) s) =
     (case filter to_jobs reqs of [] \<Rightarrow> s | (meth, path, body) # _ \<Rightarrow> snd (snd (snd (jobs json_first run (New s0 cfg) body s)))) \<and>
   length (filter is_batch (fst (serve json_first run reqs (New s0 cfg) s))) \<le> 1"
proof (induction reqs)
  case (Cons q reqs)
  obtain meth path body where q: "q = (meth, path, body)" by (metis prod_cases3)
  show ?case
  proof (cases "to_jobs q")
    case True
    obtain r shut srv' s' where j: "jobs json_first run (New s0 cfg) body s = (r, shut, srv', s')" by (metis prod_cases4)
    then show ?thesis using True q jobs_then_used [OF j, of reqs] by (auto simp: agent_Handler_jobs split: prod.splits)
  next
    case False
    then obtain st t where "agent_Handler json_first run (New s0 cfg) meth path body s = (TextReply st t, False, New s0 cfg, s)"
      using agent_Handler_other q by blast
    then show ?thesis using Cons.IH False q by (auto split: prod.splits)
  qed
qed simp

end
