(* ===== verification/GuestInit.thy ===== *)
theory GuestInit
  imports Firecracker HostConfig
begin

text \<open>
  The guest's first process (\<open>cmd/init/main.go\<close>): mounts, the overlay over the read-only target
  drive, the agent in the merged root, and the power-off that ends the VM.  What a mount does to the
  file system is a parameter, as is what \<open>wait4\<close> reports; the calls made are recorded in a log.
\<close>

section \<open>State\<close>

definition targetMount :: string where "targetMount = ''/mnt/target''"
definition overlayBase :: string where "overlayBase = ''/mnt/overlay''"
definition mergedRoot :: string where "mergedRoot = ''/mnt/overlay/merged''"

definition MS_RDONLY :: uint32 where "MS_RDONLY = 1"
definition MS_NOSUID :: uint32 where "MS_NOSUID = 2"
definition MS_NODEV :: uint32 where "MS_NODEV = 4"
definition MS_NOEXEC :: uint32 where "MS_NOEXEC = 8"
definition MS_BIND :: uint32 where "MS_BIND = 4096"
definition MS_REC :: uint32 where "MS_REC = 16384"

record mount_call =
  mt_source :: string
  mt_target :: string
  mt_fstype :: string
  mt_flags :: uint32
  mt_data :: string

datatype guest_event =
    MountTried mount_call
  | AgentStarted string "string list"
  | Synced
  | PowerOff
  | Restart

record guest =
  g_os :: os
  g_log :: "guest_event list"

datatype wait_answer = NoChildren | WaitError | Reaped int

record guest_env =
  ge_mount :: "mount_call \<Rightarrow> os \<Rightarrow> errno option \<times> os"
  ge_start :: bool
  ge_agentPID :: int
  ge_wait :: "nat \<Rightarrow> wait_answer"

datatype init_error = InitOs errno | InitMount string errno | StartAgent

type_synonym 'a gio = "(guest, init_error, 'a) prog"

definition glog :: "guest_event \<Rightarrow> unit gio" where
  "glog e g = Some (Inr (), g\<lparr>g_log := g_log g @ [e]\<rparr>)"

definition gos :: "(errno, 'a) io \<Rightarrow> 'a gio" where
  "gos m g = (case m (g_os g) of (Inl e, s) \<Rightarrow> Some (Inl (InitOs e), g\<lparr>g_os := s\<rparr>) | (Inr a, s) \<Rightarrow> Some (Inr a, g\<lparr>g_os := s\<rparr>))"

text \<open>\<open>unix.Mount\<close>: the error, if any, is a value.\<close>

definition Mount :: "guest_env \<Rightarrow> mount_call \<Rightarrow> errno option gio" where
  "Mount env c = vbind (glog (MountTried c)) (\<lambda>_ g. case ge_mount env c (g_os g) of (r, s) \<Rightarrow> Some (Inr r, g\<lparr>g_os := s\<rparr>))"

definition mcall :: "string \<Rightarrow> string \<Rightarrow> string \<Rightarrow> uint32 \<Rightarrow> string \<Rightarrow> mount_call" where
  "mcall src tgt fs fl d = \<lparr>mt_source = src, mt_target = tgt, mt_fstype = fs, mt_flags = fl, mt_data = d\<rparr>"

definition mustMount :: "guest_env \<Rightarrow> mount_call \<Rightarrow> unit gio" where
  "mustMount env c = vbind (Mount env c) (\<lambda>r. case r of None \<Rightarrow> vret () | Some e \<Rightarrow> vthrow (InitMount (mt_target c) e))"

section \<open>The kernel command line\<close>

definition TrimSpace :: "string \<Rightarrow> string" where
  "TrimSpace s = rev (dropWhile is_space (rev (dropWhile is_space s)))"

text \<open>The entries in the order of the command line; a later one wins.\<close>

definition kernelArgs :: "string option \<Rightarrow> (string \<times> string) list" where
  "kernelArgs file =
     (case file of
        None \<Rightarrow> []
      | Some c \<Rightarrow> map (\<lambda>field. case Cut field (CHR ''='') of None \<Rightarrow> (field, '''') | Some (key, v) \<Rightarrow> (key, v))
                      (Fields (TrimSpace c)))"

definition arg :: "(string \<times> string) list \<Rightarrow> string \<Rightarrow> string" where
  "arg kvs k = (case map_of (rev kvs) k of None \<Rightarrow> '''' | Some v \<Rightarrow> v)"

section \<open>Mounting\<close>

definition mountIgnoreBusy :: "guest_env \<Rightarrow> mount_call \<Rightarrow> unit gio" where
  "mountIgnoreBusy env c =
     vbind (Mount env c) (\<lambda>r. case r of
       None \<Rightarrow> vret ()
     | Some e \<Rightarrow> if e = EBUSY then vret () else vthrow (InitMount (mt_target c) e))"

fun mkdirs :: "(string \<times> uint32) list \<Rightarrow> unit gio" where
  "mkdirs [] = vret ()"
| "mkdirs ((d, m) # ds) = vbind (gos (MkdirAll d m)) (\<lambda>_. mkdirs ds)"

text \<open>A second attempt when the first fails, as for \<open>/dev\<close>.\<close>

definition orElse :: "'a gio \<Rightarrow> 'a gio \<Rightarrow> 'a gio" where
  "orElse m n g = (case m g of Some (Inl e, g') \<Rightarrow> n g' | r \<Rightarrow> r)"

definition basicMounts :: "guest_env \<Rightarrow> unit gio" where
  "basicMounts env =
     vbind (mkdirs (map (\<lambda>d. (d, 493)) [''/proc'', ''/sys'', ''/dev'', ''/run'', ''/tmp'', targetMount, overlayBase])) (\<lambda>_.
     vbind (mountIgnoreBusy env (mcall ''proc'' ''/proc'' ''proc'' (MS_NOSUID OR MS_NOEXEC OR MS_NODEV) '''')) (\<lambda>_.
     vbind (mountIgnoreBusy env (mcall ''sysfs'' ''/sys'' ''sysfs'' (MS_NOSUID OR MS_NOEXEC OR MS_NODEV) '''')) (\<lambda>_.
     vbind (orElse (mountIgnoreBusy env (mcall ''devtmpfs'' ''/dev'' ''devtmpfs'' 0 ''mode=0755''))
                   (mountIgnoreBusy env (mcall ''tmpfs'' ''/dev'' ''tmpfs'' MS_NOSUID ''mode=0755''))) (\<lambda>_.
     vbind (mountIgnoreBusy env (mcall ''tmpfs'' ''/run'' ''tmpfs'' (MS_NOSUID OR MS_NODEV) ''mode=0755,size=64m'')) (\<lambda>_.
     mountIgnoreBusy env (mcall ''tmpfs'' ''/tmp'' ''tmpfs'' (MS_NOSUID OR MS_NODEV) ''mode=1777,size=128m''))))))"

definition setupOverlay :: "guest_env \<Rightarrow> string \<Rightarrow> unit gio" where
  "setupOverlay env targetDrive =
     vbind (mustMount env (mcall targetDrive targetMount ''ext4'' (MS_RDONLY OR MS_NODEV) ''ro,noload'')) (\<lambda>_.
     vbind (mustMount env (mcall ''tmpfs'' overlayBase ''tmpfs'' (MS_NOSUID OR MS_NODEV) ''mode=0755,size=512m'')) (\<lambda>_.
     vbind (mkdirs (map (\<lambda>d. (overlayBase @ ''/'' @ d, 493)) [''upper'', ''work'', ''merged''])) (\<lambda>_.
     mustMount env (mcall ''overlay'' mergedRoot ''overlay'' 0
       ''lowerdir=/mnt/target,upperdir=/mnt/overlay/upper,workdir=/mnt/overlay/work''))))"

fun bindAll :: "guest_env \<Rightarrow> (string \<times> string) list \<Rightarrow> unit gio" where
  "bindAll env [] = vret ()"
| "bindAll env ((src, tgt) # ms) = vbind (mustMount env (mcall src tgt '''' (MS_BIND OR MS_REC) '''')) (\<lambda>_. bindAll env ms)"

definition prepareMergedRoot :: "guest_env \<Rightarrow> unit gio" where
  "prepareMergedRoot env =
     (let agentTarget = mergedRoot @ ''/.sandbox/agent'' in
      vbind (mkdirs (map (\<lambda>d. (mergedRoot @ ''/'' @ d, if d = ''tmp'' then 1023 else 493))
               [''proc'', ''sys'', ''dev'', ''run'', ''tmp'', ''.sandbox''])) (\<lambda>_.
      vbind (bindAll env [(''/proc'', mergedRoot @ ''/proc''), (''/sys'', mergedRoot @ ''/sys''), (''/dev'', mergedRoot @ ''/dev'')]) (\<lambda>_.
      vbind (mustMount env (mcall ''tmpfs'' (mergedRoot @ ''/run'') ''tmpfs'' (MS_NOSUID OR MS_NODEV) ''mode=0755,size=64m'')) (\<lambda>_.
      vbind (mustMount env (mcall ''tmpfs'' (mergedRoot @ ''/tmp'') ''tmpfs'' (MS_NOSUID OR MS_NODEV) ''mode=1777,size=128m'')) (\<lambda>_.
      vbind (gos (OpenCreate agentTarget 493)) (\<lambda>_.
      mustMount env (mcall ''/agent'' agentTarget '''' MS_BIND '''')))))))"

section \<open>The agent\<close>

definition superviseRound :: "guest_env \<Rightarrow> nat \<Rightarrow> unit option" where
  "superviseRound env k = (case ge_wait env k of
       NoChildren \<Rightarrow> Some ()
     | WaitError \<Rightarrow> None
     | Reaped pid \<Rightarrow> if pid = ge_agentPID env then Some () else None)"

definition superviseAgent :: "guest_env \<Rightarrow> unit gio" where
  "superviseAgent env =
     vbind (require (ge_start env) StartAgent) (\<lambda>_.
     vbind (glog (AgentStarted mergedRoot [''/.sandbox/agent'', ''-shutdown-after-jobs=true''])) (\<lambda>_ g.
       case poll (superviseRound env) 0 of None \<Rightarrow> None | Some u \<Rightarrow> Some (Inr (), g)))"

definition init_run :: "guest_env \<Rightarrow> string option \<Rightarrow> unit gio" where
  "init_run env cmdline =
     (let targetDrive = orString (arg (kernelArgs cmdline) ''target_drive'') ''/dev/vdb'' in
      vbind (basicMounts env) (\<lambda>_.
      vbind (setupOverlay env targetDrive) (\<lambda>_.
      vbind (prepareMergedRoot env) (\<lambda>_.
      superviseAgent env))))"

definition poweroff :: "unit gio" where
  "poweroff = vbind (glog Synced) (\<lambda>_. vbind (glog PowerOff) (\<lambda>_. glog Restart))"

definition init_main :: "guest_env \<Rightarrow> string option \<Rightarrow> unit gio" where
  "init_main env cmdline g = (case init_run env cmdline g of None \<Rightarrow> None | Some (r, g') \<Rightarrow> poweroff g')"

end
