(* ===== verification/AgentProcess.thy ===== *)
theory AgentProcess
  imports AgentLimits GuestInit
begin

text \<open>
  The guest agent's process (\<open>cmd/agent/main.go\<close>): its flags, the configuration they give the job server, and the life of
  the process as a step relation.  A request is handled, its reply waits to be written out, the shutdown that the handler starts in a goroutine closes
  the listener, and \<open>main\<close> returns when \<open>Serve\<close> does: these steps interleave freely.  The timeouts of the HTTP server are
  not modelled; a failure of \<open>Serve\<close> can come at any time.
\<close>

section \<open>The command line\<close>

record agent_flags =
  af_Workspace :: string
  af_Port :: nat
  af_MaxBody :: int
  af_MaxFile :: int
  af_MaxOutput :: int
  af_Shutdown :: bool

definition defaultAgentFlags :: agent_flags where
  "defaultAgentFlags = \<lparr>af_Workspace = ''/workspace'', af_Port = 1024, af_MaxBody = DefaultMaxBodyBytes, af_MaxFile = DefaultMaxFileBytes,
     af_MaxOutput = DefaultMaxOutputBytes, af_Shutdown = False\<rparr>"

definition listenPort :: "agent_flags \<Rightarrow> uint32" where
  "listenPort f = of_nat (af_Port f)"

definition agentConfig :: "os \<Rightarrow> agent_flags \<Rightarrow> AgentServer.Config" where
  "agentConfig s f = \<lparr>c_Workspace = af_Workspace f, c_MaxBodyBytes = af_MaxBody f, c_MaxFileBytes = af_MaxFile f,
     c_MaxOutputBytes = af_MaxOutput f, c_DefaultTimeout = 30 * second, c_DefaultUID = ruid s, c_DefaultGID = rgid s,
     c_HasShutdown = True, c_ShutdownAfterJobs = af_Shutdown f\<rparr>"

section \<open>The process\<close>

text \<open>
  \<open>ap_pending\<close> are the replies of handlers that have returned, still in the connection's buffer, \<open>ap_sent\<close> those that left the guest;
  \<open>ap_stopping\<close> says that the shutdown goroutine was started, \<open>ap_closed\<close> that it has closed the listener, so that \<open>Serve\<close> has
  returned \<open>ErrServerClosed\<close>.
\<close>

record agent_proc =
  ap_srv :: Server
  ap_os :: os
  ap_pending :: "reply list"
  ap_sent :: "reply list"
  ap_stopping :: bool
  ap_closed :: bool
  ap_exit :: "nat option"

text \<open>\<open>main\<close> up to \<open>Serve\<close>; \<open>listens\<close> says on which ports listening succeeds.\<close>

definition agent_start :: "(uint32 \<Rightarrow> bool) \<Rightarrow> agent_flags \<Rightarrow> os \<Rightarrow> agent_proc" where
  "agent_start listens f s =
     \<lparr>ap_srv = New s (agentConfig s f), ap_os = s, ap_pending = [], ap_sent = [], ap_stopping = False, ap_closed = False,
      ap_exit = (if listens (listenPort f) then None else Some 1)\<rparr>"

text \<open>
  A connection that was accepted before the listener closed may still deliver its request.  \<open>Serve\<close> returns as soon as the listener is
  closed, and with it \<open>main\<close>: nothing waits for \<open>Shutdown\<close> to return.
\<close>

inductive agent_step :: "(string \<Rightarrow> (BatchRequest \<times> string) option) \<Rightarrow> runner \<Rightarrow> agent_proc \<Rightarrow> agent_proc \<Rightarrow> bool" for json run where
  request: "ap_exit p = None \<Longrightarrow> agent_Handler json run (ap_srv p) meth path body (ap_os p) = (r, shut, srv', s') \<Longrightarrow>
    agent_step json run p
      (p\<lparr>ap_srv := srv', ap_os := s', ap_pending := ap_pending p @ [r], ap_stopping := ap_stopping p \<or> shut\<rparr>)"
| flush: "ap_exit p = None \<Longrightarrow> ap_pending p = xs @ r # ys \<Longrightarrow>
    agent_step json run p (p\<lparr>ap_pending := xs @ ys, ap_sent := ap_sent p @ [r]\<rparr>)"
| close: "ap_exit p = None \<Longrightarrow> ap_stopping p \<Longrightarrow> agent_step json run p (p\<lparr>ap_closed := True\<rparr>)"
| return: "ap_exit p = None \<Longrightarrow> ap_closed p \<Longrightarrow> agent_step json run p (p\<lparr>ap_exit := Some 0\<rparr>)"
| fatal: "ap_exit p = None \<Longrightarrow> \<not> ap_closed p \<Longrightarrow> agent_step json run p (p\<lparr>ap_exit := Some 1\<rparr>)"

inductive_cases agent_stepE: "agent_step json run p p'"

definition agent_runs :: "(string \<Rightarrow> (BatchRequest \<times> string) option) \<Rightarrow> runner \<Rightarrow> agent_proc \<Rightarrow> agent_proc \<Rightarrow> bool" where
  "agent_runs json run = (agent_step json run)\<^sup>*\<^sup>*"

section \<open>One batch in the life of a process\<close>

text \<open>What a process has done: nothing yet, or the batch of one request, whose reply is the only one that can carry results.\<close>

definition batches :: "agent_proc \<Rightarrow> nat" where
  "batches p = length (filter is_batch (ap_sent p @ ap_pending p))"

definition agent_inv :: "(string \<Rightarrow> (BatchRequest \<times> string) option) \<Rightarrow> runner \<Rightarrow> Server \<Rightarrow> os \<Rightarrow> agent_proc \<Rightarrow> bool" where
  "agent_inv json run srv s p =
     ((if s_usedJobs (ap_srv p) then \<exists>body r shut. jobs json run srv body s = (r, shut, ap_srv p, ap_os p) \<and> batches p \<le> 1
       else ap_srv p = srv \<and> ap_os p = s \<and> batches p = 0 \<and> \<not> ap_stopping p) \<and>
      (ap_closed p \<longrightarrow> ap_stopping p) \<and> (ap_exit p = Some 0 \<longrightarrow> ap_closed p))"

lemma agent_Handler_cases:
  assumes "agent_Handler json run srv meth path body s = (r, shut, srv', s')"
  obtains (jobs) "jobs json run srv body s = (r, shut, srv', s')" | (other) "\<not> is_batch r" "\<not> shut" "srv' = srv" "s' = s"
  using assms agent_Handler_jobs [of meth path body json run srv s] agent_Handler_other [of meth path body json run srv s]
  by (cases "to_jobs (meth, path, body)") auto

lemma Healthz_request: "agent_Handler json run srv ''GET'' ''/healthz'' body s = (healthz, False, srv, s)"
proof -
  have "mux agent_routes ''GET'' ''/healthz'' = Routed Healthz []" by code_simp
  then show ?thesis by (simp add: agent_Handler_def)
qed

lemma PostJobs_request: "agent_Handler json run srv ''POST'' ''/jobs'' body s = jobs json run srv body s"
proof -
  have "mux agent_routes ''POST'' ''/jobs'' = Routed PostJobs []" by code_simp
  then show ?thesis by (simp add: agent_Handler_def)
qed

lemma jobs_again: "s_usedJobs srv \<Longrightarrow> jobs json run srv body s = (r, shut, srv', s') \<Longrightarrow> \<not> is_batch r \<and> \<not> shut \<and> srv' = srv \<and> s' = s"
  by (auto simp: jobs_def)

lemma agent_inv_request:
  assumes inv: "agent_inv json run srv s p" and h: "agent_Handler json run (ap_srv p) meth path body (ap_os p) = (r, shut, srv', s')"
    and exit: "ap_exit p = None"
  shows "agent_inv json run srv s
    (p\<lparr>ap_srv := srv', ap_os := s', ap_pending := ap_pending p @ [r], ap_stopping := ap_stopping p \<or> shut\<rparr>)"
proof (cases "s_usedJobs (ap_srv p)")
  case True
  from h have "\<not> is_batch r \<and> \<not> shut \<and> srv' = ap_srv p \<and> s' = ap_os p"
    by (cases rule: agent_Handler_cases) (auto dest: jobs_again [OF True])
  with inv True exit show ?thesis by (auto simp: agent_inv_def batches_def)
next
  case False
  with inv have p: "ap_srv p = srv" "ap_os p = s" "batches p = 0" by (auto simp: agent_inv_def)
  from h show ?thesis
  proof (cases rule: agent_Handler_cases)
    case jobs
    then have "s_usedJobs srv'" using jobs_used [of json run "ap_srv p" body "ap_os p"] by simp
    with jobs p inv exit show ?thesis by (auto simp: agent_inv_def batches_def)
  next
    case other
    with inv False exit show ?thesis by (auto simp: agent_inv_def batches_def)
  qed
qed

lemma agent_inv_step: "agent_step json run p p' \<Longrightarrow> agent_inv json run srv s p \<Longrightarrow> agent_inv json run srv s p'"
  by (erule agent_stepE) (auto intro: agent_inv_request, auto simp: agent_inv_def batches_def split: if_splits)

lemma agent_inv_runs: "agent_runs json run p p' \<Longrightarrow> agent_inv json run srv s p \<Longrightarrow> agent_inv json run srv s p'"
  unfolding agent_runs_def by (induction rule: rtranclp_induct) (auto intro: agent_inv_step)

text \<open>
  C20.  In every state that the agent's process can reach: its file system is untouched or is what the batch of one single request made of it,
  at most one reply with results was sent, and the process has exited with status 0 only after a jobs request asked it to.
\<close>

theorem agent_process_one_batch:
  assumes "agent_runs json run (agent_start listens f s) p"
  shows "(ap_os p = s \<or> (\<exists>body. ap_os p = snd (snd (snd (jobs json run (New s (agentConfig s f)) body s))))) \<and>
    length (filter is_batch (ap_sent p)) \<le> 1 \<and> (ap_exit p = Some 0 \<longrightarrow> s_usedJobs (ap_srv p))"
proof -
  have "agent_inv json run (New s (agentConfig s f)) s (agent_start listens f s)"
    by (simp add: agent_inv_def agent_start_def batches_def New_def Let_def)
  from agent_inv_runs [OF assms this] show ?thesis
    by (auto simp: agent_inv_def batches_def split: if_splits)
      (metis snd_conv)+
qed

definition probing_process :: agent_proc where
  "probing_process = (agent_start (\<lambda>p. p = 1024) defaultAgentFlags demo_os)\<lparr>ap_pending := [healthz]\<rparr>"

theorem agent_process_one_batch_witness:
  "agent_runs (\<lambda>_. None) no_runner (agent_start (\<lambda>p. p = 1024) defaultAgentFlags demo_os) probing_process \<and>
   length (filter is_batch (ap_sent probing_process)) \<le> 1"
proof -
  let ?p = "agent_start (\<lambda>p. p = 1024) defaultAgentFlags demo_os"
  have e: "ap_exit ?p = None" by (simp add: agent_start_def listenPort_def defaultAgentFlags_def)
  have "agent_Handler (\<lambda>_. None) no_runner (ap_srv ?p) ''GET'' ''/healthz'' '''' (ap_os ?p) = (healthz, False, ap_srv ?p, ap_os ?p)"
    by (rule Healthz_request)
  from agent_step.request [OF e this]
  have "agent_step (\<lambda>_. None) no_runner ?p probing_process" by (simp add: probing_process_def agent_start_def)
  then have r: "agent_runs (\<lambda>_. None) no_runner ?p probing_process" by (simp add: agent_runs_def)
  from agent_process_one_batch [OF r] r show ?thesis by simp
qed

section \<open>The reply that the exit overtakes\<close>

text \<open>
  C40.  \<open>main\<close> does not wait for the shutdown it started: whenever a batch that asks for the shutdown is decoded, the process can run
  all of it and exit with status 0 while its reply, and every other, is still unwritten.
\<close>

theorem agent_exit_overtakes_reply:
  assumes "listens (listenPort f)"
    and "json (take (nat (c_MaxBodyBytes (s_cfg (New s (agentConfig s f))))) body) = Some (req, [])"
    and "int (length body) \<le> c_MaxBodyBytes (s_cfg (New s (agentConfig s f)))" "af_Shutdown f \<or> b_Shutdown req"
    and "runBatch run (s_cfg (New s (agentConfig s f))) req s = ((resp, status), s')"
  shows "\<exists>p. agent_runs json run (agent_start listens f s) p \<and> ap_exit p = Some 0 \<and> ap_os p = s' \<and> ap_sent p = [] \<and>
    ap_pending p = [BatchReply status resp]"
proof -
  let ?p = "agent_start listens f s"
  let ?srv = "(New s (agentConfig s f))\<lparr>s_usedJobs := True\<rparr>"
  let ?p1 = "?p\<lparr>ap_srv := ?srv, ap_os := s', ap_pending := [BatchReply status resp], ap_stopping := True\<rparr>"
  have flags: "c_ShutdownAfterJobs (s_cfg (New s (agentConfig s f))) = af_Shutdown f" "c_HasShutdown (s_cfg (New s (agentConfig s f)))"
    "\<not> s_usedJobs (New s (agentConfig s f))"
    by (simp_all add: New_def agentConfig_def Let_def)
  have "jobs json run (New s (agentConfig s f)) body s = (BatchReply status resp, True, ?srv, s')"
    using assms flags by (simp add: jobs_def Let_def)
  then have "agent_Handler json run (ap_srv ?p) ''POST'' ''/jobs'' body (ap_os ?p) = (BatchReply status resp, True, ?srv, s')"
    by (simp add: PostJobs_request agent_start_def)
  from agent_step.request [OF _ this] assms(1) have 1: "agent_step json run ?p ?p1" by (simp add: agent_start_def)
  have 2: "agent_step json run ?p1 (?p1\<lparr>ap_closed := True\<rparr>)" by (rule agent_step.close) (use assms(1) in \<open>simp_all add: agent_start_def\<close>)
  have 3: "agent_step json run (?p1\<lparr>ap_closed := True\<rparr>) (?p1\<lparr>ap_closed := True\<rparr>\<lparr>ap_exit := Some 0\<rparr>)"
    by (rule agent_step.return) (use assms(1) in \<open>simp_all add: agent_start_def\<close>)
  have "agent_runs json run ?p (?p1\<lparr>ap_closed := True\<rparr>\<lparr>ap_exit := Some 0\<rparr>)"
    unfolding agent_runs_def using 1 2 3 by (meson rtranclp.rtrancl_into_rtrancl rtranclp.rtrancl_refl)
  then show ?thesis by (rule exI [where x = "?p1\<lparr>ap_closed := True\<rparr>\<lparr>ap_exit := Some 0\<rparr>", OF conjI]) (simp add: agent_start_def)
qed

definition writing_request :: BatchRequest where
  "writing_request = (demo_batch [write_job ''/workspace/a'' False])\<lparr>b_Shutdown := True\<rparr>"

theorem agent_exit_overtakes_reply_witness:
  "\<exists>p. agent_runs (\<lambda>b. Some (writing_request, [])) no_runner (agent_start (\<lambda>p. p = 1024) defaultAgentFlags tidy_os) p \<and>
     ap_exit p = Some 0 \<and> ap_sent p = [] \<and> ent (ap_os p) [''workspace'', ''a''] \<noteq> None"
proof -
  let ?cfg = "s_cfg (New tidy_os (agentConfig tidy_os defaultAgentFlags))"
  let ?r = "runBatch no_runner ?cfg writing_request tidy_os"
  have w: "ent (snd ?r) [''workspace'', ''a''] \<noteq> None" by code_simp
  have "(\<lambda>p. p = 1024) (listenPort defaultAgentFlags)" by (simp add: listenPort_def defaultAgentFlags_def)
  moreover have "(\<lambda>b. Some (writing_request, [])) (take (nat (c_MaxBodyBytes ?cfg)) []) = Some (writing_request, [])" by simp
  moreover have "int (length []) \<le> c_MaxBodyBytes ?cfg" by code_simp
  moreover have "af_Shutdown defaultAgentFlags \<or> b_Shutdown writing_request" by (simp add: writing_request_def)
  moreover obtain resp st s' where "?r = ((resp, st), s')" by (metis prod.collapse)
  ultimately have "\<exists>p. agent_runs (\<lambda>b. Some (writing_request, [])) no_runner (agent_start (\<lambda>p. p = 1024) defaultAgentFlags tidy_os) p \<and>
     ap_exit p = Some 0 \<and> ap_os p = s' \<and> ap_sent p = [] \<and> ap_pending p = [BatchReply st resp]"
    by (rule agent_exit_overtakes_reply)
  moreover have "s' = snd ?r" using \<open>?r = ((resp, st), s')\<close> by simp
  ultimately show ?thesis using w by metis
qed

end
