(* ===== verification/GoJson.thy ===== *)
theory GoJson
  imports GoStrconv
begin

text \<open>
  Package \<open>encoding/json\<close>, as far as the agent's protocol uses it.  A value is read as the scanner reads it: white space, the
  grammar of numbers, escapes with their surrogate pairs, and U+FFFD in place of bytes that are no UTF-8.  It is written
  as \<open>Marshal\<close> writes it: no white space, with the escapes for HTML and the two line separators.  The theory shows that what is written
  is read back, whatever follows it.
\<close>

datatype json =
    JNull
  | JBool bool
  | JNum string
  | JStr string
  | JArr "json list"
  | JObj "(string \<times> json) list"

section \<open>UTF-8\<close>

definition byteOf :: "char \<Rightarrow> nat" where
  "byteOf c = of_char c"

definition continuation :: "char \<Rightarrow> bool" where
  "continuation c = (0x80 \<le> byteOf c \<and> byteOf c \<le> 0xBF)"

text \<open>The number of bytes of the first rune, 0 when it is not well-formed.\<close>

fun runeLen :: "string \<Rightarrow> nat" where
  "runeLen [] = 0"
| "runeLen (c # cs) =
     (let b = byteOf c in
      if b < 0x80 then 1
      else if b < 0xC2 then 0
      else if b < 0xE0 then (case cs of c1 # _ \<Rightarrow> if continuation c1 then 2 else 0 | [] \<Rightarrow> 0)
      else if b < 0xF0 then
        (case cs of
           c1 # c2 # _ \<Rightarrow>
             if continuation c1 \<and> continuation c2 \<and> (b = 0xE0 \<longrightarrow> 0xA0 \<le> byteOf c1) \<and> (b = 0xED \<longrightarrow> byteOf c1 \<le> 0x9F) then 3 else 0
         | _ \<Rightarrow> 0)
      else if b < 0xF5 then
        (case cs of
           c1 # c2 # c3 # _ \<Rightarrow>
             if continuation c1 \<and> continuation c2 \<and> continuation c3 \<and> (b = 0xF0 \<longrightarrow> 0x90 \<le> byteOf c1) \<and> (b = 0xF4 \<longrightarrow> byteOf c1 \<le> 0x8F)
             then 4 else 0
         | _ \<Rightarrow> 0)
      else 0)"

definition utf8 :: "nat \<Rightarrow> string" where
  "utf8 n =
     map char_of
       (if n < 0x80 then [n]
        else if n < 0x800 then [0xC0 + n div 0x40, 0x80 + n mod 0x40]
        else if n < 0x10000 then [0xE0 + n div 0x1000, 0x80 + n div 0x40 mod 0x40, 0x80 + n mod 0x40]
        else [0xF0 + n div 0x40000, 0x80 + n div 0x1000 mod 0x40, 0x80 + n div 0x40 mod 0x40, 0x80 + n mod 0x40])"

function valid_utf8 :: "string \<Rightarrow> bool" where
  "valid_utf8 [] = True"
| "valid_utf8 (c # cs) = (runeLen (c # cs) \<noteq> 0 \<and> valid_utf8 (drop (runeLen (c # cs) - 1) cs))"
  by pat_completeness auto
termination by (relation "measure length") auto

section \<open>Writing\<close>

definition hex_char :: "nat \<Rightarrow> char" where
  "hex_char n = (if n < 10 then char_of (48 + n) else char_of (87 + n))"

definition u_escape :: "nat \<Rightarrow> string" where
  "u_escape n = [CHR 0x5C, CHR ''u'', hex_char (n div 0x1000), hex_char (n div 0x100 mod 0x10), hex_char (n div 0x10 mod 0x10), hex_char (n mod 0x10)]"

definition escape :: "char \<Rightarrow> string" where
  "escape c =
     (if c = CHR 0x22 then [CHR 0x5C, CHR 0x22]
      else if c = CHR 0x5C then [CHR 0x5C, CHR 0x5C]
      else if c = CHR 0x08 then [CHR 0x5C, CHR ''b'']
      else if c = CHR 0x0C then [CHR 0x5C, CHR ''f'']
      else if c = CHR 0x0A then [CHR 0x5C, CHR ''n'']
      else if c = CHR 0x0D then [CHR 0x5C, CHR ''r'']
      else if c = CHR 0x09 then [CHR 0x5C, CHR ''t'']
      else if byteOf c < 0x20 \<or> c \<in> {CHR ''<'', CHR ''>'', CHR ''&''} then u_escape (byteOf c)
      else [c])"

function appendString :: "string \<Rightarrow> string" where
  "appendString [] = []"
| "appendString (c # cs) =
     (let k = runeLen (c # cs); r = take k (c # cs) in
      if k = 0 then u_escape 0xFFFD @ appendString cs
      else if k = 1 then escape c @ appendString cs
      else (if r = utf8 0x2028 then u_escape 0x2028 else if r = utf8 0x2029 then u_escape 0x2029 else r) @ appendString (drop (k - 1) cs))"
  by pat_completeness auto
termination by (relation "measure length") auto

definition quoted :: "string \<Rightarrow> string" where
  "quoted s = CHR 0x22 # appendString s @ [CHR 0x22]"

fun compact :: "json \<Rightarrow> string" where
  "compact JNull = ''null''"
| "compact (JBool b) = (if b then ''true'' else ''false'')"
| "compact (JNum lit) = lit"
| "compact (JStr s) = quoted s"
| "compact (JArr vs) = ''['' @ join_with '','' (map compact vs) @ '']''"
| "compact (JObj ms) = ''{'' @ join_with '','' (map (\<lambda>m. quoted (fst m) @ '':'' @ compact (snd m)) ms) @ ''}''"

section \<open>Reading\<close>

definition json_blank :: "char \<Rightarrow> bool" where
  "json_blank c = (c \<in> {CHR '' '', CHR 0x09, CHR 0x0A, CHR 0x0D})"

definition skipSpace :: "string \<Rightarrow> string" where
  "skipSpace s = dropWhile json_blank s"

definition hex_val :: "char \<Rightarrow> nat option" where
  "hex_val c =
     (if is_digit c then Some (byteOf c - 48)
      else if 97 \<le> byteOf c \<and> byteOf c \<le> 102 then Some (byteOf c - 87)
      else if 65 \<le> byteOf c \<and> byteOf c \<le> 70 then Some (byteOf c - 55)
      else None)"

definition hex4 :: "string \<Rightarrow> nat option" where
  "hex4 s =
     (case map hex_val (take 4 s) of
        [Some a, Some b, Some c, Some d] \<Rightarrow> Some (a * 0x1000 + b * 0x100 + c * 0x10 + d)
      | _ \<Rightarrow> None)"

definition simple_escape :: "char \<Rightarrow> char option" where
  "simple_escape e =
     (if e = CHR 0x22 \<or> e = CHR 0x5C \<or> e = CHR ''/'' then Some e
      else if e = CHR ''b'' then Some (CHR 0x08)
      else if e = CHR ''f'' then Some (CHR 0x0C)
      else if e = CHR ''n'' then Some (CHR 0x0A)
      else if e = CHR ''r'' then Some (CHR 0x0D)
      else if e = CHR ''t'' then Some (CHR 0x09)
      else None)"

definition low_surrogate :: "string \<Rightarrow> nat option" where
  "low_surrogate s =
     (case s of
        c # d # ds \<Rightarrow>
          if c = CHR 0x5C \<and> d = CHR ''u''
          then (case hex4 ds of Some m \<Rightarrow> if 0xDC00 \<le> m \<and> m < 0xE000 then Some m else None | None \<Rightarrow> None)
          else None
      | _ \<Rightarrow> None)"

text \<open>A string after its opening quote: its bytes, and what follows the closing quote.\<close>

function scanString :: "string \<Rightarrow> (string \<times> string) option" where
  "scanString [] = None"
| "scanString (c # cs) =
     (if c = CHR 0x22 then Some ([], cs)
      else if c = CHR 0x5C then
        (case cs of
           [] \<Rightarrow> None
         | e # ds \<Rightarrow>
             if e = CHR ''u'' then
               (case hex4 ds of
                  None \<Rightarrow> None
                | Some n \<Rightarrow>
                    if 0xD800 \<le> n \<and> n < 0xE000 then
                      (case (n < 0xDC00, low_surrogate (drop 4 ds)) of
                         (True, Some m) \<Rightarrow>
                           map_option (apfst (append (utf8 (0x10000 + (n - 0xD800) * 0x400 + (m - 0xDC00))))) (scanString (drop 10 ds))
                       | _ \<Rightarrow> map_option (apfst (append (utf8 0xFFFD))) (scanString (drop 4 ds)))
                    else map_option (apfst (append (utf8 n))) (scanString (drop 4 ds)))
             else (case simple_escape e of None \<Rightarrow> None | Some x \<Rightarrow> map_option (apfst ((#) x)) (scanString ds)))
      else if byteOf c < 0x20 then None
      else if runeLen (c # cs) = 0 then map_option (apfst (append (utf8 0xFFFD))) (scanString cs)
      else map_option (apfst (append (take (runeLen (c # cs)) (c # cs)))) (scanString (drop (runeLen (c # cs) - 1) cs)))"
  by pat_completeness auto
termination by (relation "measure length") auto

definition digits1 :: "string \<Rightarrow> (string \<times> string) option" where
  "digits1 s = (if takeWhile is_digit s = [] then None else Some (takeWhile is_digit s, dropWhile is_digit s))"

definition intPart :: "string \<Rightarrow> (string \<times> string) option" where
  "intPart s = (case s of c # r \<Rightarrow> if c = CHR ''0'' then Some ([c], r) else digits1 s | [] \<Rightarrow> None)"

definition fracPart :: "string \<Rightarrow> (string \<times> string) option" where
  "fracPart s = (case s of c # r \<Rightarrow> if c = CHR ''.'' then map_option (apfst ((#) c)) (digits1 r) else Some ([], s) | [] \<Rightarrow> Some ([], s))"

definition expPart :: "string \<Rightarrow> (string \<times> string) option" where
  "expPart s =
     (case s of
        c # r \<Rightarrow>
          if c = CHR ''e'' \<or> c = CHR ''E'' then
            (case r of
               g # t \<Rightarrow> if g = CHR ''+'' \<or> g = CHR ''-'' then map_option (apfst (\<lambda>d. c # g # d)) (digits1 t)
                         else map_option (apfst ((#) c)) (digits1 r)
             | [] \<Rightarrow> None)
          else Some ([], s)
      | [] \<Rightarrow> Some ([], s))"

definition scanUnsigned :: "string \<Rightarrow> (string \<times> string) option" where
  "scanUnsigned s =
     (case intPart s of
        None \<Rightarrow> None
      | Some (i, r) \<Rightarrow> (case fracPart r of
          None \<Rightarrow> None
        | Some (f, r1) \<Rightarrow> map_option (apfst (append (i @ f))) (expPart r1)))"

definition scanNumber :: "string \<Rightarrow> (string \<times> string) option" where
  "scanNumber s =
     (case s of
        c # r \<Rightarrow> if c = CHR ''-'' then map_option (apfst ((#) c)) (scanUnsigned r) else scanUnsigned s
      | [] \<Rightarrow> None)"

definition scanWord :: "string \<Rightarrow> json \<Rightarrow> string \<Rightarrow> (json \<times> string) option" where
  "scanWord w v s = (if prefix w s then Some (v, drop (length w) s) else None)"

text \<open>A value, the elements of an array and the members of an object; two levels of the recursion read at least one byte, so twice the length of the text is fuel enough.\<close>

fun scanValue :: "nat \<Rightarrow> string \<Rightarrow> (json \<times> string) option"
  and scanElems :: "nat \<Rightarrow> string \<Rightarrow> (json list \<times> string) option"
  and scanMembers :: "nat \<Rightarrow> string \<Rightarrow> ((string \<times> json) list \<times> string) option" where
  "scanValue 0 s = None"
| "scanValue (Suc n) s =
     (case skipSpace s of
        [] \<Rightarrow> None
      | c # r \<Rightarrow>
          if c = CHR ''{'' then
            (case skipSpace r of
               [] \<Rightarrow> None
             | c1 # r1 \<Rightarrow> if c1 = CHR ''}'' then Some (JObj [], r1) else map_option (apfst JObj) (scanMembers n r))
          else if c = CHR ''['' then
            (case skipSpace r of
               [] \<Rightarrow> None
             | c1 # r1 \<Rightarrow> if c1 = CHR '']'' then Some (JArr [], r1) else map_option (apfst JArr) (scanElems n r))
          else if c = CHR 0x22 then map_option (apfst JStr) (scanString r)
          else if c = CHR ''t'' then scanWord ''true'' (JBool True) (c # r)
          else if c = CHR ''f'' then scanWord ''false'' (JBool False) (c # r)
          else if c = CHR ''n'' then scanWord ''null'' JNull (c # r)
          else map_option (apfst JNum) (scanNumber (c # r)))"
| "scanElems 0 s = None"
| "scanElems (Suc n) s =
     (case scanValue n s of
        None \<Rightarrow> None
      | Some (v, r) \<Rightarrow>
          (case skipSpace r of
             [] \<Rightarrow> None
           | c # r1 \<Rightarrow>
               if c = CHR '','' then map_option (apfst ((#) v)) (scanElems n r1)
               else if c = CHR '']'' then Some ([v], r1) else None))"
| "scanMembers 0 s = None"
| "scanMembers (Suc n) s =
     (case skipSpace s of
        [] \<Rightarrow> None
      | q # r \<Rightarrow>
          if q \<noteq> CHR 0x22 then None
          else (case scanString r of
            None \<Rightarrow> None
          | Some (k, r1) \<Rightarrow>
              (case skipSpace r1 of
                 [] \<Rightarrow> None
               | c # r2 \<Rightarrow>
                   if c \<noteq> CHR '':'' then None
                   else (case scanValue n r2 of
                     None \<Rightarrow> None
                   | Some (v, r3) \<Rightarrow>
                       (case skipSpace r3 of
                          [] \<Rightarrow> None
                        | d # r4 \<Rightarrow>
                            if d = CHR '','' then map_option (apfst ((#) (k, v))) (scanMembers n r4)
                            else if d = CHR ''}'' then Some ([(k, v)], r4) else None)))))"

definition readValue :: "string \<Rightarrow> (json \<times> string) option" where
  "readValue s = scanValue (2 * length s + 1) s"

section \<open>Strings are read back\<close>

declare valid_utf8.simps [simp del] appendString.simps [simp del] scanString.simps [simp del]

lemma runeLen_le: "runeLen s \<le> length s"
  by (cases s) (auto simp: Let_def split: list.splits)

lemma runeLen_take:
  assumes "runeLen s = k" "k \<noteq> 0"
  shows "runeLen (take k s @ t) = k"
proof (cases s)
  case (Cons c cs)
  then show ?thesis
    using assms by (cases cs; cases "tl cs"; cases "tl (tl cs)") (auto simp: Let_def split: if_splits)
qed (use assms in simp)

lemma runeLen_ascii: "runeLen (c # cs) = 1 \<longleftrightarrow> byteOf c < 0x80"
  by (auto simp: Let_def split: list.splits)

lemma runeLen_multi: "2 \<le> runeLen (c # cs) \<Longrightarrow> 0xC2 \<le> byteOf c"
  by (auto simp: Let_def split: list.splits if_splits)

lemma hex_val_hex_char: "k < 16 \<Longrightarrow> hex_val (hex_char k) = Some k"
proof -
  have "list_all (\<lambda>k. hex_val (hex_char k) = Some k) [0..<16]" by code_simp
  then show "k < 16 \<Longrightarrow> hex_val (hex_char k) = Some k" by (auto simp: list_all_iff)
qed

lemma hex4_u_escape: "n < 0x10000 \<Longrightarrow> hex4 (drop 2 (u_escape n) @ t) = Some n"
proof -
  assume n: "n < 0x10000"
  have e: "x = x div 0x10 * 0x10 + x mod 0x10" for x :: nat by simp
  have d: "n div 0x100 = n div 0x10 div 0x10" "n div 0x1000 = n div 0x10 div 0x10 div 0x10" by (simp_all add: div_mult2_eq [symmetric])
  have "x = a * 0x10 + i \<Longrightarrow> a = b * 0x10 + j \<Longrightarrow> b = c * 0x10 + k \<Longrightarrow> c * 0x1000 + k * 0x100 + j * 0x10 + i = x" for a b c i j k x :: nat
    by simp
  from this [OF e e e] have "n div 0x1000 * 0x1000 + n div 0x100 mod 0x10 * 0x100 + n div 0x10 mod 0x10 * 0x10 + n mod 0x10 = n"
    unfolding d .
  moreover have "n div 0x1000 < 16" using n by (simp add: less_mult_imp_div_less)
  ultimately show ?thesis by (simp add: hex4_def u_escape_def hex_val_hex_char)
qed

lemma scanString_u_escape:
  assumes "n < 0x10000" "n < 0xD800 \<or> 0xE000 \<le> n"
  shows "scanString (u_escape n @ t) = map_option (apfst (append (utf8 n))) (scanString t)"
proof -
  let ?ds = "drop 2 (u_escape n)"
  have u: "u_escape n @ t = CHR 0x5C # CHR ''u'' # (?ds @ t)" by (simp add: u_escape_def)
  have "drop 4 (?ds @ t) = t" by (simp add: u_escape_def)
  moreover have "\<not> (0xD800 \<le> n \<and> n < 0xE000)" using assms(2) by linarith
  ultimately show ?thesis
    unfolding u using hex4_u_escape [OF assms(1), of t] by (auto simp add: scanString.simps simp del: drop_append)
qed

lemma byteOf_char_of [simp]: "n < 256 \<Longrightarrow> byteOf (char_of n) = n"
  by (simp add: byteOf_def of_char_of)

lemma char_of_byteOf [simp]: "char_of (byteOf c) = c"
  by (simp add: byteOf_def)

lemma scanString_escape:
  assumes "byteOf c < 0x80"
  shows "scanString (escape c @ t) = map_option (apfst ((#) c)) (scanString t)"
proof (cases "escape c = u_escape (byteOf c)")
  case True
  have "(append (utf8 (byteOf c)) :: string \<Rightarrow> string) = (#) c" using assms by (auto simp: utf8_def)
  then show ?thesis using scanString_u_escape [of "byteOf c" t] assms unfolding True by simp
next
  case False
  moreover have "(append [c] :: string \<Rightarrow> string) = (#) c" by auto
  ultimately show ?thesis
    using assms by (auto simp: escape_def scanString.simps simple_escape_def runeLen_ascii split: if_splits)
qed

lemma scanString_rune:
  assumes "2 \<le> runeLen s"
  shows "scanString (take (runeLen s) s @ t) = map_option (apfst (append (take (runeLen s) s))) (scanString t)"
proof (cases s)
  case (Cons c cs)
  obtain k where k: "runeLen s = Suc k" using assms by (cases "runeLen s") auto
  have l: "k \<le> length cs" using runeLen_le [of s] k Cons by simp
  have r: "runeLen (c # take k cs @ t) = Suc k" using runeLen_take [OF k, where t = t] Cons by simp
  have "0xC2 \<le> byteOf c" using runeLen_multi [of c cs] assms Cons by simp
  then have "c \<noteq> CHR 0x22" "c \<noteq> CHR 0x5C" "\<not> byteOf c < 0x20" by (auto simp: byteOf_def)
  then show ?thesis using k r l Cons by (simp add: scanString.simps)
qed (use assms in simp)

lemma scanString_append_step:
  assumes valid: "valid_utf8 (c # cs)"
    and IH: "\<And>u. length u < length (c # cs) \<Longrightarrow> valid_utf8 u \<Longrightarrow> scanString (appendString u @ CHR 0x22 # t) = Some (u, t)"
  shows "scanString (appendString (c # cs) @ CHR 0x22 # t) = Some (c # cs, t)"
proof -
  define k where "k = runeLen (c # cs)"
  let ?r = "take k (c # cs)"
  let ?u = "drop (k - 1) cs"
  have "k \<noteq> 0 \<and> valid_utf8 ?u" using valid unfolding valid_utf8.simps k_def .
  then have k: "k \<noteq> 0" and v: "valid_utf8 ?u" by blast+
  have split: "?r @ ?u = c # cs" using k by (cases k) auto
  have u: "scanString (appendString ?u @ CHR 0x22 # t) = Some (?u, t)" by (rule IH [OF _ v]) simp
  show ?thesis
  proof (cases "k = 1")
    case True
    then have "byteOf c < 0x80" unfolding k_def by (simp only: runeLen_ascii)
    moreover have "appendString (c # cs) = escape c @ appendString ?u"
      using True unfolding appendString.simps k_def [symmetric] by simp
    ultimately show ?thesis using u split True by (simp add: scanString_escape)
  next
    case False
    then have k2: "2 \<le> runeLen (c # cs)" using k unfolding k_def by linarith
    let ?e = "if ?r = utf8 0x2028 then u_escape 0x2028 else if ?r = utf8 0x2029 then u_escape 0x2029 else ?r"
    have "appendString (c # cs) = ?e @ appendString ?u"
      using False k unfolding appendString.simps k_def [symmetric] Let_def by simp
    moreover have "scanString (?e @ w) = map_option (apfst (append ?r)) (scanString w)" for w
      using scanString_rune [OF k2, where t = w] scanString_u_escape [where n = "0x2028" and t = w]
        scanString_u_escape [where n = "0x2029" and t = w] unfolding k_def by auto
    ultimately show ?thesis using u split by simp
  qed
qed

lemma scanString_appendString: "valid_utf8 s \<Longrightarrow> scanString (appendString s @ CHR 0x22 # t) = Some (s, t)"
proof (induction "length s" arbitrary: s rule: less_induct)
  case (less s)
  show ?case
  proof (cases s)
    case Nil
    then show ?thesis by (simp add: appendString.simps scanString.simps)
  next
    case (Cons c cs)
    have "scanString (appendString (c # cs) @ CHR 0x22 # t) = Some (c # cs, t)"
      by (rule scanString_append_step) (use less Cons in auto)
    then show ?thesis using Cons by simp
  qed
qed

lemma scanString_quoted: "valid_utf8 s \<Longrightarrow> scanString (tl (quoted s) @ t) = Some (s, t)"
  by (simp add: quoted_def scanString_appendString)

section \<open>Values are read back\<close>

text \<open>What may follow a number: nothing that would continue it.\<close>

definition delim :: "string \<Rightarrow> bool" where
  "delim t = (case t of [] \<Rightarrow> True | c # _ \<Rightarrow> \<not> is_digit c \<and> c \<noteq> CHR ''.'' \<and> c \<noteq> CHR ''e'' \<and> c \<noteq> CHR ''E'')"

text \<open>The values that \<open>Marshal\<close> makes: integers for numbers, and strings of UTF-8.\<close>

fun wf_json :: "json \<Rightarrow> bool" where
  "wf_json (JNum lit) = (case Atoi lit of Some i \<Rightarrow> lit = Itoa i | None \<Rightarrow> False)"
| "wf_json (JStr s) = valid_utf8 s"
| "wf_json (JArr vs) = list_all wf_json vs"
| "wf_json (JObj ms) = list_all (\<lambda>m. valid_utf8 (fst m) \<and> wf_json (snd m)) ms"
| "wf_json _ = True"

lemma digits1_itoa: "delim t \<Longrightarrow> digits1 (itoa n @ t) = Some (itoa n, t)"
proof -
  assume t: "delim t"
  have "takeWhile is_digit (itoa n @ t) = itoa n" "dropWhile is_digit (itoa n @ t) = t"
    using itoa_digits [of n] t by (cases t; auto simp: delim_def list_all_iff takeWhile_append2 dropWhile_append2)+
  then show ?thesis using itoa_not_Nil by (simp add: digits1_def)
qed

lemma scanUnsigned_itoa:
  assumes "delim t"
  shows "scanUnsigned (itoa n @ t) = Some (itoa n, t)"
proof -
  have "intPart (itoa n @ t) = Some (itoa n, t)"
  proof (cases "n = 0")
    case True
    have "itoa 0 = ''0''" by code_simp
    then show ?thesis using True by (simp add: intPart_def)
  next
    case False
    then have "hd (itoa n) \<noteq> CHR ''0''" using itoa_hd by simp
    moreover obtain c cs where "itoa n = c # cs" using itoa_not_Nil by (cases "itoa n") auto
    ultimately show ?thesis using digits1_itoa [OF assms, of n] by (simp add: intPart_def)
  qed
  then show ?thesis using assms by (simp add: scanUnsigned_def fracPart_def expPart_def delim_def split: list.splits)
qed

lemma itoa_no_minus: "itoa n = c # cs \<Longrightarrow> c \<noteq> CHR ''-''"
  using itoa_digits [of n] by (auto simp: is_digit_def)

lemma scanNumber_Itoa: "delim t \<Longrightarrow> scanNumber (Itoa i @ t) = Some (Itoa i, t)"
  using scanUnsigned_itoa [of t "nat \<bar>i\<bar>"] itoa_no_minus itoa_not_Nil [of "nat \<bar>i\<bar>"]
  by (cases "itoa (nat \<bar>i\<bar>)") (auto simp: scanNumber_def Itoa_def)

lemma Itoa_head: "\<exists>c cs. Itoa i = c # cs \<and> (is_digit c \<or> c = CHR ''-'')"
  using itoa_digits [of "nat \<bar>i\<bar>"] itoa_not_Nil [of "nat \<bar>i\<bar>"] by (cases "itoa (nat \<bar>i\<bar>)") (auto simp: Itoa_def)

lemma compact_head: "wf_json v \<Longrightarrow> \<exists>c r. compact v = c # r \<and> \<not> json_blank c \<and> c \<noteq> CHR '']'' \<and> c \<noteq> CHR ''}''"
proof (cases v)
  case (JNum lit)
  assume "wf_json v"
  then obtain i where "lit = Itoa i" using JNum by (auto split: option.splits)
  then show ?thesis using Itoa_head [of i] JNum by (auto simp: json_blank_def is_digit_def)
qed (auto simp: json_blank_def quoted_def)

lemma skipSpace_head [simp]: "\<not> json_blank c \<Longrightarrow> skipSpace (c # r) = c # r"
  by (simp add: skipSpace_def)

lemma not_blank [simp]: "\<not> json_blank (CHR 0x22)" "\<not> json_blank (CHR '','')" "\<not> json_blank (CHR '':'')"
  "\<not> json_blank (CHR ''['')" "\<not> json_blank (CHR '']'')" "\<not> json_blank (CHR ''{'')" "\<not> json_blank (CHR ''}'')"
  by (simp_all add: json_blank_def)

lemma delim_punctuation [simp]: "delim (CHR '','' # t)" "delim (CHR '']'' # t)" "delim (CHR ''}'' # t)"
  by (simp_all add: delim_def is_digit_def)

text \<open>A value is read back from any fuel beyond its length.\<close>

definition reads_back :: "json \<Rightarrow> bool" where
  "reads_back v = (\<forall>n t. delim t \<longrightarrow> length (compact v) < n \<longrightarrow> scanValue n (compact v @ t) = Some (v, t))"

lemma reads_backD: "reads_back v \<Longrightarrow> delim t \<Longrightarrow> length (compact v) < n \<Longrightarrow> scanValue n (compact v @ t) = Some (v, t)"
  by (simp add: reads_back_def)

lemma scanElems_compact:
  "vs \<noteq> [] \<Longrightarrow> list_all reads_back vs \<Longrightarrow> length (join_with '','' (map compact vs)) + 1 < n \<Longrightarrow>
   scanElems n (join_with '','' (map compact vs) @ CHR '']'' # t) = Some (vs, t)"
proof (induction vs arbitrary: n)
  case (Cons v vs)
  then obtain m where n: "n = Suc m" by (cases n) auto
  have v: "reads_back v" using Cons.prems by simp
  show ?case
  proof (cases "vs = []")
    case True
    then show ?thesis using Cons.prems n reads_backD [OF v, of "CHR '']'' # t" m] by simp
  next
    case False
    then have j: "join_with '','' (map compact (v # vs)) = compact v @ '','' @ join_with '','' (map compact vs)" by (simp add: join_with_Cons)
    have "scanElems m (join_with '','' (map compact vs) @ CHR '']'' # t) = Some (vs, t)"
      by (rule Cons.IH) (use Cons.prems n False j in auto)
    moreover have "scanValue m (compact v @ CHR '','' # join_with '','' (map compact vs) @ CHR '']'' # t)
        = Some (v, CHR '','' # join_with '','' (map compact vs) @ CHR '']'' # t)"
      by (rule reads_backD [OF v]) (use Cons.prems n j in auto)
    ultimately show ?thesis unfolding j n by simp
  qed
qed simp

definition member :: "string \<times> json \<Rightarrow> string" where
  "member m = quoted (fst m) @ '':'' @ compact (snd m)"

lemma scanMembers_compact:
  "ms \<noteq> [] \<Longrightarrow> list_all (\<lambda>m. valid_utf8 (fst m) \<and> reads_back (snd m)) ms \<Longrightarrow> length (join_with '','' (map member ms)) + 1 < n \<Longrightarrow>
   scanMembers n (join_with '','' (map member ms) @ CHR ''}'' # t) = Some (ms, t)"
proof (induction ms arbitrary: n)
  case (Cons m ms)
  then obtain l where n: "n = Suc l" by (cases n) auto
  obtain k v where m: "m = (k, v)" by (cases m)
  have v: "reads_back v" and k: "valid_utf8 k" using Cons.prems m by simp_all
  have key: "member m @ u = CHR 0x22 # (tl (quoted k) @ CHR '':'' # compact v @ u)" for u by (simp add: m member_def quoted_def)
  note s = scanString_quoted [OF k]
  have len: "length (compact v) < length (member m)" by (simp add: member_def m quoted_def)
  show ?case
  proof (cases "ms = []")
    case True
    then have "scanValue l (compact v @ CHR ''}'' # t) = Some (v, CHR ''}'' # t)"
      by (intro reads_backD [OF v]) (use Cons.prems n len in auto)
    then show ?thesis using True n m key [of "CHR ''}'' # t"] s by simp
  next
    case False
    let ?j = "join_with '','' (map member ms) @ CHR ''}'' # t"
    have j: "join_with '','' (map member (m # ms)) = member m @ '','' @ join_with '','' (map member ms)" using False by (simp add: join_with_Cons)
    have "scanMembers l ?j = Some (ms, t)" by (rule Cons.IH) (use Cons.prems n False j in auto)
    moreover have "scanValue l (compact v @ CHR '','' # ?j) = Some (v, CHR '','' # ?j)"
      by (rule reads_backD [OF v]) (use Cons.prems n len j in auto)
    ultimately show ?thesis unfolding j n using m key [of "CHR '','' # ?j"] s by simp
  qed
qed simp

lemma compact_obj: "compact (JObj ms) = ''{'' @ join_with '','' (map member ms) @ ''}''"
  by (simp add: member_def [abs_def])

lemma join_head: "ws \<noteq> [] \<Longrightarrow> w = c # r \<Longrightarrow> ws = w # us \<Longrightarrow> \<exists>r'. join_with sep ws = c # r'"
  by (cases us) auto

lemma wf_reads_back: "wf_json v \<Longrightarrow> reads_back v"
proof (induction v)
  case (JNum lit)
  then obtain i where i: "lit = Itoa i" by (auto split: option.splits)
  obtain c cs where c: "Itoa i = c # cs" "is_digit c \<or> c = CHR ''-''" using Itoa_head by blast
  have "scanValue n (lit @ t) = Some (JNum lit, t)" if t: "delim t" and n: "length lit < n" for n t
  proof -
    obtain m where m: "n = Suc m" using n by (cases n) auto
    have "\<not> json_blank c" "c \<noteq> CHR ''{''" "c \<noteq> CHR ''[''" "c \<noteq> CHR 0x22" "c \<noteq> CHR ''t''" "c \<noteq> CHR ''f''" "c \<noteq> CHR ''n''"
      using c(2) by (auto simp: json_blank_def is_digit_def)
    then show ?thesis using scanNumber_Itoa [OF t, of i] c(1) i m by simp
  qed
  then show ?case by (simp add: reads_back_def)
next
  case (JArr vs)
  have "scanValue n (compact (JArr vs) @ t) = Some (JArr vs, t)" if n: "length (compact (JArr vs)) < n" for n t
  proof -
    obtain m where m: "n = Suc m" using n by (cases n) auto
    show ?thesis
    proof (cases vs)
      case (Cons v us)
      have "wf_json v" using JArr.prems Cons by simp
      then obtain c r where c: "compact v = c # r" "\<not> json_blank c" "c \<noteq> CHR '']''" using compact_head by blast
      then obtain r' where r': "join_with '','' (map compact vs) = c # r'"
        using join_head [of "map compact vs" "compact v" c r "map compact us"] Cons by auto
      have "scanElems m (join_with '','' (map compact vs) @ CHR '']'' # t) = Some (vs, t)"
        by (rule scanElems_compact) (use JArr Cons n m in \<open>auto simp: list_all_iff\<close>)
      then show ?thesis using m c r' by simp
    qed (use m in simp)
  qed
  then show ?case by (simp add: reads_back_def)
next
  case (JObj ms)
  have "scanValue n (compact (JObj ms) @ t) = Some (JObj ms, t)" if n: "length (compact (JObj ms)) < n" for n t
  proof -
    obtain m where m: "n = Suc m" using n by (cases n) auto
    show ?thesis
    proof (cases ms)
      case (Cons e us)
      obtain r where "member e = CHR 0x22 # r" by (simp add: member_def quoted_def)
      then obtain r' where r': "join_with '','' (map member ms) = CHR 0x22 # r'"
        using join_head [of "map member ms" "member e" "CHR 0x22" r "map member us"] Cons by auto
      have "list_all (\<lambda>m. valid_utf8 (fst m) \<and> reads_back (snd m)) ms"
        using JObj by (auto simp: list_all_iff intro: snds.intros)
      then have "scanMembers m (join_with '','' (map member ms) @ CHR ''}'' # t) = Some (ms, t)"
        by (intro scanMembers_compact) (use Cons n m in \<open>auto simp: compact_obj simp del: compact.simps\<close>)
      then show ?thesis unfolding compact_obj using m r' by simp
    qed (use m in simp)
  qed
  then show ?case by (simp add: reads_back_def)
next
  case (JStr s)
  have "scanValue n (quoted s @ t) = Some (JStr s, t)" if "length (quoted s) < n" for n t
    using that scanString_quoted [of s t] JStr by (cases n) (auto simp: quoted_def)
  then show ?case by (simp add: reads_back_def)
qed (auto simp: reads_back_def scanWord_def json_blank_def less_iff_Suc_add)

text \<open>The round trip: what \<open>Marshal\<close> writes is read back, with whatever follows it left over.\<close>

theorem readValue_compact: "wf_json v \<Longrightarrow> delim t \<Longrightarrow> readValue (compact v @ t) = Some (v, t)"
  unfolding readValue_def by (intro reads_backD wf_reads_back) auto

section \<open>The fuel is enough\<close>

lemma skipSpace_length: "length (skipSpace s) \<le> length s"
  by (simp add: skipSpace_def length_dropWhile_le)

lemma skipSpace_Cons: "skipSpace s = c # r \<Longrightarrow> length r < length s"
  using skipSpace_length [of s] by simp

lemma scanString_length: "scanString s = Some (x, r) \<Longrightarrow> length r < length s"
proof (induction s arbitrary: x r rule: scanString.induct)
  case (2 c cs)
  show ?case
  proof (rule ccontr)
    assume "\<not> length r < length (c # cs)"
    with 2 show False
      by (subst (asm) scanString.simps) (fastforce split: if_splits list.splits option.splits bool.splits)
  qed
qed (simp add: scanString.simps)

lemma digits1_length: "digits1 s = Some (x, r) \<Longrightarrow> length r < length s"
proof -
  assume d: "digits1 s = Some (x, r)"
  then have "takeWhile is_digit s \<noteq> []" "r = dropWhile is_digit s" by (auto simp: digits1_def split: if_splits)
  then show ?thesis using takeWhile_dropWhile_id [of is_digit s] by (metis append_Nil length_append length_greater_0_conv less_add_same_cancel2)
qed

lemma scanUnsigned_length: "scanUnsigned s = Some (x, r) \<Longrightarrow> length r < length s"
proof -
  assume s: "scanUnsigned s = Some (x, r)"
  then obtain i r1 f r2 e where i: "intPart s = Some (i, r1)" and f: "fracPart r1 = Some (f, r2)" and e: "expPart r2 = Some (e, r)"
    by (auto simp: scanUnsigned_def split: option.splits)
  have "length r1 < length s" using i digits1_length [of s] by (auto simp: intPart_def split: list.splits if_splits)
  moreover have "length r2 \<le> length r1" using f digits1_length by (fastforce simp: fracPart_def split: list.splits if_splits)
  moreover have "length r \<le> length r2" using e digits1_length by (fastforce simp: expPart_def split: list.splits if_splits)
  ultimately show ?thesis by simp
qed

lemma scanNumber_length: "scanNumber s = Some (x, r) \<Longrightarrow> length r < length s"
  using scanUnsigned_length by (fastforce simp: scanNumber_def split: list.splits if_splits)

lemma scan_length:
  "scanValue n s = Some (v, r) \<Longrightarrow> length r < length s"
  "scanElems n s = Some (vs, r) \<Longrightarrow> length r < length s"
  "scanMembers n s = Some (ms, r) \<Longrightarrow> length r < length s"
proof (induction n s and n s and n s arbitrary: v r and vs r and ms r rule: scanValue_scanElems_scanMembers.induct)
  case (2 n s)
  then show ?case
    using scanString_length scanNumber_length skipSpace_Cons [of s]
    by (fastforce simp: scanWord_def dest: skipSpace_Cons split: list.splits if_splits)
next
  case (4 n s)
  then show ?case by (fastforce dest: skipSpace_Cons split: option.splits list.splits if_splits)
next
  case (6 n s)
  then show ?case by (fastforce dest: skipSpace_Cons scanString_length split: option.splits list.splits if_splits)
qed simp_all

definition fuel_ok :: "nat \<Rightarrow> bool" where
  "fuel_ok n =
     (\<forall>s m. (2 * length s < n \<longrightarrow> 2 * length s < m \<longrightarrow> scanValue n s = scanValue m s) \<and>
       (2 * length s + 1 < n \<longrightarrow> 2 * length s + 1 < m \<longrightarrow> scanElems n s = scanElems m s \<and> scanMembers n s = scanMembers m s))"

lemma fuel_okD:
  "fuel_ok n \<Longrightarrow> 2 * length s < n \<Longrightarrow> 2 * length s < m \<Longrightarrow> scanValue n s = scanValue m s"
  "fuel_ok n \<Longrightarrow> 2 * length s + 1 < n \<Longrightarrow> 2 * length s + 1 < m \<Longrightarrow> scanElems n s = scanElems m s"
  "fuel_ok n \<Longrightarrow> 2 * length s + 1 < n \<Longrightarrow> 2 * length s + 1 < m \<Longrightarrow> scanMembers n s = scanMembers m s"
  unfolding fuel_ok_def by blast+

lemma fuel_ok_value:
  assumes "fuel_ok n" "2 * length s < Suc n" "2 * length s < Suc k"
  shows "scanValue (Suc n) s = scanValue (Suc k) s"
proof (cases "skipSpace s")
  case (Cons c r)
  have "2 * length r + 1 < n" "2 * length r + 1 < k" using skipSpace_Cons [OF Cons] assms(2,3) by auto
  then have "scanMembers n r = scanMembers k r" "scanElems n r = scanElems k r"
    by (rule fuel_okD(3) [OF assms(1)], rule fuel_okD(2) [OF assms(1)])
  then show ?thesis using Cons by (simp split: list.split)
qed simp

lemma fuel_ok_elems:
  assumes "fuel_ok n" "2 * length s + 1 < Suc n" "2 * length s + 1 < Suc k"
  shows "scanElems (Suc n) s = scanElems (Suc k) s"
proof -
  have v: "scanValue n s = scanValue k s" by (rule fuel_okD(1) [OF assms(1)]) (use assms(2,3) in auto)
  show ?thesis
  proof (cases "scanValue k s")
    case (Some vr)
    obtain x r where x: "vr = (x, r)" by (cases vr)
    have "scanElems n r1 = scanElems k r1" if "skipSpace r = c # r1" for c r1
      by (rule fuel_okD(2) [OF assms(1)]) (use assms(2,3) skipSpace_Cons [OF that] scan_length(1) [of k s x r] Some x in auto)
    then show ?thesis using v Some x by (auto split: list.split)
  qed (simp add: v)
qed

lemma fuel_ok_members:
  assumes "fuel_ok n" "2 * length s + 1 < Suc n" "2 * length s + 1 < Suc k"
  shows "scanMembers (Suc n) s = scanMembers (Suc k) s"
proof -
  have shorter: "scanValue n u = scanValue k u" "2 * length u + 1 < n \<and> 2 * length u + 1 < k \<Longrightarrow> scanMembers n u = scanMembers k u"
    if "length u \<le> length s" for u
    by (rule fuel_okD [OF assms(1)]; use assms(2,3) that in auto)+
  have val: "scanValue n r2 = scanValue k r2"
    if "skipSpace s = q # r" "scanString r = Some (key, r1)" "skipSpace r1 = c # r2" for q r key r1 c r2
    using shorter(1) [of r2] skipSpace_Cons [OF that(1)] scanString_length [OF that(2)] skipSpace_Cons [OF that(3)] by simp
  have next': "scanMembers n r4 = scanMembers k r4"
    if "skipSpace s = q # r" "scanString r = Some (key, r1)" "skipSpace r1 = c # r2" "scanValue k r2 = Some (x, r3)" "skipSpace r3 = d # r4"
    for q r key r1 c r2 x r3 d r4
    using shorter(2) [of r4] skipSpace_Cons [OF that(1)] scanString_length [OF that(2)] skipSpace_Cons [OF that(3)]
      scan_length(1) [OF that(4)] skipSpace_Cons [OF that(5)] assms by simp
  show ?thesis using val next' by (auto split: list.split option.split)
qed

lemma fuel_ok: "fuel_ok n"
proof (induction n)
  case (Suc n)
  have "scanValue (Suc n) s = scanValue m s" if "2 * length s < Suc n" "2 * length s < m" for s m
    using that by (cases m) (simp, blast intro: fuel_ok_value [OF Suc])
  moreover have "scanElems (Suc n) s = scanElems m s \<and> scanMembers (Suc n) s = scanMembers m s"
    if "2 * length s + 1 < Suc n" "2 * length s + 1 < m" for s m
    using that by (cases m) (simp, blast intro: fuel_ok_elems [OF Suc] fuel_ok_members [OF Suc])
  ultimately show ?case unfolding fuel_ok_def by blast
qed (simp add: fuel_ok_def)

text \<open>More fuel than \<open>readValue\<close> takes never changes its answer: when it gives none, the text has no value at its start.\<close>

theorem readValue_fuel: "2 * length s < n \<Longrightarrow> scanValue n s = readValue s"
  unfolding readValue_def by (intro fuel_okD(1) fuel_ok) auto

end
