(* ===== verification/AgentJson.thy ===== *)
theory AgentJson
  imports GoJson AgentApi
begin

text \<open>
  The wire format of the agent's protocol: how \<open>json.Marshal\<close> writes a \<open>BatchRequest\<close> on the host (\<open>internal/agentclient/client.go\<close>) and how the
  agent's decoder, which refuses unknown fields, reads it (\<open>internal/agentserver/server.go\<close>), after the struct tags of
  \<open>internal/agentapi/api.go\<close>.  As in Go, field names match regardless of case, \<open>null\<close> leaves a field as it is, a field that comes twice is decoded
  over its first value, and the fields with \<open>omitempty\<close> are left out when they are zero.  The theory shows that the agent decodes
  exactly the request that the host wrote.
\<close>

section \<open>Writing a request\<close>

definition omitString :: "string \<Rightarrow> string \<Rightarrow> (string \<times> json) list" where
  "omitString k s = (if s = '''' then [] else [(k, JStr s)])"

definition omitInt :: "string \<Rightarrow> int \<Rightarrow> (string \<times> json) list" where
  "omitInt k i = (if i = 0 then [] else [(k, JNum (Itoa i))])"

definition omitBool :: "string \<Rightarrow> bool \<Rightarrow> (string \<times> json) list" where
  "omitBool k b = (if b then [(k, JBool True)] else [])"

definition omitStrings :: "string \<Rightarrow> string list \<Rightarrow> (string \<times> json) list" where
  "omitStrings k xs = (if xs = [] then [] else [(k, JArr (map JStr xs))])"

definition omitNil :: "string \<Rightarrow> int option \<Rightarrow> (string \<times> json) list" where
  "omitNil k p = (case p of None \<Rightarrow> [] | Some i \<Rightarrow> [(k, JNum (Itoa i))])"

definition encDefaults :: "JobDefaults \<Rightarrow> json" where
  "encDefaults d =
     JObj (omitNil ''uid'' (d_UID d) @ omitNil ''gid'' (d_GID d) @ omitStrings ''env'' (d_Env d) @
       omitInt ''timeout_ms'' (d_TimeoutMillis d) @ omitInt ''max_output_bytes'' (d_MaxOutputBytes d))"

definition encJob :: "Job \<Rightarrow> json" where
  "encJob j =
     JObj ([(''type'', JStr (j_Type j))] @ omitString ''path'' (j_Path j) @ omitInt ''mode'' (uint (j_Mode j)) @
       omitString ''contents_b64'' (j_ContentsBase64 j) @ omitBool ''create_parents'' (j_CreateParents j) @
       omitStrings ''argv'' (j_Argv j) @ omitStrings ''env'' (j_Env j) @ omitString ''working_dir'' (j_WorkingDir j) @
       omitNil ''uid'' (j_UID j) @ omitNil ''gid'' (j_GID j) @ omitInt ''timeout_ms'' (j_TimeoutMillis j) @
       omitInt ''max_output_bytes'' (j_MaxOutputBytes j))"

text \<open>A list of jobs that is empty is written as an empty array; a nil one is written as \<open>null\<close>, which is read as the same list.\<close>

definition encRequest :: "BatchRequest \<Rightarrow> json" where
  "encRequest r =
     JObj [(''version'', JNum (Itoa (b_Version r))), (''workspace'', JStr (b_Workspace r)), (''defaults'', encDefaults (b_Defaults r)),
       (''jobs'', JArr (map encJob (b_Jobs r))), (''shutdown'', JBool (b_Shutdown r))]"

definition marshalRequest :: "BatchRequest \<Rightarrow> string" where
  "marshalRequest r = compact (encRequest r)"

section \<open>Reading a request\<close>

text \<open>A decoder takes the value that the target has; \<open>None\<close> is an error.\<close>

type_synonym 'a decoder = "json \<Rightarrow> 'a \<Rightarrow> 'a option"

definition decString :: "string decoder" where
  "decString v old = (case v of JStr s \<Rightarrow> Some s | JNull \<Rightarrow> Some old | _ \<Rightarrow> None)"

definition decBool :: "bool decoder" where
  "decBool v old = (case v of JBool b \<Rightarrow> Some b | JNull \<Rightarrow> Some old | _ \<Rightarrow> None)"

definition decInt :: "int decoder" where
  "decInt v old = (case v of JNum lit \<Rightarrow> Atoi lit | JNull \<Rightarrow> Some old | _ \<Rightarrow> None)"

definition decUint32 :: "uint32 decoder" where
  "decUint32 v old = (case v of JNum lit \<Rightarrow> ParseUint32 lit | JNull \<Rightarrow> Some old | _ \<Rightarrow> None)"

definition decPointer :: "int option decoder" where
  "decPointer v old = (case v of JNull \<Rightarrow> Some None | _ \<Rightarrow> map_option Some (decInt v (case old of None \<Rightarrow> 0 | Some i \<Rightarrow> i)))"

fun decElems :: "'a decoder \<Rightarrow> 'a \<Rightarrow> json list \<Rightarrow> 'a list \<Rightarrow> 'a list option" where
  "decElems dec zero [] old = Some []"
| "decElems dec zero (v # vs) old =
     (case dec v (case old of [] \<Rightarrow> zero | x # _ \<Rightarrow> x) of
        None \<Rightarrow> None
      | Some y \<Rightarrow> map_option ((#) y) (decElems dec zero vs (tl old)))"

definition decSlice :: "'a decoder \<Rightarrow> 'a \<Rightarrow> 'a list decoder" where
  "decSlice dec zero v old = (case v of JArr vs \<Rightarrow> decElems dec zero vs old | JNull \<Rightarrow> Some [] | _ \<Rightarrow> None)"

text \<open>
  Names are compared after folding case: ASCII letters, and the two other runes that fold to one, the long s (U+017F) and the
  Kelvin sign (U+212A).
\<close>

definition lowerByte :: "char \<Rightarrow> char" where
  "lowerByte c = (if 65 \<le> byteOf c \<and> byteOf c \<le> 90 then char_of (byteOf c + 32) else c)"

function foldName :: "string \<Rightarrow> string" where
  "foldName [] = []"
| "foldName (c # cs) =
     (if take 2 (c # cs) = utf8 0x17F then CHR ''s'' # foldName (drop 1 cs)
      else if take 3 (c # cs) = utf8 0x212A then CHR ''k'' # foldName (drop 2 cs)
      else lowerByte c # foldName cs)"
  by pat_completeness auto
termination by (relation "measure length") auto

definition field :: "('r \<Rightarrow> 'a) \<Rightarrow> ('a \<Rightarrow> 'r \<Rightarrow> 'r) \<Rightarrow> 'a decoder \<Rightarrow> 'r decoder" where
  "field get upd dec v r = map_option (\<lambda>x. upd x r) (dec v (get r))"

fun decMembers :: "(string \<times> 'r decoder) list \<Rightarrow> (string \<times> json) list \<Rightarrow> 'r \<Rightarrow> 'r option" where
  "decMembers tbl [] r = Some r"
| "decMembers tbl ((k, v) # ms) r =
     (case map_of tbl (foldName k) of
        None \<Rightarrow> None
      | Some dec \<Rightarrow> (case dec v r of None \<Rightarrow> None | Some r' \<Rightarrow> decMembers tbl ms r'))"

definition decStruct :: "(string \<times> 'r decoder) list \<Rightarrow> 'r decoder" where
  "decStruct tbl v r = (case v of JObj ms \<Rightarrow> decMembers tbl ms r | JNull \<Rightarrow> Some r | _ \<Rightarrow> None)"

definition defaultsFields :: "(string \<times> JobDefaults decoder) list" where
  "defaultsFields =
     [(''uid'', field d_UID (\<lambda>x. d_UID_update (\<lambda>_. x)) decPointer),
      (''gid'', field d_GID (\<lambda>x. d_GID_update (\<lambda>_. x)) decPointer),
      (''env'', field d_Env (\<lambda>x. d_Env_update (\<lambda>_. x)) (decSlice decString '''')),
      (''timeout_ms'', field d_TimeoutMillis (\<lambda>x. d_TimeoutMillis_update (\<lambda>_. x)) decInt),
      (''max_output_bytes'', field d_MaxOutputBytes (\<lambda>x. d_MaxOutputBytes_update (\<lambda>_. x)) decInt)]"

definition jobFields :: "(string \<times> Job decoder) list" where
  "jobFields =
     [(''type'', field j_Type (\<lambda>x. j_Type_update (\<lambda>_. x)) decString),
      (''path'', field j_Path (\<lambda>x. j_Path_update (\<lambda>_. x)) decString),
      (''mode'', field j_Mode (\<lambda>x. j_Mode_update (\<lambda>_. x)) decUint32),
      (''contents_b64'', field j_ContentsBase64 (\<lambda>x. j_ContentsBase64_update (\<lambda>_. x)) decString),
      (''create_parents'', field j_CreateParents (\<lambda>x. j_CreateParents_update (\<lambda>_. x)) decBool),
      (''argv'', field j_Argv (\<lambda>x. j_Argv_update (\<lambda>_. x)) (decSlice decString '''')),
      (''env'', field j_Env (\<lambda>x. j_Env_update (\<lambda>_. x)) (decSlice decString '''')),
      (''working_dir'', field j_WorkingDir (\<lambda>x. j_WorkingDir_update (\<lambda>_. x)) decString),
      (''uid'', field j_UID (\<lambda>x. j_UID_update (\<lambda>_. x)) decPointer),
      (''gid'', field j_GID (\<lambda>x. j_GID_update (\<lambda>_. x)) decPointer),
      (''timeout_ms'', field j_TimeoutMillis (\<lambda>x. j_TimeoutMillis_update (\<lambda>_. x)) decInt),
      (''max_output_bytes'', field j_MaxOutputBytes (\<lambda>x. j_MaxOutputBytes_update (\<lambda>_. x)) decInt)]"

definition requestFields :: "(string \<times> BatchRequest decoder) list" where
  "requestFields =
     [(''version'', field b_Version (\<lambda>x. b_Version_update (\<lambda>_. x)) decInt),
      (''workspace'', field b_Workspace (\<lambda>x. b_Workspace_update (\<lambda>_. x)) decString),
      (''defaults'', field b_Defaults (\<lambda>x. b_Defaults_update (\<lambda>_. x)) (decStruct defaultsFields)),
      (''jobs'', field b_Jobs (\<lambda>x. b_Jobs_update (\<lambda>_. x)) (decSlice (decStruct jobFields) zero_job)),
      (''shutdown'', field b_Shutdown (\<lambda>x. b_Shutdown_update (\<lambda>_. x)) decBool)]"

definition zero_request :: BatchRequest where
  "zero_request = \<lparr>b_Version = 0, b_Workspace = '''', b_Defaults = zero_defaults, b_Jobs = [], b_Shutdown = False\<rparr>"

definition decodeRequest :: "string \<Rightarrow> (BatchRequest \<times> string) option" where
  "decodeRequest body =
     (case readValue body of
        None \<Rightarrow> None
      | Some (v, rest) \<Rightarrow> map_option (\<lambda>r. (r, rest)) (decStruct requestFields v zero_request))"

section \<open>The round trip\<close>

text \<open>What Go's types guarantee (64-bit integers), and strings of UTF-8: others would not survive, since \<open>Marshal\<close> replaces bytes that are none.\<close>

definition int64 :: "int \<Rightarrow> bool" where
  "int64 i = (- (2 ^ 63) \<le> i \<and> i < 2 ^ 63)"

definition int64_ptr :: "int option \<Rightarrow> bool" where
  "int64_ptr p = (case p of None \<Rightarrow> True | Some i \<Rightarrow> int64 i)"

definition wf_defaults :: "JobDefaults \<Rightarrow> bool" where
  "wf_defaults d = (int64_ptr (d_UID d) \<and> int64_ptr (d_GID d) \<and> list_all valid_utf8 (d_Env d) \<and>
     int64 (d_TimeoutMillis d) \<and> int64 (d_MaxOutputBytes d))"

definition wf_job :: "Job \<Rightarrow> bool" where
  "wf_job j = (valid_utf8 (j_Type j) \<and> valid_utf8 (j_Path j) \<and> valid_utf8 (j_ContentsBase64 j) \<and> list_all valid_utf8 (j_Argv j) \<and>
     list_all valid_utf8 (j_Env j) \<and> valid_utf8 (j_WorkingDir j) \<and> int64_ptr (j_UID j) \<and> int64_ptr (j_GID j) \<and>
     int64 (j_TimeoutMillis j) \<and> int64 (j_MaxOutputBytes j))"

definition wf_request :: "BatchRequest \<Rightarrow> bool" where
  "wf_request r = (int64 (b_Version r) \<and> valid_utf8 (b_Workspace r) \<and> wf_defaults (b_Defaults r) \<and> list_all wf_job (b_Jobs r))"

lemma Atoi_int64: "int64 i \<Longrightarrow> Atoi (Itoa i) = Some i"
  by (simp add: int64_def Atoi_Itoa)

lemma int64_uint32: "int64 (uint (w :: uint32))"
proof -
  have "0 \<le> x \<Longrightarrow> x < 2 ^ 32 \<Longrightarrow> int64 x" for x by (simp add: int64_def)
  then show ?thesis using uint_lt2p [of w] by simp
qed

declare foldName.simps [simp del]

lemma foldName_plain: "list_all (\<lambda>c. byteOf c < 0x80 \<and> \<not> (65 \<le> byteOf c \<and> byteOf c \<le> 90)) k \<Longrightarrow> foldName k = k"
proof (induction k)
  case (Cons c cs)
  have "c \<noteq> char_of (0xC5 :: nat)" "c \<noteq> char_of (0xE2 :: nat)" using Cons.prems by auto
  then have "take 2 (c # cs) \<noteq> utf8 0x17F" "take 3 (c # cs) \<noteq> utf8 0x212A" by (auto simp: utf8_def)
  then show ?case using Cons by (auto simp: foldName.simps lowerByte_def)
qed (simp add: foldName.simps)

lemma field_names:
  "foldName ''version'' = ''version''" "foldName ''workspace'' = ''workspace''" "foldName ''defaults'' = ''defaults''"
  "foldName ''jobs'' = ''jobs''" "foldName ''shutdown'' = ''shutdown''" "foldName ''uid'' = ''uid''" "foldName ''gid'' = ''gid''"
  "foldName ''env'' = ''env''" "foldName ''timeout_ms'' = ''timeout_ms''" "foldName ''max_output_bytes'' = ''max_output_bytes''"
  "foldName ''type'' = ''type''" "foldName ''path'' = ''path''" "foldName ''mode'' = ''mode''" "foldName ''contents_b64'' = ''contents_b64''"
  "foldName ''create_parents'' = ''create_parents''" "foldName ''argv'' = ''argv''" "foldName ''working_dir'' = ''working_dir''"
  by (simp_all add: foldName_plain byteOf_def)

lemma decMembers_append:
  "decMembers tbl (xs @ ys) r = (case decMembers tbl xs r of None \<Rightarrow> None | Some r' \<Rightarrow> decMembers tbl ys r')"
  by (induction tbl xs r rule: decMembers.induct) (auto split: option.split)

lemma decElems_strings: "decElems decString '''' (map JStr xs) old = Some xs"
  by (induction xs arbitrary: old) (auto simp: decString_def)

lemmas omit_defs = omitString_def omitInt_def omitBool_def omitStrings_def omitNil_def field_def decString_def decBool_def decInt_def
  decPointer_def decSlice_def decElems_strings Atoi_int64 int64_ptr_def

text \<open>One field after the other: decoded into a record where it is still zero, its chunk sets the field, also when it is left out.\<close>
lemma defaults_chunks:
  "d_UID r = None \<Longrightarrow> int64_ptr p \<Longrightarrow> decMembers defaultsFields (omitNil ''uid'' p @ ms) r = decMembers defaultsFields ms (r\<lparr>d_UID := p\<rparr>)"
  "d_GID r = None \<Longrightarrow> int64_ptr p \<Longrightarrow> decMembers defaultsFields (omitNil ''gid'' p @ ms) r = decMembers defaultsFields ms (r\<lparr>d_GID := p\<rparr>)"
  "d_Env r = [] \<Longrightarrow> decMembers defaultsFields (omitStrings ''env'' xs @ ms) r = decMembers defaultsFields ms (r\<lparr>d_Env := xs\<rparr>)"
  "d_TimeoutMillis r = 0 \<Longrightarrow> int64 i \<Longrightarrow>
    decMembers defaultsFields (omitInt ''timeout_ms'' i @ ms) r = decMembers defaultsFields ms (r\<lparr>d_TimeoutMillis := i\<rparr>)"
  "d_MaxOutputBytes r = 0 \<Longrightarrow> int64 i \<Longrightarrow>
    decMembers defaultsFields (omitInt ''max_output_bytes'' i @ ms) r = decMembers defaultsFields ms (r\<lparr>d_MaxOutputBytes := i\<rparr>)"
  by (cases r; auto simp: defaultsFields_def field_names omit_defs split: option.splits)+

lemma job_chunks:
  "decMembers jobFields ((''type'', JStr s) # ms) q = decMembers jobFields ms (q\<lparr>j_Type := s\<rparr>)"
  "j_Path q = '''' \<Longrightarrow> decMembers jobFields (omitString ''path'' s @ ms) q = decMembers jobFields ms (q\<lparr>j_Path := s\<rparr>)"
  "j_Mode q = 0 \<Longrightarrow> decMembers jobFields (omitInt ''mode'' (uint w) @ ms) q = decMembers jobFields ms (q\<lparr>j_Mode := w\<rparr>)"
  "j_ContentsBase64 q = '''' \<Longrightarrow> decMembers jobFields (omitString ''contents_b64'' s @ ms) q = decMembers jobFields ms (q\<lparr>j_ContentsBase64 := s\<rparr>)"
  "j_CreateParents q = False \<Longrightarrow> decMembers jobFields (omitBool ''create_parents'' b @ ms) q = decMembers jobFields ms (q\<lparr>j_CreateParents := b\<rparr>)"
  "j_Argv q = [] \<Longrightarrow> decMembers jobFields (omitStrings ''argv'' xs @ ms) q = decMembers jobFields ms (q\<lparr>j_Argv := xs\<rparr>)"
  "j_Env q = [] \<Longrightarrow> decMembers jobFields (omitStrings ''env'' xs @ ms) q = decMembers jobFields ms (q\<lparr>j_Env := xs\<rparr>)"
  "j_WorkingDir q = '''' \<Longrightarrow> decMembers jobFields (omitString ''working_dir'' s @ ms) q = decMembers jobFields ms (q\<lparr>j_WorkingDir := s\<rparr>)"
  "j_UID q = None \<Longrightarrow> int64_ptr p \<Longrightarrow> decMembers jobFields (omitNil ''uid'' p @ ms) q = decMembers jobFields ms (q\<lparr>j_UID := p\<rparr>)"
  "j_GID q = None \<Longrightarrow> int64_ptr p \<Longrightarrow> decMembers jobFields (omitNil ''gid'' p @ ms) q = decMembers jobFields ms (q\<lparr>j_GID := p\<rparr>)"
  "j_TimeoutMillis q = 0 \<Longrightarrow> int64 i \<Longrightarrow> decMembers jobFields (omitInt ''timeout_ms'' i @ ms) q = decMembers jobFields ms (q\<lparr>j_TimeoutMillis := i\<rparr>)"
  "j_MaxOutputBytes q = 0 \<Longrightarrow> int64 i \<Longrightarrow>
    decMembers jobFields (omitInt ''max_output_bytes'' i @ ms) q = decMembers jobFields ms (q\<lparr>j_MaxOutputBytes := i\<rparr>)"
  by (cases q; auto simp: jobFields_def field_names omit_defs decUint32_def ParseUint32_Itoa uint_0_iff split: option.splits)+

lemma defaults_decoded: "wf_defaults d \<Longrightarrow> decStruct defaultsFields (encDefaults d) zero_defaults = Some d"
  by (simp add: encDefaults_def decStruct_def wf_defaults_def zero_defaults_def defaults_chunks defaults_chunks [where ms = "[]", simplified])

lemma job_decoded: "wf_job j \<Longrightarrow> decStruct jobFields (encJob j) zero_job = Some j"
  by (simp add: encJob_def decStruct_def wf_job_def zero_job_def job_chunks job_chunks [where ms = "[]", simplified] del: decMembers.simps(2))

lemma jobs_decoded: "list_all wf_job js \<Longrightarrow> decElems (decStruct jobFields) zero_job (map encJob js) [] = Some js"
  by (induction js) (auto simp: job_decoded)

lemma request_decoded: "wf_request r \<Longrightarrow> decStruct requestFields (encRequest r) zero_request = Some r"
  unfolding encRequest_def decStruct_def [of requestFields] json.case
  by (simp add: requestFields_def field_names field_def zero_request_def wf_request_def
      decInt_def Atoi_int64 decString_def defaults_decoded decSlice_def jobs_decoded decBool_def)

lemma wf_chunks:
  "list_all (\<lambda>m. valid_utf8 (fst m) \<and> wf_json (snd m)) (omitString k s) \<longleftrightarrow> s = '''' \<or> valid_utf8 k \<and> valid_utf8 s"
  "int64 i \<Longrightarrow> list_all (\<lambda>m. valid_utf8 (fst m) \<and> wf_json (snd m)) (omitInt k i) \<longleftrightarrow> i = 0 \<or> valid_utf8 k"
  "list_all (\<lambda>m. valid_utf8 (fst m) \<and> wf_json (snd m)) (omitBool k b) \<longleftrightarrow> \<not> b \<or> valid_utf8 k"
  "list_all (\<lambda>m. valid_utf8 (fst m) \<and> wf_json (snd m)) (omitStrings k xs) \<longleftrightarrow> xs = [] \<or> valid_utf8 k \<and> list_all valid_utf8 xs"
  "int64_ptr p \<Longrightarrow> list_all (\<lambda>m. valid_utf8 (fst m) \<and> wf_json (snd m)) (omitNil k p) \<longleftrightarrow> p = None \<or> valid_utf8 k"
  by (auto simp: omit_defs list_all_iff split: option.splits)

lemma utf8_plain: "list_all (\<lambda>c. byteOf c < 0x80) s \<Longrightarrow> valid_utf8 s"
  by (induction s) (auto simp: valid_utf8.simps Let_def)

lemma utf8_names:
  "valid_utf8 ''version''" "valid_utf8 ''workspace''" "valid_utf8 ''defaults''" "valid_utf8 ''jobs''" "valid_utf8 ''shutdown''" "valid_utf8 ''uid''"
  "valid_utf8 ''gid''" "valid_utf8 ''env''" "valid_utf8 ''timeout_ms''" "valid_utf8 ''max_output_bytes''" "valid_utf8 ''type''" "valid_utf8 ''path''"
  "valid_utf8 ''mode''" "valid_utf8 ''contents_b64''" "valid_utf8 ''create_parents''" "valid_utf8 ''argv''" "valid_utf8 ''working_dir''"
  by (simp_all add: utf8_plain byteOf_def)

lemma encRequest_wf: "wf_request r \<Longrightarrow> wf_json (encRequest r)"
proof -
  assume r: "wf_request r"
  have "wf_json (encDefaults d)" if "wf_defaults d" for d
    using that by (auto simp: encDefaults_def wf_defaults_def wf_chunks utf8_names)
  moreover have "wf_json (encJob j)" if "wf_job j" for j
    using that int64_uint32 [of "j_Mode j"] by (auto simp: encJob_def wf_job_def wf_chunks utf8_names)
  ultimately show ?thesis using r by (auto simp: encRequest_def wf_request_def Atoi_int64 list_all_iff utf8_names)
qed

lemma decodeRequest_marshalled: "wf_request r \<Longrightarrow> delim rest \<Longrightarrow> decodeRequest (marshalRequest r @ rest) = Some (r, rest)"
  by (simp add: decodeRequest_def marshalRequest_def readValue_compact encRequest_wf request_decoded)


definition wire_request :: BatchRequest where
  "wire_request = \<lparr>b_Version = 1, b_Workspace = ''/workspace'',
     b_Defaults = zero_defaults\<lparr>d_UID := Some 0, d_Env := [''A=<1>''], d_TimeoutMillis := 1500\<rparr>,
     b_Jobs = [zero_job\<lparr>j_Type := ''exec'', j_Argv := [''echo'', [CHR 0x22, CHR 0xC3, CHR 0xA9, CHR 0x0A]], j_Mode := 420\<rparr>], b_Shutdown = True\<rparr>"


end
