(* ===== verification/HostGuest.thy ===== *)
theory HostGuest
  imports AgentProcess AgentJson FirecrackerSafety
begin

text \<open>
  The host and the guest put together: the client's attempts (\<open>internal/agentclient\<close>, \<open>retryJobs\<close> of \<open>internal/firecracker\<close>) against the
  agent (\<open>internal/agentserver\<close>) at the other end of the vsock, with the requests on the wire as they are encoded.  An attempt reaches the agent when its dial
  succeeds; what the agent's state is then depends on the attempts before.
\<close>

section \<open>The link\<close>

text \<open>
  What the attempts meet: the Unix socket in attempt \<open>k\<close>, the time until the headers of the answer to it, and whether the context is done after it.
\<close>

record link =
  lk_env :: "nat \<Rightarrow> unix_env"
  lk_time :: "nat \<Rightarrow> int"
  lk_cancelled :: "nat \<Rightarrow> bool"

definition connected :: "Client \<Rightarrow> unix_env \<Rightarrow> bool" where
  "connected c env = (case hc_DialContext (cl_http c) env of Some (Inr conn, calls) \<Rightarrow> True | _ \<Rightarrow> False)"

definition agent_answer :: "runner \<Rightarrow> http_request \<Rightarrow> Server \<times> os \<Rightarrow> reply \<times> Server \<times> os" where
  "agent_answer run q a =
     (case agent_Handler decodeRequest run (fst a) (hq_Method q) (hq_Path q) (hq_Body q) (snd a) of (r, shut, srv, s) \<Rightarrow> (r, srv, s))"

primrec guest_at :: "runner \<Rightarrow> link \<Rightarrow> Client \<Rightarrow> http_request \<Rightarrow> Server \<times> os \<Rightarrow> nat \<Rightarrow> Server \<times> os" where
  "guest_at run lk c q a 0 = a"
| "guest_at run lk c q a (Suc k) =
     (let g = guest_at run lk c q a k in if connected c (lk_env lk k) then snd (agent_answer run q g) else g)"

definition link_reply :: "runner \<Rightarrow> link \<Rightarrow> Client \<Rightarrow> http_request \<Rightarrow> Server \<times> os \<Rightarrow> nat \<Rightarrow> reply option" where
  "link_reply run lk c q a k = Do (lk_env lk k) (\<lambda>q. Some (fst (agent_answer run q (guest_at run lk c q a k)), lk_time lk k)) c q"

text \<open>The client of a VM and its request.\<close>

definition vm_request :: "BatchRequest \<Rightarrow> http_request" where
  "vm_request b = \<lparr>hq_Method = ''POST'', hq_Path = ''/jobs'', hq_ContentType = ''application/json'', hq_Body = marshalRequest b\<rparr>"

lemma vm_jobsRequest: "jobsRequest marshalRequest (NewFirecrackerVsock path port) b = Some (vm_request b)"
proof -
  have "URLPath ''http://vm/jobs'' = Some ''/jobs''" by code_simp
  then show ?thesis by (simp add: jobsRequest_def vm_request_def NewFirecrackerVsock_def NewWithDialer_def)
qed

lemma vm_healthRequest:
  "healthRequest (NewFirecrackerVsock path port) = Some \<lparr>hq_Method = ''GET'', hq_Path = ''/healthz'', hq_ContentType = '''', hq_Body = ''''\<rparr>"
proof -
  have "URLPath ''http://vm/healthz'' = Some ''/healthz''" by code_simp
  then show ?thesis by (simp add: healthRequest_def NewFirecrackerVsock_def NewWithDialer_def)
qed

section \<open>Dialing\<close>

text \<open>The dialer leaves no connection open when it fails: it closes whatever it opened.\<close>

theorem vsockDial_closes:
  "case vsockDial path port env of
     None \<Rightarrow> True
   | Some (Inl e, calls) \<Rightarrow> CloseConn \<in> set calls \<longleftrightarrow> ue_connect env path
   | Some (Inr conn, calls) \<Rightarrow> CloseConn \<notin> set calls \<and> ue_connect env path \<and> Send (connectLine port) \<in> set calls"
  by (auto simp: vsockDial_def split: option.splits sum.splits)

text \<open>Firecracker accepts: it is there, takes the line and answers with the port.\<close>

definition accepts :: "string \<Rightarrow> unix_env \<Rightarrow> bool" where
  "accepts path env = (ue_connect env path \<and> ue_write env \<and>
     (\<exists>n rest. 0 < n \<and> n < 2 ^ 63 \<and> ue_events env = map Byte (''OK '' @ itoa n @ [CHR 0x0A]) @ rest))"

lemma accepts_connected: "accepts path env \<Longrightarrow> connected (NewFirecrackerVsock path port) env"
proof -
  assume a: "accepts path env"
  then obtain n rest where "vsockHandshake (ue_events env) = Some (Inr rest)" using vsockHandshake_accepts unfolding accepts_def by metis
  then show ?thesis using a by (simp add: accepts_def connected_def NewFirecrackerVsock_def NewWithDialer_def vsockDial_def)
qed

lemma Do_unconnected: "\<not> connected c env \<Longrightarrow> Do env peer c q = None"
  by (auto simp: connected_def Do_def split: option.splits prod.splits sum.splits)

lemma Do_connected:
  "connected c env \<Longrightarrow> peer q = Some (r, t) \<Longrightarrow>
    Do env peer c q = (if hc_ResponseHeaderTimeout (cl_http c) > 0 \<and> t > hc_ResponseHeaderTimeout (cl_http c) then None else Some r)"
  by (auto simp: connected_def Do_def split: option.splits prod.splits sum.splits)

section \<open>The agent at the other end\<close>

lemma runBatch_status: "runBatch run cfg b s = ((resp, st), s') \<Longrightarrow> st = (if list_all r_OK resp then 200 else 400)"
  by (erule runBatch_cases) (auto simp: fail_def runJobs_status)

lemma agent_answer_batch:
  assumes "wf_request b" "\<not> s_usedJobs srv" "int (length (marshalRequest b)) \<le> c_MaxBodyBytes (s_cfg srv)"
    and "runBatch run (s_cfg srv) b s = ((resp, st), s')"
  shows "agent_answer run (vm_request b) (srv, s) = (BatchReply st resp, srv\<lparr>s_usedJobs := True\<rparr>, s')"
proof -
  have "take (nat (c_MaxBodyBytes (s_cfg srv))) (marshalRequest b) = marshalRequest b" using assms(3) by simp
  moreover have "delim []" by (simp add: delim_def)
  ultimately have "decodeRequest (take (nat (c_MaxBodyBytes (s_cfg srv))) (marshalRequest b)) = Some (b, [])"
    using decodeRequest_marshalled [OF assms(1), of "[]"] by simp
  then show ?thesis using assms by (simp add: agent_answer_def vm_request_def PostJobs_request jobs_def Let_def)
qed

lemma agent_answer_used: "s_usedJobs srv \<Longrightarrow> agent_answer run (vm_request b) (srv, s) = (TextReply 410 ''jobs endpoint already used'', srv, s)"
  by (simp add: agent_answer_def vm_request_def PostJobs_request jobs_def)

lemma guest_before: "(\<And>k. k < n \<Longrightarrow> \<not> connected c (lk_env lk k)) \<Longrightarrow> guest_at run lk c q a n = a"
  by (induction n) (auto simp: Let_def)

lemma guest_stays_used:
  "s_usedJobs (fst (guest_at run lk c (vm_request b) a n)) \<Longrightarrow> guest_at run lk c (vm_request b) a (n + m) = guest_at run lk c (vm_request b) a n"
proof (induction m)
  case (Suc m)
  then show ?case using agent_answer_used [of "fst (guest_at run lk c (vm_request b) a n)" run b "snd (guest_at run lk c (vm_request b) a n)"]
    by (auto simp: Let_def)
qed simp

text \<open>The first attempt that reaches a fresh agent: the batch runs, once, and every later attempt is told so.\<close>

lemma first_contact:
  assumes "wf_request b" "\<not> s_usedJobs srv" "int (length (marshalRequest b)) \<le> c_MaxBodyBytes (s_cfg srv)"
    and "runBatch run (s_cfg srv) b s = ((resp, st), s')"
    and "\<And>k. k < n \<Longrightarrow> \<not> connected c (lk_env lk k)" "connected c (lk_env lk n)"
  shows "fst (agent_answer run (vm_request b) (guest_at run lk c (vm_request b) (srv, s) n)) = BatchReply st resp"
    and "guest_at run lk c (vm_request b) (srv, s) (Suc n + m) = (srv\<lparr>s_usedJobs := True\<rparr>, s')"
proof -
  note answer = agent_answer_batch [OF assms(1-4)]
  have n: "guest_at run lk c (vm_request b) (srv, s) n = (srv, s)" using assms(5) by (rule guest_before)
  then show "fst (agent_answer run (vm_request b) (guest_at run lk c (vm_request b) (srv, s) n)) = BatchReply st resp" by (simp add: answer)
  have "guest_at run lk c (vm_request b) (srv, s) (Suc n) = (srv\<lparr>s_usedJobs := True\<rparr>, s')" using n assms(6) by (simp add: answer)
  then show "guest_at run lk c (vm_request b) (srv, s) (Suc n + m) = (srv\<lparr>s_usedJobs := True\<rparr>, s')"
    using guest_stays_used [where n = "Suc n" and m = m and run = run and lk = lk and c = c and b = b and a = "(srv, s)"] by simp
qed

text \<open>The same attempt, and the dialed methods, with the client's request written out.\<close>

lemma Jobs_vm: "Jobs marshalRequest json_len env peer (NewFirecrackerVsock path port) b =
    client_Jobs json_len (Do env peer (NewFirecrackerVsock path port) (vm_request b))"
  by (simp add: Jobs_def vm_jobsRequest)

text \<open>The health check passes as soon as the vsock accepts and the agent answers in time, whatever the agent has done so far.\<close>

theorem agent_healthy:
  assumes "accepts path env" "t \<le> 30 * second"
  shows "Health env (\<lambda>q. Some (fst (agent_answer run q a), t)) (NewFirecrackerVsock path port) = None"
proof -
  have "fst (agent_answer run \<lparr>hq_Method = ''GET'', hq_Path = ''/healthz'', hq_ContentType = '''', hq_Body = ''''\<rparr> a) = healthz"
    by (simp add: agent_answer_def Healthz_request)
  then have "Do env (\<lambda>q. Some (fst (agent_answer run q a), t)) (NewFirecrackerVsock path port)
      \<lparr>hq_Method = ''GET'', hq_Path = ''/healthz'', hq_ContentType = '''', hq_Body = ''''\<rparr> = Some healthz"
    using assms(2) Do_connected [OF accepts_connected [OF assms(1), of port]] by (simp add: NewFirecrackerVsock_def NewWithDialer_def)
  then show ?thesis by (simp add: Health_def vm_healthRequest client_Health_def healthz_def)
qed

section \<open>Results that arrive\<close>

lemma delivered_batch:
  assumes "wf_request b" "\<not> s_usedJobs srv" "int (length (marshalRequest b)) \<le> c_MaxBodyBytes (s_cfg srv)"
    and "runBatch run (s_cfg srv) b s = ((resp, st), s')"
    and before: "\<And>k. k < n \<Longrightarrow> \<not> connected c (lk_env lk k) \<and> \<not> lk_cancelled lk k" and at: "connected c (lk_env lk n)"
    and "lk_time lk n \<le> hc_ResponseHeaderTimeout (cl_http c)" "json_len resp \<le> maxReplyBytes"
  shows "retryJobs json_len (link_reply run lk c (vm_request b) (srv, s)) (lk_cancelled lk) =
    Some (Some resp, if list_all r_OK resp then None else Some (JobsStatus 400))"
proof -
  note contact = first_contact [OF assms(1-4) _ at]
  have "link_reply run lk c (vm_request b) (srv, s) n = Some (BatchReply st resp)"
    unfolding link_reply_def using contact(1) before assms(7) by (simp add: Do_connected [OF at])
  then have "retryRound json_len (link_reply run lk c (vm_request b) (srv, s)) (lk_cancelled lk) n =
      Some (Some resp, if list_all r_OK resp then None else Some (JobsStatus 400))"
    using assms(8) runBatch_status [OF assms(4)] by (simp add: retryRound_def client_Jobs_def decodeReply_def)
  moreover have "retryRound json_len (link_reply run lk c (vm_request b) (srv, s)) (lk_cancelled lk) k = None" if "k < n" for k
    using before [OF that] by (simp add: retryRound_def link_reply_def Do_unconnected client_Jobs_def)
  ultimately show ?thesis unfolding retryJobs_def by (intro poll_first) auto
qed

text \<open>
  C3.  From the host's request to the guest's file system and back.  When the dials of the first attempts fail and then one succeeds, a fresh agent
  behind it decodes the batch and runs it, once, whatever happens on the link later.  If the answer comes within the client's header timeout and size limit, the runner
  returns exactly the agent's results: as the result of the run when every job succeeded, as an error with the same results otherwise.
  The VM is stopped either way.
\<close>

theorem guest_results_reach_host:
  assumes "wf_request (batchRequest req)" "c = NewFirecrackerVsock path DefaultVsockPort" "srv = New s0 cfg"
    and "int (length (marshalRequest (batchRequest req))) \<le> c_MaxBodyBytes (s_cfg srv)"
    and "runBatch run (s_cfg srv) (batchRequest req) s = ((resp, st), s')"
    and "\<And>k. k < n \<Longrightarrow> \<not> connected c (lk_env lk k) \<and> \<not> lk_cancelled lk k" "accepts path (lk_env lk n)"
    and "lk_time lk n \<le> 30 * second" "vm_json_len vm resp \<le> maxReplyBytes"
    and "vm_replies vm = link_reply run lk c (vm_request (batchRequest req)) (srv, s)" "vm_cancelled vm = lk_cancelled lk" "vm_race vm = AgentFirst"
  shows "runJobsInVM vm req handle h =
      Some (if list_all r_OK resp then Inr \<lparr>rr_VM = handle, rr_Results = resp, rr_TimedOut = False, rr_Timings = runTimings vm\<rparr>
            else Inl (VmAgent (JobsStatus 400) (Some resp)),
            h\<lparr>h_log := h_log h @ [JobsSent (batchRequest req), Stopped]\<rparr>) \<and>
    (\<forall>m > n. snd (guest_at run lk c (vm_request (batchRequest req)) (srv, s) m) = s')"
proof -
  have fresh: "\<not> s_usedJobs srv" using assms(3) by (simp add: New_def Let_def)
  have conn: "connected c (lk_env lk n)" using accepts_connected [OF assms(7)] assms(2) by simp
  have time: "lk_time lk n \<le> hc_ResponseHeaderTimeout (cl_http c)"
    using assms(2,8) by (simp add: NewFirecrackerVsock_def NewWithDialer_def)
  have "retryJobs (vm_json_len vm) (vm_replies vm) (vm_cancelled vm) = Some (Some resp, if list_all r_OK resp then None else Some (JobsStatus 400))"
    unfolding assms(10,11) using assms(1) fresh assms(4,5,6) conn time assms(9) by (rule delivered_batch)
  then have "runJobsInVM vm req handle h =
      Some (if list_all r_OK resp then Inr \<lparr>rr_VM = handle, rr_Results = resp, rr_TimedOut = False, rr_Timings = runTimings vm\<rparr>
            else Inl (VmAgent (JobsStatus 400) (Some resp)),
            h\<lparr>h_log := h_log h @ [JobsSent (batchRequest req), Stopped]\<rparr>)"
    using assms(12) by (simp add: runJobsInVM_def vbind_def emit_def vret_def vthrow_def)
  moreover have "snd (guest_at run lk c (vm_request (batchRequest req)) (srv, s) m) = s'" if "m > n" for m
    using first_contact(2) [OF assms(1) fresh assms(4,5) _ conn, of "m - Suc n"] assms(6) that by simp
  ultimately show ?thesis by blast
qed

section \<open>Results that come too late\<close>

text \<open>
  C33.  The client waits 30 seconds for the headers of an answer, and the agent sends them only when the whole batch has run.  A batch that takes longer
  is lost although it ran: the retries are told that the endpoint is used, so that \<open>retryJobs\<close> returns only when its context is done, without a result.
\<close>

theorem slow_batch_lost:
  assumes "wf_request b" "c = NewFirecrackerVsock path DefaultVsockPort" "srv = New s0 cfg"
    and "int (length (marshalRequest b)) \<le> c_MaxBodyBytes (s_cfg srv)" "runBatch run (s_cfg srv) b s = ((resp, st), s')"
    and "\<And>k. k < n \<Longrightarrow> \<not> connected c (lk_env lk k)" "accepts path (lk_env lk n)" "lk_time lk n > 30 * second"
  shows "((\<exists>r. retryJobs json_len (link_reply run lk c (vm_request b) (srv, s)) (lk_cancelled lk) = Some r) \<longleftrightarrow> (\<exists>k. lk_cancelled lk k)) \<and>
    (\<forall>r e. retryJobs json_len (link_reply run lk c (vm_request b) (srv, s)) (lk_cancelled lk) = Some (r, e) \<longrightarrow> r = None \<and> (\<exists>x. e = Some (CtxDone x))) \<and>
    snd (guest_at run lk c (vm_request b) (srv, s) (Suc n)) = s'"
proof -
  have fresh: "\<not> s_usedJobs srv" using assms(3) by (simp add: New_def Let_def)
  have conn: "connected c (lk_env lk n)" using accepts_connected [OF assms(7)] assms(2) by simp
  have timeout: "hc_ResponseHeaderTimeout (cl_http c) = 30 * second" "0 < 30 * second"
    using assms(2) by (simp_all add: NewFirecrackerVsock_def NewWithDialer_def second_def)
  note contact = first_contact [OF assms(1) fresh assms(4,5,6) conn]
  have later: "fst (agent_answer run (vm_request b) (guest_at run lk c (vm_request b) (srv, s) k)) = TextReply 410 ''jobs endpoint already used''"
    if "n < k" for k
    using contact(2) [of "k - Suc n"] that agent_answer_used by simp
  have "fst (client_Jobs json_len (link_reply run lk c (vm_request b) (srv, s) k)) = None" for k
  proof (cases "connected c (lk_env lk k)")
    case True
    then have "n \<le> k" using assms(6) by (meson not_less)
    then show ?thesis
      using later [of k] assms(8) timeout unfolding link_reply_def
      by (cases "n = k") (auto simp: Do_connected [OF True] client_Jobs_def decodeReply_def)
  qed (simp add: link_reply_def Do_unconnected client_Jobs_def)
  from retryJobs_no_result [of json_len "link_reply run lk c (vm_request b) (srv, s)", OF this] show ?thesis
    using contact(2) [of 0] by simp
qed

section \<open>A link that comes up in the second attempt\<close>

definition demo_link :: "int \<Rightarrow> link" where
  "demo_link t = \<lparr>lk_env = (\<lambda>k. \<lparr>ue_connect = (\<lambda>p. k \<noteq> 0), ue_write = True, ue_events = map Byte (''OK 7'' @ [CHR 0x0A])\<rparr>),
     lk_time = (\<lambda>_. t), lk_cancelled = (\<lambda>k. k = 5)\<rparr>"

definition demo_start :: StartVMRequest where
  "demo_start = \<lparr>sv_ID = ''a'', sv_StoreDir = ''/s'', sv_FirecrackerPath = ''/fc'', sv_Jailer = None, sv_KernelPath = ''/k'', sv_BootImagePath = ''/b'',
     sv_TargetImagePath = ''/t'', sv_MachineConfig = \<lparr>VCPUCount = 1, MemSizeMiB = 128\<rparr>, sv_VsockCID = 3, sv_Defaults = zero_defaults,
     sv_Workspace = ''/workspace'', sv_Jobs = [write_job ''/workspace/a'' False], sv_Shutdown = True, sv_Timeout = 30 * second, sv_Snapshot = None\<rparr>"

definition demo_agent :: Server where
  "demo_agent = New tidy_os (agentConfig tidy_os defaultAgentFlags)"

definition demo_client :: Client where
  "demo_client = NewFirecrackerVsock ''/v'' DefaultVsockPort"

definition demo_vm :: vmm where
  "demo_vm = \<lparr>vm_uuid = ''u'', vm_TempDir = ''/tmp'', vm_New = (\<lambda>_. True), vm_Start = True, vm_ProcStart = (\<lambda>_. True),
     vm_ConfigReady = (\<lambda>_. True), vm_Load = (\<lambda>_ _. True), vm_Pause = True, vm_CreateSnapshot = (\<lambda>_ _ s. (True, s)),
     vm_replies = link_reply no_runner (demo_link second) demo_client (vm_request (batchRequest demo_start)) (demo_agent, tidy_os),
     vm_health = (\<lambda>_. None), vm_json_len = (\<lambda>_. 100), vm_cancelled = lk_cancelled (demo_link second), vm_callerDone = (\<lambda>_. False),
     vm_race = AgentFirst, vm_elapsed = (\<lambda>_. second)\<rparr>"

lemma demo_batch_facts:
  "wf_request (batchRequest demo_start)" "int (length (marshalRequest (batchRequest demo_start))) \<le> c_MaxBodyBytes (s_cfg demo_agent)"
  "list_all r_OK (fst (fst (runBatch no_runner (s_cfg demo_agent) (batchRequest demo_start) tidy_os)))"
  "ent (snd (runBatch no_runner (s_cfg demo_agent) (batchRequest demo_start) tidy_os)) [''workspace'', ''a''] \<noteq> None"
  by code_simp+

lemma demo_link_facts:
  "k < 1 \<Longrightarrow> \<not> connected demo_client (lk_env (demo_link t) k) \<and> \<not> lk_cancelled (demo_link t) k" "accepts ''/v'' (lk_env (demo_link t) 1)"
proof -
  show "k < 1 \<Longrightarrow> \<not> connected demo_client (lk_env (demo_link t) k) \<and> \<not> lk_cancelled (demo_link t) k"
    by (simp add: demo_link_def connected_def demo_client_def NewFirecrackerVsock_def NewWithDialer_def vsockDial_def)
  have "itoa 7 = ''7''" by code_simp
  then show "accepts ''/v'' (lk_env (demo_link t) 1)"
    by (auto simp: accepts_def demo_link_def intro!: exI [of _ 7])
qed

theorem guest_results_reach_host_witness:
  "\<exists>res h'. runJobsInVM demo_vm demo_start \<lparr>vh_ID = ''a'', vh_SocketPath = ''/x''\<rparr> \<lparr>h_os = tidy_os, h_log = []\<rparr> = Some (Inr res, h') \<and>
     list_all r_OK (rr_Results res) \<and>
     ent (snd (guest_at no_runner (demo_link second) demo_client (vm_request (batchRequest demo_start)) (demo_agent, tidy_os) 2)) [''workspace'', ''a''] \<noteq> None"
proof -
  let ?r = "runBatch no_runner (s_cfg demo_agent) (batchRequest demo_start) tidy_os"
  obtain resp st s' where r: "?r = ((resp, st), s')" by (metis prod.collapse)
  have t: "lk_time (demo_link second) 1 \<le> 30 * second" by (simp add: demo_link_def second_def)
  have v: "vm_json_len demo_vm resp \<le> maxReplyBytes" by (simp add: demo_vm_def maxReplyBytes_def)
  have vm: "vm_replies demo_vm = link_reply no_runner (demo_link second) demo_client (vm_request (batchRequest demo_start)) (demo_agent, tidy_os)"
    "vm_cancelled demo_vm = lk_cancelled (demo_link second)" "vm_race demo_vm = AgentFirst" by (simp_all add: demo_vm_def)
  from guest_results_reach_host [OF demo_batch_facts(1) demo_client_def demo_agent_def demo_batch_facts(2) r demo_link_facts t v vm,
      where handle = "\<lparr>vh_ID = ''a'', vh_SocketPath = ''/x''\<rparr>" and h = "\<lparr>h_os = tidy_os, h_log = []\<rparr>"]
  show ?thesis using demo_batch_facts(3,4) r by auto
qed

theorem slow_batch_lost_witness:
  "fst (the (retryJobs (\<lambda>_. 100) (link_reply no_runner (demo_link (31 * second)) demo_client (vm_request (batchRequest demo_start)) (demo_agent, tidy_os))
       (lk_cancelled (demo_link (31 * second))))) = None \<and>
   ent (snd (guest_at no_runner (demo_link (31 * second)) demo_client (vm_request (batchRequest demo_start)) (demo_agent, tidy_os) 2)) [''workspace'', ''a''] \<noteq> None"
proof -
  let ?lk = "demo_link (31 * second)"
  let ?r = "runBatch no_runner (s_cfg demo_agent) (batchRequest demo_start) tidy_os"
  let ?retry = "retryJobs (\<lambda>_. 100) (link_reply no_runner ?lk demo_client (vm_request (batchRequest demo_start)) (demo_agent, tidy_os)) (lk_cancelled ?lk)"
  obtain resp st s' where r: "?r = ((resp, st), s')" by (metis prod.collapse)
  have t: "lk_time ?lk 1 > 30 * second" by (simp add: demo_link_def second_def)
  have b: "\<not> connected demo_client (lk_env ?lk k)" if "k < 1" for k using demo_link_facts(1) [OF that] by blast
  note lost = slow_batch_lost [OF demo_batch_facts(1) demo_client_def demo_agent_def demo_batch_facts(2) r b demo_link_facts(2) t, where json_len = "\<lambda>_. 100"]
  have "\<exists>k. lk_cancelled ?lk k" by (simp add: demo_link_def)
  then obtain x e where "?retry = Some (x, e)" using lost by (metis surj_pair)
  moreover have "ent s' [''workspace'', ''a''] \<noteq> None" using demo_batch_facts(4) r by simp
  ultimately show ?thesis using lost by (simp add: numeral_2_eq_2)
qed

end
