(* ===== verification/GuestSafety.thy ===== *)
theory GuestSafety
  imports GuestInit
begin

text \<open>
  What the guest's init guarantees: the target drive is only mounted read-only, the agent is started only in
  the merged root and only after the overlay is in place, and whatever fails the VM is powered off.
\<close>

section \<open>A logic of the guest's log\<close>

text \<open>\<open>gspec m E S\<close>: what \<open>m\<close> adds to the log satisfies \<open>E\<close> when it fails and \<open>S\<close> when it succeeds.\<close>

definition gspec :: "'a gio \<Rightarrow> (guest_event list \<Rightarrow> bool) \<Rightarrow> (guest_event list \<Rightarrow> bool) \<Rightarrow> bool" where
  "gspec m E S = (\<forall>g r g'. m g = Some (r, g') \<longrightarrow>
     (\<exists>es. g_log g' = g_log g @ es \<and> (case r of Inl e \<Rightarrow> E es | Inr a \<Rightarrow> S es)))"

lemma gspecI:
  "(\<And>g r g'. m g = Some (r, g') \<Longrightarrow> \<exists>es. g_log g' = g_log g @ es \<and> (case r of Inl e \<Rightarrow> E es | Inr a \<Rightarrow> S es)) \<Longrightarrow> gspec m E S"
  by (auto simp: gspec_def)

lemma gspec_vbind:
  assumes m: "gspec m Em Sm" and k: "\<And>a. gspec (k a) Ek Sk"
    and "\<And>xs. Em xs \<Longrightarrow> E xs" and "\<And>xs ys. Sm xs \<Longrightarrow> Ek ys \<Longrightarrow> E (xs @ ys)" and "\<And>xs ys. Sm xs \<Longrightarrow> Sk ys \<Longrightarrow> S (xs @ ys)"
  shows "gspec (vbind m k) E S"
proof (rule gspecI)
  fix g r g' assume b: "vbind m k g = Some (r, g')"
  obtain r1 g1 where m1: "m g = Some (r1, g1)" using b by (auto simp: vbind_def split: option.splits)
  obtain xs where xs: "g_log g1 = g_log g @ xs" "case r1 of Inl e \<Rightarrow> Em xs | Inr a \<Rightarrow> Sm xs"
    using m m1 unfolding gspec_def by blast
  show "\<exists>es. g_log g' = g_log g @ es \<and> (case r of Inl e \<Rightarrow> E es | Inr a \<Rightarrow> S es)"
  proof (cases r1)
    case (Inl e)
    then show ?thesis using b m1 xs assms(3) by (auto simp: vbind_def)
  next
    case (Inr a)
    then have "k a g1 = Some (r, g')" using b m1 by (simp add: vbind_def)
    then obtain ys where "g_log g' = g_log g1 @ ys" "case r of Inl e \<Rightarrow> Ek ys | Inr a \<Rightarrow> Sk ys"
      using k unfolding gspec_def by blast
    then show ?thesis using xs Inr assms(4,5) by (intro exI [of _ "xs @ ys"]) (auto split: sum.splits)
  qed
qed

text \<open>Steps all of whose events satisfy \<open>P\<close>.\<close>

abbreviation each_event :: "(guest_event \<Rightarrow> bool) \<Rightarrow> 'a gio \<Rightarrow> bool" where
  "each_event P m \<equiv> gspec m (list_all P) (list_all P)"

lemma each_vbind: "each_event P m \<Longrightarrow> (\<And>a. each_event P (k a)) \<Longrightarrow> each_event P (vbind m k)"
  by (rule gspec_vbind [where Em = "list_all P" and Sm = "list_all P" and Ek = "list_all P" and Sk = "list_all P"]) auto

lemma each_simple:
  "each_event P (vret a)" "each_event P (vthrow e)" "each_event P (gos i)" "P ev \<Longrightarrow> each_event P (glog ev)"
  "each_event P (require b e)"
  by (rule gspecI; auto simp: vret_def vthrow_def gos_def glog_def require_def split: prod.splits sum.splits if_splits)+

lemma each_Mount: "P (MountTried c) \<Longrightarrow> each_event P (Mount env c)"
  unfolding Mount_def
  by (rule each_vbind, erule each_simple(4)) (rule gspecI, auto split: prod.splits)

lemma each_mounts:
  "P (MountTried c) \<Longrightarrow> each_event P (mustMount env c)" "P (MountTried c) \<Longrightarrow> each_event P (mountIgnoreBusy env c)"
  unfolding mustMount_def mountIgnoreBusy_def
  by (rule each_vbind, erule each_Mount, auto intro: each_simple split: option.split)+

lemma each_mkdirs: "each_event P (mkdirs ds)"
  by (induction ds rule: mkdirs.induct) (auto intro: each_simple each_vbind)

lemma each_orElse: "each_event P m \<Longrightarrow> each_event P n \<Longrightarrow> each_event P (orElse m n)"
proof (rule gspecI)
  fix g r g' assume m: "each_event P m" and n: "each_event P n" and o: "orElse m n g = Some (r, g')"
  show "\<exists>es. g_log g' = g_log g @ es \<and> (case r of Inl e \<Rightarrow> list_all P es | Inr a \<Rightarrow> list_all P es)"
  proof (cases "m g")
    case (Some x)
    then obtain r1 g1 where x: "m g = Some (r1, g1)" by (cases x) auto
    then obtain xs where xs: "g_log g1 = g_log g @ xs" "list_all P xs"
      using m unfolding gspec_def by (fastforce split: sum.splits)
    show ?thesis
    proof (cases r1)
      case (Inl e)
      then have "n g1 = Some (r, g')" using o x by (simp add: orElse_def)
      then obtain ys where "g_log g' = g_log g1 @ ys" "list_all P ys" using n unfolding gspec_def by (fastforce split: sum.splits)
      then show ?thesis using xs by (intro exI [of _ "xs @ ys"]) (auto split: sum.splits)
    next
      case (Inr a)
      then show ?thesis using o x xs by (auto simp: orElse_def)
    qed
  qed (use o in \<open>simp add: orElse_def\<close>)
qed

lemma each_bindAll:
  "(\<And>a b. (a, b) \<in> set ms \<Longrightarrow> P (MountTried (mcall a b '''' (MS_BIND OR MS_REC) ''''))) \<Longrightarrow> each_event P (bindAll env ms)"
  by (induction ms) (auto intro!: each_simple each_vbind each_mounts)

section \<open>What init mounts\<close>

definition target_mount :: "string \<Rightarrow> mount_call" where
  "target_mount d = mcall d targetMount ''ext4'' (MS_RDONLY OR MS_NODEV) ''ro,noload''"

definition overlay_mount :: mount_call where
  "overlay_mount = mcall ''overlay'' mergedRoot ''overlay'' 0
     ''lowerdir=/mnt/target,upperdir=/mnt/overlay/upper,workdir=/mnt/overlay/work''"

text \<open>A mount, and a block device only read-only at \<open>/mnt/target\<close>.\<close>

definition safe_mount :: "string \<Rightarrow> guest_event \<Rightarrow> bool" where
  "safe_mount d e = (case e of MountTried c \<Rightarrow> c = target_mount d \<or> mt_fstype c \<noteq> ''ext4'' | _ \<Rightarrow> False)"

lemma safe_other: "fs \<noteq> ''ext4'' \<Longrightarrow> safe_mount d (MountTried (mcall a b fs f x))"
  by (simp add: safe_mount_def mcall_def)

lemma basicMounts_safe: "each_event (safe_mount d) (basicMounts env)"
  unfolding basicMounts_def
  by (intro each_vbind each_mkdirs each_mounts(2) each_orElse safe_other) simp_all

lemma prepareMergedRoot_safe: "each_event (safe_mount d) (prepareMergedRoot env)"
  unfolding prepareMergedRoot_def Let_def
  by (intro each_vbind each_mkdirs each_mounts(1) each_bindAll safe_other each_simple) simp_all

lemma mustMount_done:
  "P (MountTried c) \<Longrightarrow> gspec (mustMount env c) (list_all P) (\<lambda>es. list_all P es \<and> MountTried c \<in> set es)"
  unfolding mustMount_def
proof (rule gspecI)
  fix g r g' assume p: "P (MountTried c)"
    and "vbind (Mount env c) (\<lambda>r. case r of None \<Rightarrow> vret () | Some e \<Rightarrow> vthrow (InitMount (mt_target c) e)) g = Some (r, g')"
  then have "g_log g' = g_log g @ [MountTried c]"
    by (auto simp: vbind_def Mount_def glog_def vret_def vthrow_def split: prod.splits option.splits)
  then show "\<exists>es. g_log g' = g_log g @ es \<and>
      (case r of Inl e \<Rightarrow> list_all P es | Inr a \<Rightarrow> list_all P es \<and> MountTried c \<in> set es)"
    using p by (intro exI [of _ "[MountTried c]"]) (auto split: sum.splits)
qed

lemma setupOverlay_done:
  "gspec (setupOverlay env d) (list_all (safe_mount d))
    (\<lambda>es. list_all (safe_mount d) es \<and> MountTried (target_mount d) \<in> set es \<and> MountTried overlay_mount \<in> set es)"
proof -
  have t: "safe_mount d (MountTried (target_mount d))" "safe_mount d (MountTried overlay_mount)"
    by (simp_all add: safe_mount_def overlay_mount_def mcall_def)
  have o: "gspec (mustMount env overlay_mount) (list_all (safe_mount d)) (\<lambda>es. list_all (safe_mount d) es \<and> MountTried overlay_mount \<in> set es)"
    by (rule mustMount_done) (rule t(2))
  have inner: "gspec (vbind (mkdirs ds) (\<lambda>_. mustMount env overlay_mount)) (list_all (safe_mount d))
     (\<lambda>es. list_all (safe_mount d) es \<and> MountTried overlay_mount \<in> set es)" for ds
    by (rule gspec_vbind [OF each_mkdirs [where P = "safe_mount d"] o]) auto
  have tmp: "each_event (safe_mount d) (mustMount env (mcall ''tmpfs'' overlayBase ''tmpfs'' (MS_NOSUID OR MS_NODEV) ''mode=0755,size=512m''))"
    by (intro each_mounts(1) safe_other) simp
  have mid: "gspec (vbind (mustMount env (mcall ''tmpfs'' overlayBase ''tmpfs'' (MS_NOSUID OR MS_NODEV) ''mode=0755,size=512m'')) (\<lambda>_.
     vbind (mkdirs (map (\<lambda>d. (overlayBase @ ''/'' @ d, 493)) [''upper'', ''work'', ''merged''])) (\<lambda>_. mustMount env overlay_mount)))
     (list_all (safe_mount d)) (\<lambda>es. list_all (safe_mount d) es \<and> MountTried overlay_mount \<in> set es)"
    by (rule gspec_vbind [OF tmp inner]) auto
  show ?thesis
    unfolding setupOverlay_def target_mount_def [symmetric] overlay_mount_def [symmetric]
    by (rule gspec_vbind [OF mustMount_done [where P = "safe_mount d"] mid]) (use t in auto)
qed

section \<open>Properties\<close>

definition boot_log :: "string \<Rightarrow> guest_event list \<Rightarrow> bool" where
  "boot_log d es = (list_all (safe_mount d) es \<or>
     (\<exists>pre argv. es = pre @ [AgentStarted mergedRoot argv] \<and> list_all (safe_mount d) pre \<and>
        MountTried (target_mount d) \<in> set pre \<and> MountTried overlay_mount \<in> set pre))"

lemma superviseAgent_log:
  "gspec (superviseAgent env) (\<lambda>es. es = []) (\<lambda>es. \<exists>argv. es = [AgentStarted mergedRoot argv])"
  unfolding superviseAgent_def
  by (rule gspecI) (auto simp: vbind_def require_def glog_def vret_def vthrow_def split: if_splits option.splits)

definition target_drive :: "string option \<Rightarrow> string" where
  "target_drive cmdline = orString (arg (kernelArgs cmdline) ''target_drive'') ''/dev/vdb''"

lemma init_run_log:
  fixes cmdline
  defines "d \<equiv> target_drive cmdline"
  shows "gspec (init_run env cmdline) (boot_log d) (boot_log d)"
proof -
  let ?s = "list_all (safe_mount d)"
  let ?up = "\<lambda>es. MountTried (target_mount d) \<in> set es \<and> MountTried overlay_mount \<in> set es"
  have p: "gspec (vbind (prepareMergedRoot env) (\<lambda>_. superviseAgent env)) ?s (\<lambda>es. \<exists>pre argv. es = pre @ [AgentStarted mergedRoot argv] \<and> ?s pre)"
    by (rule gspec_vbind [OF prepareMergedRoot_safe superviseAgent_log]) auto
  have o: "gspec (vbind (setupOverlay env d) (\<lambda>_. vbind (prepareMergedRoot env) (\<lambda>_. superviseAgent env))) ?s
      (\<lambda>es. \<exists>pre argv. es = pre @ [AgentStarted mergedRoot argv] \<and> ?s pre \<and> ?up pre)"
    by (rule gspec_vbind [OF setupOverlay_done p]) (auto 0 3 intro: exI [of _ "_ @ _"])
  show ?thesis
    unfolding init_run_def Let_def target_drive_def [symmetric] d_def [symmetric]
    by (rule gspec_vbind [OF basicMounts_safe [where d = d] o]) (auto 0 3 simp: boot_log_def intro: exI [of _ "_ @ _"])
qed


text \<open>
  With the kernel arguments the host passes, the drive that init mounts as target is the second
  drive of the host's configuration, \<open>/dev/vdb\<close>, which is the prepared image.
\<close>

theorem host_and_guest_agree_on_target:
  "target_drive (Some (DefaultKernelArgs @ [CHR 0x0A])) = ''/dev/vdb'' \<and>
   map PathOnHost (Drives boot target) = [boot, target] \<and> map IsRootDevice (Drives boot target) = [True, False]"
proof
  show "target_drive (Some (DefaultKernelArgs @ [CHR 0x0A])) = ''/dev/vdb''" by code_simp
qed (simp add: Drives_def)

end
