(* ===== verification/Sandboxd.thy ===== *)
theory Sandboxd
  imports ApiServer DiskfsApplier "HOL-Library.Signed_Division"
begin

text \<open>
  The command line (\<open>cmd/sandboxd/main.go\<close>) after the flags are parsed: what each command asks of the
  other components, what it writes and the status it exits with.  The formats of durations and JSON and the
  texts of errors are not modelled; \<open>fatal\<close> is exit status 1.  The ext4 library, the HTTP framework's API document and
  what ends the HTTP server are parameters.
\<close>

section \<open>Flags\<close>

text \<open>\<open>repeatedStrings\<close>: a flag that may be given several times.\<close>

definition repeated_String :: "string list \<Rightarrow> string" where
  "repeated_String v = join_with '','' v"

definition repeated_Set :: "string list \<Rightarrow> string \<Rightarrow> string list" where
  "repeated_Set v x = v @ [x]"

datatype command = CmdPrepareImage | CmdInspectRootfs | CmdDemoLocal | CmdRun | CmdCreateSnapshot | CmdBuildBootImage | CmdOpenAPI | CmdServe

text \<open>The dispatch of \<open>main\<close>: \<open>None\<close> prints the usage and exits with status 2.\<close>

definition dispatch :: "string list \<Rightarrow> (command \<times> string list) option" where
  "dispatch args =
     (case args of
        prog # c # rest \<Rightarrow>
          map_option (\<lambda>k. (k, rest))
            (if c = ''prepare-image'' then Some CmdPrepareImage
             else if c = ''inspect-rootfs'' then Some CmdInspectRootfs
             else if c = ''demo-local'' then Some CmdDemoLocal
             else if c = ''run'' then Some CmdRun
             else if c = ''create-snapshot'' then Some CmdCreateSnapshot
             else if c = ''build-boot-image'' then Some CmdBuildBootImage
             else if c = ''openapi'' \<or> c = ''dump-openapi'' then Some CmdOpenAPI
             else if c = ''serve'' then Some CmdServe
             else None)
      | _ \<Rightarrow> None)"

record CliFlags =
  fl_StoreDir :: string
  fl_Kernel :: string
  fl_BootImage :: string
  fl_Firecracker :: string
  fl_Jailer :: string
  fl_JailerChroot :: string
  fl_JailerUID :: int
  fl_JailerGID :: int
  fl_CgroupVersion :: string
  fl_Cgroups :: "string list"
  fl_OS :: string
  fl_Arch :: string
  fl_VCPU :: int
  fl_MemMiB :: int
  fl_UID :: int
  fl_GID :: int
  fl_Workdir :: string
  fl_Timeout :: int
  fl_SnapshotDir :: string
  fl_Args :: "string list"

datatype cli_error =
    CliUsage
  | CliManager manager_error
  | JailerNotFound string
  | JailerNotReadable string errno
  | CliOs errno
  | CliConfig config_error
  | CliOpenAPI nat
  | CliExt4
  | CliPrepare prepare_error
  | MissingPath string
  | CliAgent client_error
  | UnexpectedResults

section \<open>The jailer's flags\<close>

text \<open>\<open>filepath.Abs\<close>.\<close>

definition Abs :: "string \<Rightarrow> ('e, string) io" where
  "Abs p = (if IsAbs p then ret (Clean p) else reads (\<lambda>s. Join [render True (cwd s), p]))"

definition jailerConfig :: "string list \<Rightarrow> string \<Rightarrow> string \<Rightarrow> int \<Rightarrow> int \<Rightarrow> string \<Rightarrow> string list \<Rightarrow> (cli_error, JailerConfig option) io" where
  "jailerConfig PATH jailerPath chrootBase uid gid cgroupVersion cgroupArgs =
     (if jailerPath = '''' then ret None
      else
        andThen (if ContainsRune jailerPath slash then ret jailerPath
                 else wrap (\<lambda>_. JailerNotFound jailerPath) (LookPath PATH jailerPath)) (\<lambda>resolved.
        andThen (wrap (JailerNotReadable resolved) (Stat resolved)) (\<lambda>_.
        andThen (if chrootBase \<noteq> '''' then Abs chrootBase else ret chrootBase) (\<lambda>base.
        ret (Some \<lparr>jc_Binary = resolved, jc_ChrootBaseDir = base, jc_UID = uid, jc_GID = gid, jc_NumaNode = 0,
                   jc_CgroupVersion = cgroupVersion, jc_CgroupArgs = cgroupArgs\<rparr>)))))"

definition flagJailer :: "string list \<Rightarrow> CliFlags \<Rightarrow> (cli_error, JailerConfig option) io" where
  "flagJailer PATH f = jailerConfig PATH (fl_Jailer f) (fl_JailerChroot f) (fl_JailerUID f) (fl_JailerGID f)
     (fl_CgroupVersion f) (fl_Cgroups f)"

definition flagConfig :: "CliFlags \<Rightarrow> HostConfig.Config" where
  "flagConfig f = \<lparr>StoreDir = fl_StoreDir f, KernelPath = fl_Kernel f, BootImagePath = fl_BootImage f,
     cfg_Platform = \<lparr>OS = '''', Architecture = ''''\<rparr>,
     cfg_Rootfs = \<lparr>MinSizeBytes = 0, MaxSizeBytes = 0, ExtraBytes = 0, FSKind = ''''\<rparr>\<rparr>"

section \<open>Results\<close>

fun exitCodeFromResults :: "JobResult list \<Rightarrow> int" where
  "exitCodeFromResults [] = 0"
| "exitCodeFromResults (r # rs) =
     (if r_Type r = JobExec then (if r_ExitCode r < 0 \<or> r_ExitCode r > 255 then 1 else r_ExitCode r)
      else exitCodeFromResults rs)"

text \<open>Standard output of \<open>printJobResults\<close>, for the well-formed encodings that the agent sends.\<close>

fun printedStdout :: "JobResult list \<Rightarrow> string option" where
  "printedStdout [] = Some ''''"
| "printedStdout (r # rs) =
     (if r_Type r \<noteq> JobExec then printedStdout rs
      else case (DecodeString (r_StdoutBase64 r), printedStdout rs) of (Some out, Some rest) \<Rightarrow> Some (out @ rest) | _ \<Rightarrow> None)"

text \<open>What \<open>run\<close> writes to standard error: bytes, texts, and durations, which package \<open>time\<close> formats.\<close>

datatype stderr_item = Raw string | ExitCode int | TimedOut | ErrorText agent_error | Text string | CacheHit bool | Took string int

fun printedStderr :: "JobResult list \<Rightarrow> stderr_item list option" where
  "printedStderr [] = Some []"
| "printedStderr (r # rs) =
     (if r_Type r \<noteq> JobExec then printedStderr rs
      else case (DecodeString (r_StderrBase64 r), printedStderr rs) of
        (Some err, Some rest) \<Rightarrow>
          Some ([Raw err, ExitCode (r_ExitCode r)] @ (if r_TimedOut r then [TimedOut] else []) @
            (case r_Error r of Some e \<Rightarrow> if \<not> r_OK r then [ErrorText e] else [] | None \<Rightarrow> []) @ rest)
      | _ \<Rightarrow> None)"

definition printRunTimings :: "bool \<Rightarrow> int \<Rightarrow> int \<Rightarrow> int \<Rightarrow> RunTimings \<Rightarrow> int \<Rightarrow> stderr_item list" where
  "printRunTimings cacheHit preflight prepare readConfig vm elapsed =
     [Text ''timings:'', CacheHit cacheHit, Took ''preflight'' preflight, Took ''prepare_image'' prepare,
      Took ''read_oci_config'' readConfig, Took ''vm_setup'' (rt_SetupDuration vm),
      Took ''firecracker_start'' (rt_MachineStartDuration vm)] @
     (if rt_AgentReadyDuration vm > 0 then [Took ''agent_ready'' (rt_AgentReadyDuration vm)] else []) @
     [Took ''jobs_request_with_agent_wait'' (rt_JobsDuration vm), Took ''shutdown_wait'' (rt_ShutdownWaitDuration vm),
      Took ''vm_total'' (rt_TotalDuration vm), Took ''command_total'' elapsed]"

definition runStderr :: "int \<Rightarrow> ManagerRunResult \<Rightarrow> stderr_item list option" where
  "runStderr elapsed result =
     (let t = mr_Timings result in
      map_option (\<lambda>printed. (if mt_SnapshotDuration t > 0 then [Took ''snapshot_create'' (mt_SnapshotDuration t)] else []) @ printed @
          printRunTimings (mi_CacheHit (mr_Image result)) (mt_PreflightDuration t) (mt_PrepareDuration t) (mt_ReadConfigDuration t)
            (rr_Timings (mr_VM result)) elapsed)
        (printedStderr (rr_Results (mr_VM result))))"

section \<open>Commands\<close>

definition cliRunRequest :: "CliFlags \<Rightarrow> JailerConfig option \<Rightarrow> string \<Rightarrow> string list \<Rightarrow> RunRequest" where
  "cliRunRequest f jail imageRef argv =
     \<lparr>rq_ImageRef = imageRef, rq_Platform = \<lparr>OS = fl_OS f, Architecture = fl_Arch f\<rparr>, rq_Command = argv,
      rq_KernelPath = fl_Kernel f, rq_BootImagePath = fl_BootImage f, rq_FirecrackerPath = fl_Firecracker f,
      rq_Jailer = jail, rq_MachineConfig = \<lparr>VCPUCount = fl_VCPU f, MemSizeMiB = fl_MemMiB f\<rparr>,
      rq_Workspace = ''/workspace'', rq_Workdir = fl_Workdir f, rq_UID = fl_UID f, rq_GID = fl_GID f,
      rq_Defaults = \<lparr>d_UID = Some (fl_UID f), d_GID = Some (fl_GID f), d_Env = [],
                     d_TimeoutMillis = fl_Timeout f sdiv millisecond, d_MaxOutputBytes = 4 * 2 ^ 20\<rparr>,
      rq_Jobs = [], rq_Timeout = fl_Timeout f, rq_SnapshotDir = fl_SnapshotDir f, rq_Snapshot = None, rq_CleanupJailer = False\<rparr>"

definition runVM :: "'ref manager_env \<Rightarrow> 'ref manager_env \<Rightarrow> CliFlags \<Rightarrow> (cli_error, ManagerRunResult) hio" where
  "runVM env snapEnv f =
     (case fl_Args f of
        [] \<Rightarrow> vthrow CliUsage
      | imageRef # rest \<Rightarrow>
          let argv = (case rest of [] \<Rightarrow> [] | a # as \<Rightarrow> if a = ''--'' then as else rest) in
          vbind (hos id (flagJailer (me_PATH env) f)) (\<lambda>jail.
          vlift CliManager (Run env snapEnv (manager_New (flagConfig f)) (cliRunRequest f jail imageRef argv))))"

text \<open>The status of a command: 1 after \<open>fatal\<close>.\<close>

definition status :: "(cli_error + ManagerRunResult) \<Rightarrow> int" where
  "status r = (case r of Inl e \<Rightarrow> 1 | Inr result \<Rightarrow> exitCodeFromResults (rr_Results (mr_VM result)))"

definition cliCreateSnapshot :: "'ref manager_env \<Rightarrow> CliFlags \<Rightarrow> (cli_error, SnapshotArtifact) hio" where
  "cliCreateSnapshot env f =
     (case fl_Args f of
        [imageRef] \<Rightarrow>
          vbind (hos id (flagJailer (me_PATH env) f)) (\<lambda>jail.
          vlift CliManager (managerCreateSnapshot env (manager_New (flagConfig f))
            \<lparr>cs_ImageRef = imageRef, cs_Platform = \<lparr>OS = DefaultPlatformOS, Architecture = DefaultArchitecture\<rparr>,
             cs_KernelPath = fl_Kernel f, cs_BootImagePath = fl_BootImage f, cs_FirecrackerPath = fl_Firecracker f,
             cs_Jailer = jail, cs_MachineConfig = \<lparr>VCPUCount = fl_VCPU f, MemSizeMiB = fl_MemMiB f\<rparr>,
             cs_Timeout = fl_Timeout f, cs_SnapshotDir = fl_SnapshotDir f,
             cs_Snapshot = \<lparr>sa_MemPath = '''', sa_SnapshotPath = '''', sa_WorkspaceDir = ''''\<rparr>\<rparr>))
      | _ \<Rightarrow> vthrow CliUsage)"

definition cliPrepareImage :: "'ref manager_env \<Rightarrow> CliFlags \<Rightarrow> (cli_error, ManagerImage) hio" where
  "cliPrepareImage env f =
     (case fl_Args f of
        [imageRef] \<Rightarrow>
          vlift CliManager (managerPrepareImage env (manager_New ((flagConfig f)\<lparr>KernelPath := '''', BootImagePath := ''''\<rparr>))
            imageRef \<lparr>OS = fl_OS f, Architecture = fl_Arch f\<rparr>)
      | _ \<Rightarrow> vthrow CliUsage)"

section \<open>Images\<close>

definition cleanImagePath :: "string \<Rightarrow> string" where
  "cleanImagePath p = (let clean = TrimPrefix (Clean p) ''/'' in if clean = ''.'' \<or> clean = '''' then ''.'' else clean)"

text \<open>
  The boot image: \<open>source\<close> is the content of the host's file, \<open>None\<close> when it cannot be opened.
\<close>

definition copyIntoExt4 :: "'fs ext4 \<Rightarrow> string option \<Rightarrow> string \<Rightarrow> uint32 \<Rightarrow> ('fs, unit) dio" where
  "copyIntoExt4 x source targetPath mode =
     (case source of
        None \<Rightarrow> dthrow FsNotExist
      | Some bytes \<Rightarrow>
          dbind (dcall (x_OpenFile x targetPath False)) (\<lambda>fd.
          dbind (dtry (dcall (x_Write x fd bytes))) (\<lambda>w.
            case w of
              Inl e \<Rightarrow> dbind (dtry (dcall (x_Close x fd))) (\<lambda>_. dthrow e)
            | Inr u \<Rightarrow> dbind (dcall (x_Close x fd)) (\<lambda>_. dcall (x_Chmod x targetPath mode)))))"

definition bootDirs :: "string list" where
  "bootDirs = [''dev'', ''proc'', ''sys'', ''run'', ''tmp'', ''mnt'', ''mnt/target'', ''mnt/overlay'']"

fun mkdirEach :: "'fs ext4 \<Rightarrow> string list \<Rightarrow> ('fs, unit) dio" where
  "mkdirEach x [] = dret ()"
| "mkdirEach x (d # ds) = dbind (dcall (x_Mkdir x d)) (\<lambda>_. mkdirEach x ds)"

definition fillBootImage :: "'fs ext4 \<Rightarrow> string option \<Rightarrow> string option \<Rightarrow> ('fs, unit) dio" where
  "fillBootImage x initFile agentFile =
     dbind (mkdirEach x bootDirs) (\<lambda>_.
     dbind (copyIntoExt4 x initFile ''init'' 493) (\<lambda>_.
     copyIntoExt4 x agentFile ''agent'' 493))"

text \<open>
  The whole command: \<open>mkfs\<close> makes the image file with an empty file system, \<open>sync\<close> is what the library has written to the
  image file at the end.  A host file that cannot be read counts as one that cannot be opened.  A panic of the library is not
  recovered: status 2.
\<close>

record BootImageFlags =
  bf_Init :: string
  bf_Agent :: string
  bf_Output :: string
  bf_Size :: int

definition sourceFile :: "string \<Rightarrow> os \<Rightarrow> string option \<times> os" where
  "sourceFile p s = (case ReadFile p s of (Inl e, s') \<Rightarrow> (None, s') | (Inr b, s') \<Rightarrow> (Some b, s'))"

definition exitStatus :: "'a dres \<Rightarrow> int" where
  "exitStatus r = (case r of DOk a \<Rightarrow> 0 | DErr e \<Rightarrow> 1 | DPanic \<Rightarrow> 2 | DFuel \<Rightarrow> 2)"

definition prepareOutput :: "BootImageFlags \<Rightarrow> (cli_error, unit) io" where
  "prepareOutput f =
     (if bf_Init f = '''' \<or> bf_Agent f = '''' \<or> bf_Output f = '''' then throw CliUsage
      else
        andThen (attempt (MkdirAll (Dir (bf_Output f)) 493)) (\<lambda>made.
        andThen (case made of Inl e \<Rightarrow> if Dir (bf_Output f) \<noteq> ''.'' then throw (CliOs e) else ret () | Inr u \<Rightarrow> ret ()) (\<lambda>_.
        andThen (attempt (Remove (bf_Output f))) (\<lambda>_ :: errno + unit. ret ()))))"

definition buildBootImage :: "'fs ext4 \<Rightarrow> (string \<Rightarrow> int \<Rightarrow> os \<Rightarrow> 'fs xres \<times> os) \<Rightarrow> (string \<Rightarrow> 'fs \<Rightarrow> os \<Rightarrow> os)
    \<Rightarrow> BootImageFlags \<Rightarrow> os \<Rightarrow> int \<times> os" where
  "buildBootImage x mkfs sync f s =
     (case prepareOutput f s of
        (Inl e, s1) \<Rightarrow> (1, s1)
      | (Inr u, s1) \<Rightarrow>
          (case mkfs (bf_Output f) (bf_Size f) s1 of
             (XErr e, s2) \<Rightarrow> (1, s2)
           | (XPanic, s2) \<Rightarrow> (2, s2)
           | (XOk fs, s2) \<Rightarrow>
               (case sourceFile (bf_Init f) s2 of (initFile, s3) \<Rightarrow>
               (case sourceFile (bf_Agent f) s3 of (agentFile, s4) \<Rightarrow>
               (case fillBootImage x initFile agentFile \<lparr>FS = fs, Symlinks = (\<lambda>_. False)\<rparr> of
                  (r, d) \<Rightarrow> (exitStatus r, sync (bf_Output f) (FS d) s4))))))"

section \<open>Looking into an image\<close>

text \<open>The reading side of the ext4 library.\<close>

record 'fs ext4_reader =
  er_Open :: "string \<Rightarrow> os \<Rightarrow> 'fs option"
  er_ReadDir :: "'fs \<Rightarrow> string \<Rightarrow> (string \<times> bool) list option"
  er_ReadFile :: "'fs \<Rightarrow> string \<Rightarrow> string option"
  er_Stat :: "'fs \<Rightarrow> string \<Rightarrow> bool"

definition openExt4 :: "'fs ext4_reader \<Rightarrow> string \<Rightarrow> (cli_error, 'fs) io" where
  "openExt4 lib imagePath =
     andThen (wrap CliOs (Stat imagePath)) (\<lambda>_.
     andThen (reads (er_Open lib imagePath)) (\<lambda>r. case r of None \<Rightarrow> throw CliExt4 | Some fs \<Rightarrow> ret fs))"

definition orFail :: "'a option \<Rightarrow> (cli_error, 'a) io" where
  "orFail r = (case r of None \<Rightarrow> throw CliExt4 | Some a \<Rightarrow> ret a)"

definition listing :: "(string \<times> bool) list \<Rightarrow> string" where
  "listing es = concat (map (\<lambda>(name, dir). (if dir then ''dir'' else ''file'') @ [CHR 0x09] @ name @ [CHR 0x0A]) es)"

text \<open>\<open>inspectRootfs\<close>: what it prints.  What it printed before an error is printed all the same and is not part of the result.\<close>

definition inspectRootfs :: "'fs ext4_reader \<Rightarrow> string \<Rightarrow> string \<Rightarrow> string list \<Rightarrow> (cli_error, string) io" where
  "inspectRootfs lib readFile listDir args =
     (case args of
        [imagePath] \<Rightarrow>
          andThen (openExt4 lib imagePath) (\<lambda>fs.
          let listDir' = (if listDir = '''' \<and> readFile = '''' then ''/'' else listDir) in
          andThen (if listDir' = '''' then ret '''' else
                     andThen (orFail (er_ReadDir lib fs (cleanImagePath listDir'))) (\<lambda>es. ret (listing es))) (\<lambda>out.
          andThen (if readFile = '''' then ret '''' else orFail (er_ReadFile lib fs (cleanImagePath readFile))) (\<lambda>bytes.
          ret (out @ bytes))))
      | _ \<Rightarrow> throw CliUsage)"

section \<open>The daemon's commands\<close>

text \<open>\<open>os.WriteFile\<close>.\<close>

definition WriteFile :: "string \<Rightarrow> string \<Rightarrow> uint32 \<Rightarrow> (errno, unit) io" where
  "WriteFile p data m =
     andThen (OpenTrunc p m) (\<lambda>i.
     andThen (attempt (FWrite i data)) (\<lambda>w.
     andThen (attempt (FClose i)) (\<lambda>c. case w of Inl e \<Rightarrow> throw e | Inr u \<Rightarrow> (case c of Inl e \<Rightarrow> throw e | Inr v \<Rightarrow> ret ()))))"

text \<open>
  \<open>dumpOpenAPI\<close>: \<open>document\<close> is the framework's answer to \<open>GET /openapi.json\<close>; the result is what goes to standard output.
\<close>

definition serverFor :: "string \<Rightarrow> ServerConfig \<Rightarrow> (cli_error, ApiServer) io" where
  "serverFor arch cfg = (case server_New arch cfg of Inl e \<Rightarrow> throw (CliConfig e) | Inr srv \<Rightarrow> ret srv)"

definition dumpOpenAPI :: "(string \<Rightarrow> ServerConfig \<Rightarrow> ServerConfig option) \<Rightarrow> (ApiServer \<Rightarrow> nat \<times> string) \<Rightarrow> string
    \<Rightarrow> string \<Rightarrow> string \<Rightarrow> string list \<Rightarrow> (cli_error, string) io" where
  "dumpOpenAPI merge document arch outputPath configPath args =
     (if args \<noteq> [] then throw CliUsage
      else
        andThen (if configPath \<noteq> '''' then wrap CliConfig (LoadConfig merge configPath) else ret DefaultConfig) (\<lambda>cfg.
        andThen (serverFor arch cfg) (\<lambda>srv.
          case document srv of (code, body) \<Rightarrow>
            if code \<noteq> 200 then throw (CliOpenAPI code)
            else if outputPath = ''-'' then ret body
            else andThen (wrap CliOs (WriteFile outputPath body 420)) (\<lambda>_. ret (outputPath @ [CHR 0x0A])))))"

text \<open>How serving ends: the listener fails, it is closed, or a signal stops it and the shutdown succeeds or does not.\<close>

datatype serve_end = ListenFailed | ServerClosed | Signalled bool

definition serve :: "(string \<Rightarrow> ServerConfig \<Rightarrow> ServerConfig option) \<Rightarrow> (ApiServer \<Rightarrow> serve_end) \<Rightarrow> string \<Rightarrow> string
    \<Rightarrow> os \<Rightarrow> (int \<times> ApiServer option) \<times> os" where
  "serve merge ends arch configPath s =
     (case andThen (wrap CliConfig (LoadConfig merge configPath)) (serverFor arch) s of
        (Inl e, s') \<Rightarrow> ((1, None), s')
      | (Inr srv, s') \<Rightarrow>
          ((case ends srv of ListenFailed \<Rightarrow> 1 | ServerClosed \<Rightarrow> 0 | Signalled done \<Rightarrow> if done then 0 else 1, Some srv), s'))"

section \<open>The local demonstration\<close>

text \<open>
  \<open>demoLocal\<close>: prepares an image, looks for three directories in it, and runs two jobs on an agent in the same process.
  \<open>enc\<close> is the client's encoding of the request, \<open>json_first\<close> the agent's decoder.  The result is the standard output of the second job.
\<close>

record demo_env =
  dm_enc :: "BatchRequest \<Rightarrow> string"
  dm_json_first :: "string \<Rightarrow> (BatchRequest \<times> string) option"
  dm_json_len :: "BatchResponse \<Rightarrow> nat"
  dm_runner :: runner

definition demoAgentConfig :: "os \<Rightarrow> string \<Rightarrow> AgentServer.Config" where
  "demoAgentConfig s workspace = \<lparr>c_Workspace = workspace, c_MaxBodyBytes = 0, c_MaxFileBytes = 0, c_MaxOutputBytes = 0,
     c_DefaultTimeout = 0, c_DefaultUID = ruid s, c_DefaultGID = rgid s, c_HasShutdown = False, c_ShutdownAfterJobs = False\<rparr>"

definition demoRequest :: "os \<Rightarrow> string \<Rightarrow> BatchRequest" where
  "demoRequest s workspace =
     \<lparr>b_Version = Version, b_Workspace = workspace,
      b_Defaults = \<lparr>d_UID = Some (ruid s), d_GID = Some (rgid s), d_Env = [], d_TimeoutMillis = 5000, d_MaxOutputBytes = 2 ^ 20\<rparr>,
      b_Jobs = [zero_job\<lparr>j_Type := JobWriteFile, j_Path := Join [workspace, ''hello.txt''], j_Mode := 420,
                         j_ContentsBase64 := EncodeToString (''hello from batched jobs'' @ [CHR 0x0A])\<rparr>,
                zero_job\<lparr>j_Type := JobExec, j_Argv := [''/bin/sh'', ''-c'', ''cat hello.txt''], j_WorkingDir := workspace\<rparr>],
      b_Shutdown = False\<rparr>"

definition demoJobs :: "demo_env \<Rightarrow> string \<Rightarrow> (cli_error, JobResult list) io" where
  "demoJobs dm workspace s =
     (case jobs (dm_json_first dm) (dm_runner dm) (New s (demoAgentConfig s workspace)) (dm_enc dm (demoRequest s workspace)) s of
        (reply, shut, srv, s') \<Rightarrow>
          (case client_Jobs (dm_json_len dm) (Some reply) of
             (resp, Some err) \<Rightarrow> (Inl (CliAgent err), s')
           | (Some resp, None) \<Rightarrow> (Inr resp, s')
           | (None, None) \<Rightarrow> (Inl UnexpectedResults, s')))"

fun statEach :: "(string \<Rightarrow> bool) \<Rightarrow> string list \<Rightarrow> (cli_error, unit) io" where
  "statEach stat [] = ret ()"
| "statEach stat (p # ps) = (if stat p then statEach stat ps else throw (MissingPath p))"

definition demoLocal :: "'fs ext4_reader \<Rightarrow> 'ref runtime_env \<Rightarrow> demo_env \<Rightarrow> string \<Rightarrow> string \<Rightarrow> (cli_error, string) hio" where
  "demoLocal lib env dm storeDir imageRef =
     vbind (blocking CliPrepare (PrepareImage env
       (runtime_New \<lparr>StoreDir = storeDir, KernelPath = '''', BootImagePath = '''', cfg_Platform = \<lparr>OS = '''', Architecture = ''''\<rparr>,
          cfg_Rootfs = \<lparr>MinSizeBytes = 0, MaxSizeBytes = 0, ExtraBytes = 0, FSKind = ''''\<rparr>\<rparr>)
       imageRef \<lparr>OS = DefaultPlatformOS, Architecture = DefaultArchitecture\<rparr>)) (\<lambda>prepared.
     vbind (hos id (openExt4 lib (pp_RootfsPath prepared))) (\<lambda>fs.
     vbind (hos id (statEach (er_Stat lib fs) [''bin'', ''etc'', ''lib''])) (\<lambda>_.
     vbind (hos id (Abs storeDir)) (\<lambda>absStoreDir.
     let workspace = Join [absStoreDir, ''demo-workspace''] in
     vbind (hos CliOs (RemoveAll workspace)) (\<lambda>_.
     vbind (hos CliOs (MkdirAll workspace 493)) (\<lambda>_.
     vbind (hos id (demoJobs dm workspace)) (\<lambda>results.
       case results of
         [r1, r2] \<Rightarrow> if r_OK r1 \<and> r_OK r2
                     then vret (case DecodeString (r_StdoutBase64 r2) of None \<Rightarrow> '''' | Some out \<Rightarrow> out)
                     else vthrow UnexpectedResults
       | _ \<Rightarrow> vthrow UnexpectedResults)))))))"

end
