(* ===== verification/GoFlag.thy ===== *)
theory GoFlag
  imports GoStrconv
begin

text \<open>
  Package \<open>flag\<close>, as the commands use it: flags of type string, integer, unsigned integer, boolean and duration, and values with their own
  \<open>Set\<close>.  A flag set is a table of setters.  Integers are those of \<open>strconv\<close> with base 0, durations those of \<open>time.ParseDuration\<close>, where
  the floating-point product of a fraction is an argument.  A flag set that exits on errors exits with status 2, and with 0 when help is asked for.
\<close>

section \<open>Integers\<close>

text \<open>\<open>strconv.ParseUint\<close> with base 0: prefixes for other bases, and underscores between digits.\<close>

definition digitOf :: "char \<Rightarrow> nat option" where
  "digitOf c =
     (let n = of_char c in
      if is_digit c then Some (n - 48)
      else if 97 \<le> n \<and> n \<le> 122 then Some (n - 87)
      else if 65 \<le> n \<and> n \<le> 90 then Some (n - 55)
      else None)"

fun digitsFrom :: "nat \<Rightarrow> nat \<Rightarrow> string \<Rightarrow> nat option" where
  "digitsFrom base n [] = Some n"
| "digitsFrom base n (c # cs) =
     (if c = CHR ''_'' then digitsFrom base n cs
      else case digitOf c of
        None \<Rightarrow> None
      | Some d \<Rightarrow> if d \<ge> base \<or> base * n + d \<ge> 2 ^ 64 then None else digitsFrom base (base * n + d) cs)"

definition basePrefix :: "string \<Rightarrow> nat \<times> string" where
  "basePrefix s =
     (case s of
        c0 # c1 # c2 # cs \<Rightarrow>
          if c0 \<noteq> CHR ''0'' then (10, s)
          else if c1 \<in> {CHR ''b'', CHR ''B''} then (2, c2 # cs)
          else if c1 \<in> {CHR ''o'', CHR ''O''} then (8, c2 # cs)
          else if c1 \<in> {CHR ''x'', CHR ''X''} then (16, c2 # cs)
          else (8, tl s)
      | c0 # cs \<Rightarrow> if c0 = CHR ''0'' then (8, cs) else (10, s)
      | [] \<Rightarrow> (10, []))"

text \<open>\<open>underscoreOK\<close>: every underscore stands between digits, where a base prefix counts as one.\<close>

datatype seen = Nothing | Digit | Underscore | Else

fun underscores :: "bool \<Rightarrow> seen \<Rightarrow> string \<Rightarrow> bool" where
  "underscores hex i [] = (i \<noteq> Underscore)"
| "underscores hex i (c # cs) =
     (if is_digit c \<or> hex \<and> (case digitOf c of None \<Rightarrow> False | Some d \<Rightarrow> d < 16) then underscores hex Digit cs
      else if c = CHR ''_'' then i = Digit \<and> underscores hex Underscore cs
      else i \<noteq> Underscore \<and> underscores hex Else cs)"

definition underscoreOK :: "string \<Rightarrow> bool" where
  "underscoreOK s0 =
     (let s = (if s0 \<noteq> [] \<and> hd s0 \<in> {CHR ''-'', CHR ''+''} then tl s0 else s0) in
      case s of
        c0 # c1 # cs \<Rightarrow>
          if c0 = CHR ''0'' \<and> c1 \<in> set ''bBoOxX'' then underscores (c1 \<in> set ''xX'') Digit cs else underscores False Nothing s
      | _ \<Rightarrow> underscores False Nothing s)"

definition ParseUint :: "string \<Rightarrow> nat option" where
  "ParseUint s =
     (if s = [] then None
      else case basePrefix s of (base, ds) \<Rightarrow>
        if CHR ''_'' \<in> set ds \<and> \<not> underscoreOK s then None else digitsFrom base 0 ds)"

definition ParseInt :: "string \<Rightarrow> int option" where
  "ParseInt s =
     (case (case s of c # cs \<Rightarrow> if c = CHR ''+'' then (False, cs) else if c = CHR ''-'' then (True, cs) else (False, s)
                  | [] \<Rightarrow> (False, [])) of
        (neg, ds) \<Rightarrow>
          (case ParseUint ds of
             None \<Rightarrow> None
           | Some un \<Rightarrow>
               if neg then (if un > 2 ^ 63 then None else Some (- int un)) else (if un \<ge> 2 ^ 63 then None else Some (int un))))"

definition ParseBool :: "string \<Rightarrow> bool option" where
  "ParseBool s =
     (if s \<in> {''1'', ''t'', ''T'', ''true'', ''TRUE'', ''True''} then Some True
      else if s \<in> {''0'', ''f'', ''F'', ''false'', ''FALSE'', ''False''} then Some False
      else None)"

section \<open>Durations\<close>

text \<open>\<open>leadingInt\<close> and \<open>leadingFraction\<close>: the digits in front, with the number of them that a fraction keeps.\<close>

fun leadingInt :: "nat \<Rightarrow> string \<Rightarrow> (nat \<times> string) option" where
  "leadingInt x [] = Some (x, [])"
| "leadingInt x (c # cs) =
     (if \<not> is_digit c then Some (x, c # cs)
      else if x > 2 ^ 63 div 10 \<or> 10 * x + (of_char c - 48) > 2 ^ 63 then None
      else leadingInt (10 * x + (of_char c - 48)) cs)"

fun leadingFraction :: "nat \<Rightarrow> nat \<Rightarrow> string \<Rightarrow> nat \<times> nat \<times> string" where
  "leadingFraction x k [] = (x, k, [])"
| "leadingFraction x k (c # cs) =
     (if \<not> is_digit c then (x, k, c # cs)
      else if x > (2 ^ 63 - 1) div 10 \<or> 10 * x + (of_char c - 48) > 2 ^ 63 then (x, k, dropWhile is_digit cs)
      else leadingFraction (10 * x + (of_char c - 48)) (Suc k) cs)"

definition unitNanos :: "string \<Rightarrow> nat option" where
  "unitNanos = map_of
     [(''ns'', 1), (''us'', 1000), ([CHR 0xC2, CHR 0xB5, CHR ''s''], 1000), ([CHR 0xCE, CHR 0xBC, CHR ''s''], 1000),
      (''ms'', 1000000), (''s'', 1000000000), (''m'', 60000000000), (''h'', 3600000000000)]"

definition unit_char :: "char \<Rightarrow> bool" where
  "unit_char c = (c \<noteq> CHR ''.'' \<and> \<not> is_digit c)"

text \<open>
  The next number with its unit: its nanoseconds and what follows.  \<open>mul f k unit\<close> is the floating-point product of the
  fraction \<open>f\<close> with \<open>k\<close> digits and the unit, truncated.
\<close>

type_synonym frac_mul = "nat \<Rightarrow> nat \<Rightarrow> nat \<Rightarrow> nat"

definition nextDuration :: "frac_mul \<Rightarrow> string \<Rightarrow> (nat \<times> string) option" where
  "nextDuration mul s =
     (if s = [] \<or> unit_char (hd s) then None
      else case leadingInt 0 s of
        None \<Rightarrow> None
      | Some (v, s1) \<Rightarrow>
          (let pre = (length s1 \<noteq> length s); dot = (s1 \<noteq> [] \<and> hd s1 = CHR ''.'') in
           case (if dot then leadingFraction 0 0 (tl s1) else (0, 0, s1)) of (f, k, s2) \<Rightarrow>
             let post = (dot \<and> length s2 \<noteq> length (tl s1)); u = takeWhile unit_char s2 in
             if \<not> pre \<and> \<not> post \<or> u = [] then None
             else case unitNanos u of
               None \<Rightarrow> None
             | Some unit \<Rightarrow>
                 if v > 2 ^ 63 div unit then None
                 else if f > 0 \<and> v * unit + mul f k unit > 2 ^ 63 then None
                 else Some (v * unit + (if f > 0 then mul f k unit else 0), dropWhile unit_char s2)))"

lemma leadingInt_length: "leadingInt x s = Some (v, s1) \<Longrightarrow> length s1 \<le> length s"
  by (induction x s rule: leadingInt.induct) (auto split: if_splits)

lemma leadingFraction_length: "leadingFraction x k s = (f, k', s1) \<Longrightarrow> length s1 \<le> length s"
  by (induction x k s rule: leadingFraction.induct) (auto split: if_splits intro: le_SucI length_dropWhile_le)

lemma nextDuration_shorter: "nextDuration mul s = Some (v, rest) \<Longrightarrow> length rest < length s"
proof -
  assume "nextDuration mul s = Some (v, rest)"
  then obtain x s1 f k s2 where s1: "leadingInt 0 s = Some (x, s1)"
    and s2: "(if s1 \<noteq> [] \<and> hd s1 = CHR ''.'' then leadingFraction 0 0 (tl s1) else (0, 0, s1)) = (f, k, s2)"
    and u: "takeWhile unit_char s2 \<noteq> []" "rest = dropWhile unit_char s2"
    by (auto simp: nextDuration_def Let_def split: if_splits option.splits prod.splits)
  have "length s2 \<le> length s1" using s2 leadingFraction_length [of 0 0 "tl s1" f k s2] by (auto split: if_splits)
  moreover have "length rest < length s2"
    using u by (metis add_diff_cancel_left' diff_less length_append length_greater_0_conv takeWhile_dropWhile_id takeWhile.simps(1))
  ultimately show ?thesis using leadingInt_length [OF s1] by simp
qed

text \<open>The loop of \<open>ParseDuration\<close>; its sum is one of 64 bits.\<close>

function durationFrom :: "frac_mul \<Rightarrow> nat \<Rightarrow> string \<Rightarrow> nat option" where
  "durationFrom mul d s =
     (if s = [] then Some d
      else case nextDuration mul s of
        None \<Rightarrow> None
      | Some (v, rest) \<Rightarrow>
          let d' = (d + v) mod 2 ^ 64 in if d' > 2 ^ 63 then None else durationFrom mul d' rest)"
  by pat_completeness auto
termination
  by (relation "measure (\<lambda>(mul, d, s). length s)") (auto dest: nextDuration_shorter)

declare durationFrom.simps [simp del]

definition ParseDuration :: "frac_mul \<Rightarrow> string \<Rightarrow> int option" where
  "ParseDuration mul s0 =
     (case (case s0 of c # cs \<Rightarrow> if c = CHR ''-'' then (True, cs) else if c = CHR ''+'' then (False, cs) else (False, s0)
                   | [] \<Rightarrow> (False, [])) of
        (neg, s) \<Rightarrow>
          if s = ''0'' then Some 0
          else if s = [] then None
          else (case durationFrom mul 0 s of
                  None \<Rightarrow> None
                | Some d \<Rightarrow> if neg then Some (- int d) else if d > 2 ^ 63 - 1 then None else Some (int d)))"

section \<open>Flag sets\<close>

text \<open>A flag: whether it is a boolean one, and how its value is set, \<open>None\<close> when it is refused.\<close>

type_synonym 'f setter = "string \<Rightarrow> 'f \<Rightarrow> 'f option"
type_synonym 'f flag_set = "(string \<times> bool \<times> 'f setter) list"

definition StringVar :: "(string \<Rightarrow> 'f \<Rightarrow> 'f) \<Rightarrow> bool \<times> 'f setter" where
  "StringVar upd = (False, \<lambda>v f. Some (upd v f))"

definition IntVar :: "(int \<Rightarrow> 'f \<Rightarrow> 'f) \<Rightarrow> bool \<times> 'f setter" where
  "IntVar upd = (False, \<lambda>v f. map_option (\<lambda>i. upd i f) (ParseInt v))"

definition UintVar :: "(nat \<Rightarrow> 'f \<Rightarrow> 'f) \<Rightarrow> bool \<times> 'f setter" where
  "UintVar upd = (False, \<lambda>v f. map_option (\<lambda>i. upd i f) (ParseUint v))"

definition BoolVar :: "(bool \<Rightarrow> 'f \<Rightarrow> 'f) \<Rightarrow> bool \<times> 'f setter" where
  "BoolVar upd = (True, \<lambda>v f. map_option (\<lambda>b. upd b f) (ParseBool v))"

definition DurationVar :: "frac_mul \<Rightarrow> (int \<Rightarrow> 'f \<Rightarrow> 'f) \<Rightarrow> bool \<times> 'f setter" where
  "DurationVar mul upd = (False, \<lambda>v f. map_option (\<lambda>i. upd i f) (ParseDuration mul v))"

text \<open>What \<open>parseOne\<close> makes of an argument: the end of the flags, a mistake, or a flag with the value after its first equals sign.\<close>

datatype argument = Operand | Terminator | Malformed | Flag string "string option"

definition flagArgument :: "string \<Rightarrow> argument" where
  "flagArgument s =
     (if length s < 2 \<or> hd s \<noteq> CHR ''-'' then Operand
      else if s = ''--'' then Terminator
      else let name = (if s ! 1 = CHR ''-'' then drop 2 s else drop 1 s) in
        if name = [] \<or> hd name = CHR ''-'' \<or> hd name = CHR ''='' then Malformed
        else (case dropWhile (\<lambda>c. c \<noteq> CHR ''='') name of
                [] \<Rightarrow> Flag name None
              | c # value \<Rightarrow> Flag (takeWhile (\<lambda>c. c \<noteq> CHR ''='') name) (Some value)))"

datatype 'f parsed = Parsed 'f "string list" | HelpAsked | BadFlags

fun Parse :: "'f flag_set \<Rightarrow> string list \<Rightarrow> 'f \<Rightarrow> 'f parsed" where
  "Parse fs [] f = Parsed f []"
| "Parse fs (s # args) f =
     (case flagArgument s of
        Operand \<Rightarrow> Parsed f (s # args)
      | Terminator \<Rightarrow> Parsed f args
      | Malformed \<Rightarrow> BadFlags
      | Flag name value \<Rightarrow>
          (case map_of fs name of
             None \<Rightarrow> if name = ''help'' \<or> name = ''h'' then HelpAsked else BadFlags
           | Some (True, put) \<Rightarrow>
               (case put (case value of None \<Rightarrow> ''true'' | Some v \<Rightarrow> v) f of None \<Rightarrow> BadFlags | Some f' \<Rightarrow> Parse fs args f')
           | Some (False, put) \<Rightarrow>
               (case value of
                  Some v \<Rightarrow> (case put v f of None \<Rightarrow> BadFlags | Some f' \<Rightarrow> Parse fs args f')
                | None \<Rightarrow>
                    (case args of
                       [] \<Rightarrow> BadFlags
                     | v # args' \<Rightarrow> (case put v f of None \<Rightarrow> BadFlags | Some f' \<Rightarrow> Parse fs args' f')))))"

text \<open>A command with its flags: help and mistakes end it.\<close>

definition withFlags :: "'f flag_set \<Rightarrow> 'f \<Rightarrow> ('f \<Rightarrow> string list \<Rightarrow> 's \<Rightarrow> (int \<times> 's) option) \<Rightarrow> string list \<Rightarrow> 's \<Rightarrow> (int \<times> 's) option" where
  "withFlags fs def body args s =
     (case Parse fs args def of HelpAsked \<Rightarrow> Some (0, s) | BadFlags \<Rightarrow> Some (2, s) | Parsed f rest \<Rightarrow> body f rest s)"

section \<open>Values that are read back\<close>

lemma digit_value: "is_digit c \<Longrightarrow> of_char c - (48 :: nat) < 10 \<and> (48 :: nat) \<le> of_char c \<and> c \<noteq> CHR ''_'' \<and> \<not> unit_char c"
  by (auto simp: is_digit_def unit_char_def)

lemma digits_val_append_le: "list_all is_digit ds \<Longrightarrow> 0 \<le> digits_val acc \<Longrightarrow> digits_val acc \<le> digits_val (acc @ ds)"
proof (induction ds arbitrary: acc)
  case (Cons c ds)
  have "0 \<le> int (of_char c) - 48" using Cons.prems(1) digit_value [of c] by auto
  then have "0 \<le> digits_val (acc @ [c])" "digits_val acc \<le> digits_val (acc @ [c])" using Cons.prems(2) by (simp_all add: digits_val_snoc)
  then show ?case using Cons.IH [of "acc @ [c]"] Cons.prems(1) by simp
qed simp

lemma digit_step: "is_digit c \<Longrightarrow> int n = digits_val acc \<Longrightarrow> int (10 * n + (of_char c - 48)) = digits_val (acc @ [c])"
  using digit_value [of c] by (simp add: digits_val_snoc of_nat_diff)

lemma digitsFrom_digits:
  "list_all is_digit ds \<Longrightarrow> int n = digits_val acc \<Longrightarrow> digits_val (acc @ ds) < 2 ^ 64 \<Longrightarrow>
   digitsFrom 10 n ds = Some (nat (digits_val (acc @ ds)))"
proof (induction ds arbitrary: n acc)
  case (Cons c ds)
  have c: "is_digit c" "list_all is_digit ds" using Cons.prems(1) by simp_all
  note step = digit_step [OF c(1) Cons.prems(2)]
  have "digits_val (acc @ [c]) \<le> digits_val ((acc @ [c]) @ ds)" by (rule digits_val_append_le [OF c(2)]) (use step in linarith)
  then have "int (10 * n + (of_char c - 48)) < 2 ^ 64" using step Cons.prems(3) by simp
  then have "10 * n + (of_char c - 48) < 2 ^ 64" by (simp only: of_nat_less_numeral_power_cancel_iff)
  then show ?case using Cons.IH [OF c(2) step] Cons.prems(3) c(1) digit_value [OF c(1)] by (simp add: digitOf_def Let_def)
qed auto

lemma basePrefix_itoa: "basePrefix (itoa n) = (if n = 0 then (8, []) else (10, itoa n))"
proof (cases "n = 0")
  case True
  have "basePrefix (itoa 0) = (8, [])" by code_simp
  with True show ?thesis by simp
next
  case False
  then show ?thesis using itoa_hd [of n] itoa_not_Nil [of n] by (auto simp: basePrefix_def split: list.splits)
qed

lemma ParseUint_itoa: "n < 2 ^ 64 \<Longrightarrow> ParseUint (itoa n) = Some n"
proof -
  assume n: "n < 2 ^ 64"
  have d: "list_all is_digit (itoa n)" by (rule itoa_digits)
  then have "CHR ''_'' \<notin> set (itoa n)" using digit_value by (fastforce simp: list_all_iff)
  moreover have "int n < 2 ^ 64" using n by simp
  ultimately show ?thesis
    using digitsFrom_digits [OF d, of 0 "[]"] digits_val_itoa [of n] itoa_not_Nil [of n]
    by (simp add: ParseUint_def basePrefix_itoa digits_val_def)
qed

lemma signless: "itoa n = c # cs \<Longrightarrow> c \<noteq> CHR ''+'' \<and> c \<noteq> CHR ''-''"
  using itoa_digits [of n] by (auto simp: is_digit_def)

lemma ParseInt_Itoa:
  assumes "- (2 ^ 63) \<le> i" "i < 2 ^ 63"
  shows "ParseInt (Itoa i) = Some i"
proof -
  have u: "ParseUint (itoa (nat \<bar>i\<bar>)) = Some (nat \<bar>i\<bar>)" using assms by (intro ParseUint_itoa) auto
  show ?thesis
  proof (cases "i < 0")
    case True
    then have "nat \<bar>i\<bar> \<le> 2 ^ 63" using assms by simp
    with True u show ?thesis by (simp add: ParseInt_def Itoa_def)
  next
    case False
    then have "nat \<bar>i\<bar> < 2 ^ 63" using assms by (simp add: nat_less_iff)
    moreover obtain c cs where c: "itoa (nat \<bar>i\<bar>) = c # cs" using itoa_not_Nil by (cases "itoa (nat \<bar>i\<bar>)") auto
    ultimately show ?thesis using False u signless [OF c] by (simp add: ParseInt_def Itoa_def)
  qed
qed

lemma leadingInt_digits:
  "list_all is_digit ds \<Longrightarrow> int x = digits_val acc \<Longrightarrow> digits_val (acc @ ds) \<le> 2 ^ 63 \<Longrightarrow> unit_char c \<Longrightarrow>
   leadingInt x (ds @ c # cs) = Some (nat (digits_val (acc @ ds)), c # cs)"
proof (induction ds arbitrary: x acc)
  case (Cons d ds)
  have d: "is_digit d" "list_all is_digit ds" using Cons.prems(1) by simp_all
  note step = digit_step [OF d(1) Cons.prems(2)]
  have "digits_val (acc @ [d]) \<le> digits_val ((acc @ [d]) @ ds)" by (rule digits_val_append_le [OF d(2)]) (use step in linarith)
  then have "int (10 * x + (of_char d - 48)) \<le> 2 ^ 63" using step Cons.prems(3) by simp
  then have "10 * x + (of_char d - 48) \<le> 2 ^ 63" by (simp only: of_nat_le_numeral_power_cancel_iff)
  moreover from this have "\<not> x > 2 ^ 63 div 10" by simp
  ultimately show ?case using Cons.IH [OF d(2) step] Cons.prems(3,4) d(1) by simp
qed (auto simp: unit_char_def)

lemma durationFrom_ns:
  assumes "n \<le> 2 ^ 63"
  shows "durationFrom mul 0 (itoa n @ ''ns'') = Some n"
proof -
  have u: "unit_char (CHR ''n'')" "unit_char (CHR ''s'')" by code_simp+
  have "digits_val ([] @ itoa n) \<le> 2 ^ 63" using assms digits_val_itoa [of n] by simp
  from leadingInt_digits [OF itoa_digits _ this u(1), of 0 "''s''"]
  have l: "leadingInt 0 (itoa n @ ''ns'') = Some (n, ''ns'')" using digits_val_itoa [of n] by (simp add: digits_val_def)
  have "unitNanos ''ns'' = Some 1" by (simp add: unitNanos_def)
  moreover have "itoa n @ ''ns'' \<noteq> []" "\<not> unit_char (hd (itoa n @ ''ns''))"
    using itoa_not_Nil [of n] itoa_digits [of n] digit_value by (auto simp: list_all_iff neq_Nil_conv)
  ultimately have "nextDuration mul (itoa n @ ''ns'') = Some (n, [])"
    using l u assms itoa_not_Nil [of n] by (simp add: nextDuration_def Let_def)
  then show ?thesis using assms itoa_not_Nil [of n] by (simp add: durationFrom.simps [of mul 0] durationFrom.simps [of mul n "[]"] Let_def)
qed

lemma ParseDuration_ns:
  assumes "- (2 ^ 63) \<le> i" "i < 2 ^ 63"
  shows "ParseDuration mul (Itoa i @ ''ns'') = Some i"
proof -
  have u: "durationFrom mul 0 (itoa (nat \<bar>i\<bar>) @ ''ns'') = Some (nat \<bar>i\<bar>)" using assms by (intro durationFrom_ns) auto
  have n: "itoa (nat \<bar>i\<bar>) @ ''ns'' \<noteq> ''0''" using itoa_not_Nil [of "nat \<bar>i\<bar>"] by (cases "itoa (nat \<bar>i\<bar>)") auto
  show ?thesis
  proof (cases "i < 0")
    case False
    then have "nat \<bar>i\<bar> < 2 ^ 63" using assms by (simp add: nat_less_iff)
    moreover obtain c cs where c: "itoa (nat \<bar>i\<bar>) = c # cs" using itoa_not_Nil by (cases "itoa (nat \<bar>i\<bar>)") auto
    ultimately show ?thesis using False u signless [OF c] n by (simp add: ParseDuration_def Itoa_def)
  qed (use u n in \<open>simp add: ParseDuration_def Itoa_def\<close>)
qed

section \<open>Arguments that are read back\<close>

text \<open>Flags written with an equals sign: each sets its field, whatever its value looks like.\<close>

definition plainName :: "string \<Rightarrow> bool" where
  "plainName name = (name \<noteq> [] \<and> hd name \<noteq> CHR ''-'' \<and> CHR ''='' \<notin> set name)"

definition flagArg :: "string \<Rightarrow> string \<Rightarrow> string" where
  "flagArg name value = ''-'' @ name @ ''='' @ value"

lemma before_equals:
  "CHR ''='' \<notin> set name \<Longrightarrow> dropWhile (\<lambda>c. c \<noteq> CHR ''='') (name @ CHR ''='' # value) = CHR ''='' # value"
  "CHR ''='' \<notin> set name \<Longrightarrow> takeWhile (\<lambda>c. c \<noteq> CHR ''='') (name @ CHR ''='' # value) = name"
  by (induction name) auto

lemma flagArgument_flagArg: "plainName name \<Longrightarrow> flagArgument (flagArg name v) = Flag name (Some v)"
  using before_equals [of name v] by (cases name) (auto simp: plainName_def flagArg_def flagArgument_def Let_def)

lemma Parse_flagArg:
  assumes "plainName name" "map_of fs name \<noteq> None" "snd (the (map_of fs name)) v f = Some f'"
  shows "Parse fs (flagArg name v # args) f = Parse fs args f'"
proof -
  obtain b put where "map_of fs name = Some (b, put)" using assms(2) by (cases "map_of fs name") auto
  with assms show ?thesis by (cases b) (simp_all add: flagArgument_flagArg)
qed

lemma Parse_operands: "(case args of [] \<Rightarrow> True | a # as \<Rightarrow> flagArgument a = Operand) \<Longrightarrow> Parse fs args f = Parsed f args"
  by (cases args) simp_all

end
