(* ===== verification/CommandLine.thy ===== *)
theory CommandLine
  imports Sandboxd ManagerSafety AgentProcess GoFlag
begin

text \<open>
  The two command lines from their arguments on: the flag sets of every command of \<open>cmd/sandboxd/main.go\<close> with \<open>main\<close> itself, and the
  flags of \<open>cmd/agent/main.go\<close>.  The theory shows what the process does with VMs whatever its arguments are, and that flags reach the run they
  were written for.  While \<open>serve\<close> serves, the daemon answers requests; that is theory \<open>Daemon\<close>.
\<close>

section \<open>Flag sets\<close>

definition jailerFlags :: "CliFlags flag_set" where
  "jailerFlags =
     [(''jailer-bin'', StringVar (\<lambda>v. fl_Jailer_update (\<lambda>_. v))),
      (''jailer-chroot-base-dir'', StringVar (\<lambda>v. fl_JailerChroot_update (\<lambda>_. v))),
      (''jailer-uid'', IntVar (\<lambda>v. fl_JailerUID_update (\<lambda>_. v))),
      (''jailer-gid'', IntVar (\<lambda>v. fl_JailerGID_update (\<lambda>_. v))),
      (''jailer-cgroup-version'', StringVar (\<lambda>v. fl_CgroupVersion_update (\<lambda>_. v))),
      (''jailer-cgroup'', StringVar (\<lambda>v. fl_Cgroups_update (\<lambda>l. repeated_Set l v)))]"

definition hostFlags :: "CliFlags flag_set" where
  "hostFlags =
     [(''store-dir'', StringVar (\<lambda>v. fl_StoreDir_update (\<lambda>_. v))),
      (''kernel'', StringVar (\<lambda>v. fl_Kernel_update (\<lambda>_. v))),
      (''boot-image'', StringVar (\<lambda>v. fl_BootImage_update (\<lambda>_. v))),
      (''firecracker-bin'', StringVar (\<lambda>v. fl_Firecracker_update (\<lambda>_. v)))] @ jailerFlags"

definition machineFlags :: "frac_mul \<Rightarrow> CliFlags flag_set" where
  "machineFlags mul =
     [(''vcpu'', IntVar (\<lambda>v. fl_VCPU_update (\<lambda>_. v))),
      (''mem-mib'', IntVar (\<lambda>v. fl_MemMiB_update (\<lambda>_. v))),
      (''timeout'', DurationVar mul (\<lambda>v. fl_Timeout_update (\<lambda>_. v))),
      (''snapshot-dir'', StringVar (\<lambda>v. fl_SnapshotDir_update (\<lambda>_. v)))]"

definition platformFlags :: "CliFlags flag_set" where
  "platformFlags = [(''os'', StringVar (\<lambda>v. fl_OS_update (\<lambda>_. v))), (''arch'', StringVar (\<lambda>v. fl_Arch_update (\<lambda>_. v)))]"

definition runFlags :: "frac_mul \<Rightarrow> CliFlags flag_set" where
  "runFlags mul = hostFlags @ platformFlags @ machineFlags mul @
     [(''uid'', IntVar (\<lambda>v. fl_UID_update (\<lambda>_. v))),
      (''gid'', IntVar (\<lambda>v. fl_GID_update (\<lambda>_. v))),
      (''workdir'', StringVar (\<lambda>v. fl_Workdir_update (\<lambda>_. v)))]"

definition defaultRunFlags :: CliFlags where
  "defaultRunFlags =
     \<lparr>fl_StoreDir = DefaultStoreDir, fl_Kernel = DefaultKernelPath, fl_BootImage = DefaultBootImagePath, fl_Firecracker = ''firecracker'',
      fl_Jailer = '''', fl_JailerChroot = '''', fl_JailerUID = 0, fl_JailerGID = 0, fl_CgroupVersion = ''2'', fl_Cgroups = [],
      fl_OS = DefaultPlatformOS, fl_Arch = DefaultArchitecture, fl_VCPU = 1, fl_MemMiB = 256, fl_UID = 0, fl_GID = 0,
      fl_Workdir = ''/workspace'', fl_Timeout = 60 * second, fl_SnapshotDir = '''', fl_Args = []\<rparr>"

text \<open>The other commands read only the fields of their own flags.\<close>

definition createSnapshotFlags :: "frac_mul \<Rightarrow> CliFlags flag_set" where
  "createSnapshotFlags mul = hostFlags @ machineFlags mul"

definition defaultCreateSnapshotFlags :: CliFlags where
  "defaultCreateSnapshotFlags = defaultRunFlags\<lparr>fl_SnapshotDir := Join [''tmp'', ''snapshots'']\<rparr>"

definition prepareImageFlags :: "frac_mul \<Rightarrow> CliFlags flag_set" where
  "prepareImageFlags mul =
     [(''store-dir'', StringVar (\<lambda>v. fl_StoreDir_update (\<lambda>_. v)))] @ platformFlags @
     [(''timeout'', DurationVar mul (\<lambda>v. fl_Timeout_update (\<lambda>_. v)))]"

definition defaultPrepareImageFlags :: CliFlags where
  "defaultPrepareImageFlags = defaultRunFlags\<lparr>fl_Timeout := 600 * second\<rparr>"

record PathFlags =
  pf_Read :: string
  pf_Ls :: string
  pf_Output :: string
  pf_Config :: string
  pf_StoreDir :: string
  pf_Image :: string
  pf_Timeout :: int

definition zeroPathFlags :: PathFlags where
  "zeroPathFlags = \<lparr>pf_Read = '''', pf_Ls = '''', pf_Output = '''', pf_Config = '''', pf_StoreDir = '''', pf_Image = '''', pf_Timeout = 0\<rparr>"

definition inspectFlags :: "PathFlags flag_set" where
  "inspectFlags = [(''read'', StringVar (\<lambda>v. pf_Read_update (\<lambda>_. v))), (''ls'', StringVar (\<lambda>v. pf_Ls_update (\<lambda>_. v)))]"

definition openapiFlags :: "PathFlags flag_set" where
  "openapiFlags = [(''output'', StringVar (\<lambda>v. pf_Output_update (\<lambda>_. v))), (''config'', StringVar (\<lambda>v. pf_Config_update (\<lambda>_. v)))]"

definition defaultOpenapiFlags :: PathFlags where
  "defaultOpenapiFlags = zeroPathFlags\<lparr>pf_Output := ''openapi.json''\<rparr>"

definition serveFlags :: "PathFlags flag_set" where
  "serveFlags = [(''config'', StringVar (\<lambda>v. pf_Config_update (\<lambda>_. v)))]"

definition defaultServeFlags :: PathFlags where
  "defaultServeFlags = zeroPathFlags\<lparr>pf_Config := ''sandboxd.json''\<rparr>"

definition demoFlags :: "frac_mul \<Rightarrow> PathFlags flag_set" where
  "demoFlags mul =
     [(''store-dir'', StringVar (\<lambda>v. pf_StoreDir_update (\<lambda>_. v))), (''image'', StringVar (\<lambda>v. pf_Image_update (\<lambda>_. v))),
      (''timeout'', DurationVar mul (\<lambda>v. pf_Timeout_update (\<lambda>_. v)))]"

definition defaultDemoFlags :: PathFlags where
  "defaultDemoFlags = zeroPathFlags\<lparr>pf_StoreDir := Join [''tmp'', ''sandbox-runtime-demo''],
     pf_Image := ''docker.io/library/alpine:latest'', pf_Timeout := 600 * second\<rparr>"

definition bootImageFlags :: "BootImageFlags flag_set" where
  "bootImageFlags =
     [(''init'', StringVar (\<lambda>v. bf_Init_update (\<lambda>_. v))), (''agent'', StringVar (\<lambda>v. bf_Agent_update (\<lambda>_. v))),
      (''output'', StringVar (\<lambda>v. bf_Output_update (\<lambda>_. v))), (''size-bytes'', IntVar (\<lambda>v. bf_Size_update (\<lambda>_. v)))]"

definition defaultBootImageFlags :: BootImageFlags where
  "defaultBootImageFlags = \<lparr>bf_Init = '''', bf_Agent = '''', bf_Output = '''', bf_Size = 256 * 2 ^ 20\<rparr>"

definition agentFlags :: "agent_flags flag_set" where
  "agentFlags =
     [(''workspace'', StringVar (\<lambda>v. af_Workspace_update (\<lambda>_. v))), (''vsock-port'', UintVar (\<lambda>v. af_Port_update (\<lambda>_. v))),
      (''max-body-bytes'', IntVar (\<lambda>v. af_MaxBody_update (\<lambda>_. v))), (''max-file-bytes'', IntVar (\<lambda>v. af_MaxFile_update (\<lambda>_. v))),
      (''max-output-bytes'', IntVar (\<lambda>v. af_MaxOutput_update (\<lambda>_. v))), (''shutdown-after-jobs'', BoolVar (\<lambda>v. af_Shutdown_update (\<lambda>_. v)))]"

section \<open>The commands\<close>

text \<open>What the process finds outside of it.\<close>

record ('ref, 'fs) sandboxd_env =
  se_manager :: "'ref manager_env"
  se_snap :: "'ref manager_env"
  se_mul :: frac_mul
  se_reader :: "'fs ext4_reader"
  se_ext4 :: "'fs ext4"
  se_mkfs :: "string \<Rightarrow> int \<Rightarrow> os \<Rightarrow> 'fs xres \<times> os"
  se_sync :: "string \<Rightarrow> 'fs \<Rightarrow> os \<Rightarrow> os"
  se_demo :: demo_env
  se_merge :: "string \<Rightarrow> ServerConfig \<Rightarrow> ServerConfig option"
  se_document :: "ApiServer \<Rightarrow> nat \<times> string"
  se_ends :: "ApiServer \<Rightarrow> serve_end"
  se_arch :: string

type_synonym ('ref, 'fs) cli = "('ref, 'fs) sandboxd_env \<Rightarrow> string list \<Rightarrow> host \<Rightarrow> (int \<times> host) option"

text \<open>The status after a result: 1 after \<open>fatal\<close>.\<close>

definition finish :: "('e + 'a \<Rightarrow> int) \<Rightarrow> ('e, 'a) hio \<Rightarrow> host \<Rightarrow> (int \<times> host) option" where
  "finish st m h = map_option (\<lambda>(r, h'). (st r, h')) (m h)"

definition fatalStatus :: "'e + 'a \<Rightarrow> int" where
  "fatalStatus r = (case r of Inl e \<Rightarrow> 1 | Inr a \<Rightarrow> 0)"

definition onFiles :: "(os \<Rightarrow> int \<times> os) \<Rightarrow> host \<Rightarrow> (int \<times> host) option" where
  "onFiles m h = (case m (h_os h) of (st, s) \<Rightarrow> Some (st, h\<lparr>h_os := s\<rparr>))"

definition runCommand :: "('ref, 'fs) cli" where
  "runCommand E = withFlags (runFlags (se_mul E)) defaultRunFlags
     (\<lambda>f args. finish status (runVM (se_manager E) (se_snap E) (f\<lparr>fl_Args := args\<rparr>)))"

definition createSnapshotCommand :: "('ref, 'fs) cli" where
  "createSnapshotCommand E = withFlags (createSnapshotFlags (se_mul E)) defaultCreateSnapshotFlags
     (\<lambda>f args. finish fatalStatus (cliCreateSnapshot (se_manager E) (f\<lparr>fl_Args := args\<rparr>)))"

definition prepareImageCommand :: "('ref, 'fs) cli" where
  "prepareImageCommand E = withFlags (prepareImageFlags (se_mul E)) defaultPrepareImageFlags
     (\<lambda>f args. finish fatalStatus (cliPrepareImage (se_manager E) (f\<lparr>fl_Args := args\<rparr>)))"

definition inspectCommand :: "('ref, 'fs) cli" where
  "inspectCommand E = withFlags inspectFlags zeroPathFlags
     (\<lambda>f args. finish fatalStatus (hos id (inspectRootfs (se_reader E) (pf_Read f) (pf_Ls f) args)))"

definition openapiCommand :: "('ref, 'fs) cli" where
  "openapiCommand E = withFlags openapiFlags defaultOpenapiFlags
     (\<lambda>f args. finish fatalStatus (hos id (dumpOpenAPI (se_merge E) (se_document E) (se_arch E) (pf_Output f) (pf_Config f) args)))"

definition serveCommand :: "('ref, 'fs) cli" where
  "serveCommand E = withFlags serveFlags defaultServeFlags
     (\<lambda>f args. onFiles (\<lambda>s. case Sandboxd.serve (se_merge E) (se_ends E) (se_arch E) (pf_Config f) s of ((st, srv), s') \<Rightarrow> (st, s')))"

definition bootImageCommand :: "('ref, 'fs) cli" where
  "bootImageCommand E = withFlags bootImageFlags defaultBootImageFlags
     (\<lambda>f args. onFiles (buildBootImage (se_ext4 E) (se_mkfs E) (se_sync E) f))"

definition demoCommand :: "('ref, 'fs) cli" where
  "demoCommand E = withFlags (demoFlags (se_mul E)) defaultDemoFlags
     (\<lambda>f args. finish fatalStatus (demoLocal (se_reader E) (me_runtime (se_manager E)) (se_demo E) (pf_StoreDir f) (pf_Image f)))"

text \<open>\<open>main\<close>: the status that the process exits with.\<close>

definition sandboxd_main :: "('ref, 'fs) cli" where
  "sandboxd_main E args h =
     (case dispatch args of
        None \<Rightarrow> Some (2, h)
      | Some (c, rest) \<Rightarrow>
          (case c of
             CmdPrepareImage \<Rightarrow> prepareImageCommand E rest h
           | CmdInspectRootfs \<Rightarrow> inspectCommand E rest h
           | CmdDemoLocal \<Rightarrow> demoCommand E rest h
           | CmdRun \<Rightarrow> runCommand E rest h
           | CmdCreateSnapshot \<Rightarrow> createSnapshotCommand E rest h
           | CmdBuildBootImage \<Rightarrow> bootImageCommand E rest h
           | CmdOpenAPI \<Rightarrow> openapiCommand E rest h
           | CmdServe \<Rightarrow> serveCommand E rest h))"

text \<open>\<open>main\<close> of the agent: it starts to serve, or exits.\<close>

definition agent_main :: "(uint32 \<Rightarrow> bool) \<Rightarrow> string list \<Rightarrow> os \<Rightarrow> nat + agent_proc" where
  "agent_main listens args s =
     (case Parse agentFlags args defaultAgentFlags of HelpAsked \<Rightarrow> Inl 0 | BadFlags \<Rightarrow> Inl 2 | Parsed f rest \<Rightarrow> Inr (agent_start listens f s))"

section \<open>VMs\<close>

lemma adds_both:
  assumes "adds A m" "adds B m"
  shows "adds (\<lambda>es. A es \<and> B es) m"
proof (rule addsI)
  fix h r h' assume m: "m h = Some (r, h')"
  then obtain es fs where "h_log h' = h_log h @ es" "A es" "h_log h' = h_log h @ fs" "B fs" using assms unfolding adds_def by blast
  then show "\<exists>es. h_log h' = h_log h @ es \<and> A es \<and> B es" by auto
qed

text \<open>What the flags promise of the events: balanced, under the jailer, and with the machine they ask for.\<close>

definition asked :: "CliFlags \<Rightarrow> JailerConfig option \<Rightarrow> vm_event list \<Rightarrow> bool" where
  "asked f jo es = (running es = 0 \<and> list_all (jailed jo) es \<and>
     list_all (run_event (StoreDir (manager_New (flagConfig f))) \<lparr>VCPUCount = fl_VCPU f, MemSizeMiB = fl_MemMiB f\<rparr> []) es)"

lemma flagJailer_used: "flagJailer PATH f s = (Inr jo, s') \<Longrightarrow> (jo = None) = (fl_Jailer f = '''')"
  unfolding flagJailer_def jailerConfig_def andThen_def ret_def
  by (auto split: if_splits prod.splits sum.splits)

lemma asked_nothing: "h_log h' = h_log h \<Longrightarrow> \<exists>es jo. h_log h' = h_log h @ es \<and> (jo = None) = (fl_Jailer f = '''') \<and> asked f jo es"
  by (intro exI [of _ "[]"] exI [of _ "if fl_Jailer f = '''' then None else Some undefined"]) (simp add: asked_def)

lemma flagJailer_then:
  assumes b: "vbind (hos id (flagJailer PATH f)) k h = Some (r, h')" and k: "\<And>jo. adds (asked f jo) (k jo)"
  shows "\<exists>es jo. h_log h' = h_log h @ es \<and> (jo = None) = (fl_Jailer f = '''') \<and> asked f jo es"
proof (cases "flagJailer PATH f (h_os h)")
  case (Pair res s)
  show ?thesis
  proof (cases res)
    case (Inl e)
    then have "h_log h' = h_log h" using b Pair by (auto simp: vbind_def hos_def)
    then show ?thesis by (rule asked_nothing)
  next
    case (Inr jo)
    then have "k jo (h\<lparr>h_os := s\<rparr>) = Some (r, h')" using b Pair by (simp add: vbind_def hos_def)
    then show ?thesis using k [of jo] flagJailer_used [of PATH f "h_os h" jo s] Pair Inr unfolding adds_def by fastforce
  qed
qed

lemma runVM_asked:
  assumes "runVM env env' f h = Some (r, h')"
  shows "\<exists>es jo. h_log h' = h_log h @ es \<and> (jo = None) = (fl_Jailer f = '''') \<and> asked f jo es"
proof (cases "fl_Args f")
  case Nil
  then show ?thesis using assms by (intro asked_nothing) (simp add: runVM_def vthrow_def)
next
  case (Cons ref rest)
  have "adds (asked f jo) (vlift CliManager (Run env env' (manager_New (flagConfig f)) (cliRunRequest f jo ref argv)))" for jo argv
    unfolding asked_def
    using Run_balanced [of env env' "manager_New (flagConfig f)" "cliRunRequest f jo ref argv"]
      Run_jailed [of "cliRunRequest f jo ref argv" env env' "manager_New (flagConfig f)"]
      Run_events [of "flagConfig f" "cliRunRequest f jo ref argv" env env']
    by (intro adds_both idle.adds_vlift each.adds_vlift) (simp_all add: cliRunRequest_def)
  then show ?thesis using assms unfolding runVM_def Let_def Cons list.case by (rule flagJailer_then [rotated])
qed

lemma cliCreateSnapshot_asked:
  assumes "cliCreateSnapshot env f h = Some (r, h')"
  shows "\<exists>es jo. h_log h' = h_log h @ es \<and> (jo = None) = (fl_Jailer f = '''') \<and> asked f jo es"
proof (cases "\<exists>ref. fl_Args f = [ref]")
  case False
  then show ?thesis using assms by (intro asked_nothing) (auto simp: cliCreateSnapshot_def vthrow_def split: list.splits)
next
  case True
  then obtain ref where ref: "fl_Args f = [ref]" by blast
  have "adds (asked f (cs_Jailer q)) (vlift CliManager (managerCreateSnapshot env (manager_New (flagConfig f)) q))"
    if "cs_MachineConfig q = \<lparr>VCPUCount = fl_VCPU f, MemSizeMiB = fl_MemMiB f\<rparr>" for q
    unfolding asked_def using that
    by (intro adds_both idle.adds_vlift each.adds_vlift managerCreateSnapshot_balanced snapshot_jailed snapshot_events) auto
  from this [of "\<lparr>cs_ImageRef = ref, cs_Platform = \<lparr>OS = DefaultPlatformOS, Architecture = DefaultArchitecture\<rparr>,
      cs_KernelPath = fl_Kernel f, cs_BootImagePath = fl_BootImage f, cs_FirecrackerPath = fl_Firecracker f, cs_Jailer = jo,
      cs_MachineConfig = \<lparr>VCPUCount = fl_VCPU f, MemSizeMiB = fl_MemMiB f\<rparr>, cs_Timeout = fl_Timeout f, cs_SnapshotDir = fl_SnapshotDir f,
      cs_Snapshot = \<lparr>sa_MemPath = '''', sa_SnapshotPath = '''', sa_WorkspaceDir = ''''\<rparr>\<rparr>" for jo]
  show ?thesis using assms unfolding cliCreateSnapshot_def Let_def ref list.case by (intro flagJailer_then) auto
qed

text \<open>The other commands do nothing with VMs.\<close>

interpretation silent: log_kind "\<lambda>es. es = []"
  by unfold_locales auto

lemma quiet: "adds (\<lambda>es. es = []) m \<Longrightarrow> finish st m h = Some (x, h') \<Longrightarrow> h_log h' = h_log h"
  by (auto simp: adds_def finish_def)

lemma cliPrepareImage_silent: "adds (\<lambda>es. es = []) (cliPrepareImage env f)"
  unfolding cliPrepareImage_def by (auto intro!: silent.adds_vlift silent.adds_prepare silent.adds_vthrow split: list.split)

lemma demoLocal_silent: "adds (\<lambda>es. es = []) (demoLocal lib env dm dir ref)"
  unfolding demoLocal_def Let_def
  by (intro silent.adds_vbind silent.adds_blocking silent.adds_hos) (auto intro!: silent.adds_vret silent.adds_vthrow split: list.split)

lemma onFiles_quiet: "onFiles m h = Some (x, h') \<Longrightarrow> h_log h' = h_log h"
  by (auto simp: onFiles_def split: prod.splits)

section \<open>Statuses\<close>

definition in_byte :: "int \<Rightarrow> bool" where
  "in_byte st = (0 \<le> st \<and> st \<le> 255)"

lemma exitCodeFromResults_byte: "in_byte (exitCodeFromResults rs)"
  by (induction rs) (auto simp: in_byte_def)

lemma status_byte: "in_byte (fatalStatus r)" "in_byte (status q)"
  using exitCodeFromResults_byte by (auto simp: fatalStatus_def status_def in_byte_def split: sum.split)

lemma finish_byte: "finish fatalStatus m h = Some (st, h') \<Longrightarrow> in_byte st" "finish status k h = Some (st, h') \<Longrightarrow> in_byte st"
  by (auto simp: finish_def status_byte)

lemma onFiles_byte:
  "onFiles (buildBootImage x mkfs sync f) h = Some (st, h') \<Longrightarrow> in_byte st"
  "onFiles (\<lambda>s. case Sandboxd.serve merge ends arch p s of ((st, srv), s') \<Rightarrow> (st, s')) h = Some (st, h') \<Longrightarrow> in_byte st"
  by (auto simp: onFiles_def buildBootImage_def exitStatus_def Sandboxd.serve_def in_byte_def
      split: prod.splits sum.splits xres.splits dres.splits serve_end.splits if_splits)

lemma withFlags_cases:
  assumes "withFlags fs def body args h = Some (st, h')"
  obtains (exit) "st = 0 \<or> st = 2" "h' = h" "\<And>f rest. Parse fs args def \<noteq> Parsed f rest"
    | (body) f rest where "Parse fs args def = Parsed f rest" "body f rest h = Some (st, h')"
  using assms by (auto simp: withFlags_def split: parsed.splits)

text \<open>The flags of a command line that runs VMs.\<close>

definition vmFlags :: "('ref, 'fs) sandboxd_env \<Rightarrow> string list \<Rightarrow> CliFlags option" where
  "vmFlags E args =
     (case dispatch args of
        Some (CmdRun, rest) \<Rightarrow>
          (case Parse (runFlags (se_mul E)) rest defaultRunFlags of Parsed f ops \<Rightarrow> Some (f\<lparr>fl_Args := ops\<rparr>) | _ \<Rightarrow> None)
      | Some (CmdCreateSnapshot, rest) \<Rightarrow>
          (case Parse (createSnapshotFlags (se_mul E)) rest defaultCreateSnapshotFlags of Parsed f ops \<Rightarrow> Some (f\<lparr>fl_Args := ops\<rparr>) | _ \<Rightarrow> None)
      | _ \<Rightarrow> None)"

definition command_ok :: "CliFlags option \<Rightarrow> host \<Rightarrow> int \<times> host \<Rightarrow> bool" where
  "command_ok fo h x =
     (in_byte (fst x) \<and>
      (case fo of
         None \<Rightarrow> h_log (snd x) = h_log h
       | Some f \<Rightarrow> \<exists>es jo. h_log (snd x) = h_log h @ es \<and> (jo = None) = (fl_Jailer f = '''') \<and> asked f jo es))"

lemma quiet_ok:
  assumes "withFlags fs def body args h = Some x"
    and "\<And>f rest st h'. body f rest h = Some (st, h') \<Longrightarrow> in_byte st \<and> h_log h' = h_log h"
  shows "command_ok None h x"
proof -
  obtain st h' where x: "x = (st, h')" by (cases x)
  from assms(1) [unfolded x] show ?thesis
    by (cases rule: withFlags_cases) (use assms(2) in \<open>auto simp: command_ok_def x in_byte_def\<close>)
qed

lemma vm_ok:
  assumes "withFlags fs def (\<lambda>f args. finish st (m (f\<lparr>fl_Args := args\<rparr>))) args h = Some x"
    and "\<And>r. in_byte (st r)"
    and "\<And>f r h'. m f h = Some (r, h') \<Longrightarrow> \<exists>es jo. h_log h' = h_log h @ es \<and> (jo = None) = (fl_Jailer f = '''') \<and> asked f jo es"
  shows "command_ok (case Parse fs args def of Parsed f ops \<Rightarrow> Some (f\<lparr>fl_Args := ops\<rparr>) | _ \<Rightarrow> None) h x"
proof -
  obtain y h' where x: "x = (y, h')" by (cases x)
  from assms(1) [unfolded x] show ?thesis
  proof (cases rule: withFlags_cases)
    case exit
    then show ?thesis by (auto simp: command_ok_def x in_byte_def split: parsed.split)
  next
    case (body f rest)
    then obtain r where r: "m (f\<lparr>fl_Args := rest\<rparr>) h = Some (r, h')" "y = st r" by (auto simp: finish_def)
    from assms(3) [OF r(1)] show ?thesis using assms(2) body(1) r(2) by (simp add: command_ok_def x)
  qed
qed

lemma sandboxd_main_ok: "sandboxd_main E args h = Some x \<Longrightarrow> command_ok (vmFlags E args) h x"
proof (cases "dispatch args")
  case None
  moreover assume "sandboxd_main E args h = Some x"
  ultimately show ?thesis by (auto simp: sandboxd_main_def vmFlags_def command_ok_def in_byte_def)
next
  case (Some cr)
  assume main: "sandboxd_main E args h = Some x"
  obtain c rest where c: "dispatch args = Some (c, rest)" using Some by (cases cr) auto
  show ?thesis
  proof (cases c)
    case CmdRun
    then have "runCommand E rest h = Some x" using main c by (simp add: sandboxd_main_def)
    from vm_ok [OF this [unfolded runCommand_def] status_byte(2) runVM_asked] show ?thesis using c CmdRun by (simp add: vmFlags_def)
  next
    case CmdCreateSnapshot
    then have "createSnapshotCommand E rest h = Some x" using main c by (simp add: sandboxd_main_def)
    from vm_ok [OF this [unfolded createSnapshotCommand_def] status_byte(1) cliCreateSnapshot_asked] show ?thesis
      using c CmdCreateSnapshot by (simp add: vmFlags_def)
  qed (use main c in \<open>auto simp: sandboxd_main_def vmFlags_def prepareImageCommand_def inspectCommand_def demoCommand_def bootImageCommand_def
      openapiCommand_def serveCommand_def finish_byte onFiles_byte
      elim!: quiet_ok dest: quiet [OF cliPrepareImage_silent] quiet [OF demoLocal_silent] quiet [OF silent.adds_hos] onFiles_quiet\<close>)
qed


section \<open>Arguments\<close>

text \<open>
  The arguments that give \<open>run\<close> the flags \<open>f\<close> and its operands; durations are written in nanoseconds.
\<close>

definition runArgs :: "CliFlags \<Rightarrow> string list" where
  "runArgs f =
     [flagArg ''store-dir'' (fl_StoreDir f), flagArg ''kernel'' (fl_Kernel f), flagArg ''boot-image'' (fl_BootImage f),
      flagArg ''firecracker-bin'' (fl_Firecracker f), flagArg ''jailer-bin'' (fl_Jailer f), flagArg ''jailer-chroot-base-dir'' (fl_JailerChroot f),
      flagArg ''jailer-uid'' (Itoa (fl_JailerUID f)), flagArg ''jailer-gid'' (Itoa (fl_JailerGID f)),
      flagArg ''jailer-cgroup-version'' (fl_CgroupVersion f)] @ map (flagArg ''jailer-cgroup'') (fl_Cgroups f) @
     [flagArg ''os'' (fl_OS f), flagArg ''arch'' (fl_Arch f), flagArg ''vcpu'' (Itoa (fl_VCPU f)), flagArg ''mem-mib'' (Itoa (fl_MemMiB f)),
      flagArg ''uid'' (Itoa (fl_UID f)), flagArg ''gid'' (Itoa (fl_GID f)), flagArg ''workdir'' (fl_Workdir f),
      flagArg ''timeout'' (Itoa (fl_Timeout f) @ ''ns''), flagArg ''snapshot-dir'' (fl_SnapshotDir f)] @ fl_Args f"

text \<open>Integers of 64 bits, and a first operand that is not taken for a flag.\<close>

definition int64_flag :: "int \<Rightarrow> bool" where
  "int64_flag i = (- (2 ^ 63) \<le> i \<and> i < 2 ^ 63)"

definition wf_flags :: "CliFlags \<Rightarrow> bool" where
  "wf_flags f = (list_all int64_flag [fl_JailerUID f, fl_JailerGID f, fl_VCPU f, fl_MemMiB f, fl_UID f, fl_GID f, fl_Timeout f] \<and>
     (case fl_Args f of [] \<Rightarrow> True | a # as \<Rightarrow> flagArgument a = Operand))"

lemma flag_values:
  "int64_flag i \<Longrightarrow> ParseInt (Itoa i) = Some i" "int64_flag i \<Longrightarrow> ParseDuration mul (Itoa i @ ''ns'') = Some i"
  by (simp_all add: int64_flag_def ParseInt_Itoa ParseDuration_ns)

lemma Parse_run:
  "Parse (runFlags mul) (flagArg ''store-dir'' v # as) f = Parse (runFlags mul) as (f\<lparr>fl_StoreDir := v\<rparr>)"
  "Parse (runFlags mul) (flagArg ''kernel'' v # as) f = Parse (runFlags mul) as (f\<lparr>fl_Kernel := v\<rparr>)"
  "Parse (runFlags mul) (flagArg ''boot-image'' v # as) f = Parse (runFlags mul) as (f\<lparr>fl_BootImage := v\<rparr>)"
  "Parse (runFlags mul) (flagArg ''firecracker-bin'' v # as) f = Parse (runFlags mul) as (f\<lparr>fl_Firecracker := v\<rparr>)"
  "Parse (runFlags mul) (flagArg ''jailer-bin'' v # as) f = Parse (runFlags mul) as (f\<lparr>fl_Jailer := v\<rparr>)"
  "Parse (runFlags mul) (flagArg ''jailer-chroot-base-dir'' v # as) f = Parse (runFlags mul) as (f\<lparr>fl_JailerChroot := v\<rparr>)"
  "int64_flag i \<Longrightarrow> Parse (runFlags mul) (flagArg ''jailer-uid'' (Itoa i) # as) f = Parse (runFlags mul) as (f\<lparr>fl_JailerUID := i\<rparr>)"
  "int64_flag i \<Longrightarrow> Parse (runFlags mul) (flagArg ''jailer-gid'' (Itoa i) # as) f = Parse (runFlags mul) as (f\<lparr>fl_JailerGID := i\<rparr>)"
  "Parse (runFlags mul) (flagArg ''jailer-cgroup-version'' v # as) f = Parse (runFlags mul) as (f\<lparr>fl_CgroupVersion := v\<rparr>)"
  "Parse (runFlags mul) (flagArg ''jailer-cgroup'' v # as) f = Parse (runFlags mul) as (f\<lparr>fl_Cgroups := fl_Cgroups f @ [v]\<rparr>)"
  "Parse (runFlags mul) (flagArg ''os'' v # as) f = Parse (runFlags mul) as (f\<lparr>fl_OS := v\<rparr>)"
  "Parse (runFlags mul) (flagArg ''arch'' v # as) f = Parse (runFlags mul) as (f\<lparr>fl_Arch := v\<rparr>)"
  "int64_flag i \<Longrightarrow> Parse (runFlags mul) (flagArg ''vcpu'' (Itoa i) # as) f = Parse (runFlags mul) as (f\<lparr>fl_VCPU := i\<rparr>)"
  "int64_flag i \<Longrightarrow> Parse (runFlags mul) (flagArg ''mem-mib'' (Itoa i) # as) f = Parse (runFlags mul) as (f\<lparr>fl_MemMiB := i\<rparr>)"
  "int64_flag i \<Longrightarrow> Parse (runFlags mul) (flagArg ''uid'' (Itoa i) # as) f = Parse (runFlags mul) as (f\<lparr>fl_UID := i\<rparr>)"
  "int64_flag i \<Longrightarrow> Parse (runFlags mul) (flagArg ''gid'' (Itoa i) # as) f = Parse (runFlags mul) as (f\<lparr>fl_GID := i\<rparr>)"
  "Parse (runFlags mul) (flagArg ''workdir'' v # as) f = Parse (runFlags mul) as (f\<lparr>fl_Workdir := v\<rparr>)"
  "int64_flag i \<Longrightarrow> Parse (runFlags mul) (flagArg ''timeout'' (Itoa i @ ''ns'') # as) f = Parse (runFlags mul) as (f\<lparr>fl_Timeout := i\<rparr>)"
  "Parse (runFlags mul) (flagArg ''snapshot-dir'' v # as) f = Parse (runFlags mul) as (f\<lparr>fl_SnapshotDir := v\<rparr>)"
  by (rule Parse_flagArg;
      simp add: plainName_def runFlags_def hostFlags_def jailerFlags_def platformFlags_def machineFlags_def StringVar_def IntVar_def DurationVar_def
        flag_values repeated_Set_def)+

lemma Parse_cgroups:
  "Parse (runFlags mul) (map (flagArg ''jailer-cgroup'') cs @ as) f = Parse (runFlags mul) as (f\<lparr>fl_Cgroups := fl_Cgroups f @ cs\<rparr>)"
  by (induction cs arbitrary: f) (simp_all add: Parse_run del: Parse.simps)

lemma Parse_runArgs:
  assumes "wf_flags f"
  shows "Parse (runFlags mul) (runArgs f) defaultRunFlags = Parsed (f\<lparr>fl_Args := []\<rparr>) (fl_Args f)"
  using assms unfolding runArgs_def wf_flags_def append_Cons append_Nil append_assoc
  by (cases f) (simp add: Parse_run Parse_cgroups Parse_operands defaultRunFlags_def del: Parse.simps)

text \<open>
  C31.  Every flag of \<open>sandboxd run\<close> reaches the run it was written for: the process started with the arguments that spell the flags \<open>f\<close>, repeated
  ones included, and the operands, which may look like flags from the second on, behaves exactly as \<open>runVM\<close> on \<open>f\<close> and exits with its status.
\<close>

theorem run_arguments_read:
  assumes "wf_flags f"
  shows "sandboxd_main E (prog # ''run'' # runArgs f) h = map_option (\<lambda>(r, h'). (status r, h')) (runVM (se_manager E) (se_snap E) f h)"
  using Parse_runArgs [OF assms, of "se_mul E"]
  by (simp add: sandboxd_main_def dispatch_def runCommand_def withFlags_def finish_def del: Parse.simps)

definition demo_flags :: CliFlags where
  "demo_flags = defaultRunFlags\<lparr>fl_VCPU := 4, fl_Timeout := 90 * second, fl_Cgroups := [''cpu.max=1'', ''memory.max=2''], fl_Args := [''alpine'', ''ls'', ''-l'', ''--'']\<rparr>"

theorem run_arguments_read_witness:
  "wf_flags demo_flags \<and> (\<forall>(E :: (string, os) sandboxd_env) h.
     sandboxd_main E (''sandboxd'' # ''run'' # runArgs demo_flags) h = map_option (\<lambda>(r, h'). (status r, h')) (runVM (se_manager E) (se_snap E) demo_flags h))"
proof -
  have "wf_flags demo_flags" by code_simp
  with run_arguments_read [OF this] show ?thesis by blast
qed

text \<open>
  The arguments with which the guest's init starts the agent (\<open>superviseAgent\<close> of \<open>cmd/init/main.go\<close>) are good ones: the agent serves on the port that the
  host's client dials, in the workspace of the jobs, and will shut down after its first batch.
\<close>

definition agentArgs :: "string list" where
  "agentArgs = [''-shutdown-after-jobs=true'']"

theorem init_starts_agent:
  "agent_main listens agentArgs s = Inr (agent_start listens (defaultAgentFlags\<lparr>af_Shutdown := True\<rparr>) s) \<and>
   int (unat (listenPort (defaultAgentFlags\<lparr>af_Shutdown := True\<rparr>))) = vsockPort DefaultVsockPort"
proof -
  have "Parse agentFlags agentArgs defaultAgentFlags = Parsed (defaultAgentFlags\<lparr>af_Shutdown := True\<rparr>) []" by code_simp
  moreover have "int (unat (listenPort (defaultAgentFlags\<lparr>af_Shutdown := True\<rparr>))) = vsockPort DefaultVsockPort" by code_simp
  ultimately show ?thesis by (simp add: agent_main_def)
qed

end
