(* ===== verification/Spec2Isabelle.thy ===== *)
theory Spec2Isabelle
  imports LayerSafety DiskfsSafety RootfsProtocol DaemonStore ExampleClient HostGuest GuestSafety CommandLine
begin

text \<open>
  A verification library for the sandbox runtime \<open>slammer-core\<close>, a Go program that runs untrusted commands in Firecracker
  microVMs.  File names below are relative to \<open>src/\<close>.

  \<^bold>\<open>The program.\<close>  The daemon (\<open>internal/server\<close>) and the command line (\<open>cmd/sandboxd\<close>) take run requests.  The manager
  (\<open>internal/manager\<close>) checks the host, has the runtime (\<open>internal/runtime\<close>) prepare an image and the runner
  (\<open>internal/firecracker\<close>) boot it, or restore a snapshot of it.  Preparing an image pulls it (\<open>internal/oci\<close>) into a content store
  (\<open>internal/contentstore\<close>) and turns its layers into an ext4 file, under a file lock (\<open>internal/lock\<close>), once per
  chain ID (\<open>internal/rootfsbuilder\<close>).  In the guest, \<open>cmd/init\<close> mounts that file read-only below an overlay and starts the agent
  (\<open>cmd/agent\<close>, \<open>internal/agentserver\<close>), which takes one batch of jobs over HTTP on a vsock from the host's client
  (\<open>internal/agentclient\<close>) and then lets the guest power off.

  \<^bold>\<open>Foundations.\<close>
  \<^item> \<open>Prelude\<close>: shared types, string functions of Go, 64-bit wrap-around (\<open>i64\<close>), the rule collections.
  \<^item> \<open>GoPath\<close>: \<open>Clean\<close>, \<open>Join\<close>, \<open>Rel\<close> and their like, reduced to lists of components; \<open>GoBase64\<close> with its round trip;
    \<open>GoSha256\<close>, executable; \<open>GoStrconv\<close>, decimal numbers; \<open>GoFlag\<close>, package \<open>flag\<close> with its integers and durations; \<open>GoJson\<close>, values, their compact text and the scanner of \<open>encoding/json\<close>, with
    their round trip; \<open>ServeMux\<close>, the request router of \<open>net/http\<close>.
  \<^item> \<open>PosixFS\<close>: a file system with directories, symbolic links, hard links, owners, modes, time and injected faults, and
    the system calls and \<open>os\<close> functions that the program uses.  \<open>PosixLogic\<close>: a program logic for it (\<open>valid\<close>), with
    confinement (\<open>inside\<close>) and read-only code (\<open>readonly\<close>).
  \<^item> \<open>Sequencing\<close> (locale \<open>stop_first\<close>), \<open>PathGuard\<close> (locale \<open>parent_guard\<close>: what a check of parent directories promises), \<open>Polling\<close>
    (loops that wait).

  \<^bold>\<open>Components.\<close>  Each theory has the records, datatypes and operations of its files in their order; a theory whose name
  ends in \<open>Safety\<close>, \<open>Batch\<close>, \<open>Limits\<close> or \<open>Protocol\<close> holds the lemmas on them.
  \<^item> \<open>AgentApi\<close> (\<open>internal/agentapi/api.go\<close>), \<open>AgentServer\<close> (\<open>internal/agentserver/server.go\<close>): the routes, the one-shot endpoint, the
    batch loop and the jobs.  \<open>AgentSafety\<close> and \<open>AgentBatch\<close> show what the jobs can change in the guest's file system and that a batch stops at its first
    failure; \<open>AgentLimits\<close> the bounds on uploads and output, what a written file contains, and that one request is served.
  \<^item> \<open>LayerApplier\<close> (\<open>internal/rootfsbuilder/layer.go\<close>) and \<open>DiskfsApplier\<close> (\<open>pure_ext4.go\<close>): unpacking a layer into a directory and
    into an ext4 image.  \<open>LayerSafety\<close> and \<open>DiskfsSafety\<close>: confinement, verified digests, the paths that reach the ext4 library (locales
    \<open>image_fs\<close>, \<open>library_fs\<close>, interpreted on a library over the file-system model).
  \<^item> \<open>HostConfig\<close> (\<open>internal/config/config.go\<close>), \<open>ContentStore\<close> (\<open>internal/contentstore/store.go\<close>), \<open>OciPull\<close> (\<open>internal/oci\<close>): defaults,
    the store's paths and writers, the puller.  \<open>StoreSafety\<close>: every blob file has the digest it is named by, through every fault.
  \<^item> \<open>FileLock\<close> (\<open>internal/lock/filelock.go\<close>), \<open>RootfsStore\<close> (\<open>internal/rootfsbuilder/rootfs.go\<close>): one call.  \<open>RootfsProtocol\<close>: any number of
    interleaved calls with crashes and deletions as a step relation, its invariant, its refinement of an abstract image and progress.
  \<^item> \<open>ImageRuntime\<close> (\<open>internal/runtime/runtime.go\<close>): preparing an image from the cache or the registry; \<open>ImageSafety\<close>: it keeps the store
    good through every failure, and when it returns.
  \<^item> \<open>AgentClient\<close> (\<open>internal/agentclient/client.go\<close> and the retry loops): the dialer with its handshake, the clients and their two requests;
    \<open>AgentJson\<close>: the batch request on the wire, after the struct tags of \<open>api.go\<close>, and that the agent decodes what the host encoded.
  \<^item> \<open>Firecracker\<close> (\<open>internal/firecracker\<close>) and \<open>Manager\<close> (\<open>internal/manager\<close>).  What the host does with VMs is a log of
    events; \<open>FirecrackerSafety\<close> has a logic of logs (locale \<open>log_kind\<close>, interpreted for \<open>no machine left running\<close>, for a condition on each event and for
    the daemon's promise), which \<open>ManagerSafety\<close> carries to \<open>Run\<close> and \<open>CreateSnapshot\<close>.
  \<^item> \<open>ServerConfig\<close> and \<open>ApiServer\<close> (\<open>internal/server/config.go\<close>, \<open>server.go\<close>): the configuration and the handlers.  \<open>ApiSafety\<close>: accepted requests are
    within the limits.  \<open>Daemon\<close>: the routes, a request from method and path to status, and every state that a sequence of requests reaches.
    \<open>DaemonStore\<close>: the content store is good in each of them.
  \<^item> \<open>GuestInit\<close> (\<open>cmd/init/main.go\<close>) with \<open>GuestSafety\<close>; \<open>AgentProcess\<close> (\<open>cmd/agent/main.go\<close>): the agent's flags and the life of its process as a
    step relation, with the invariant that one batch is served and the exit that overtakes a reply.
  \<^item> \<open>HostGuest\<close>: the client's attempts against the agent, from the host's request over the wire to the guest's file system and back to the result of
    the run: when results arrive, and that those of a slow batch are lost.
  \<^item> \<open>Sandboxd\<close> (\<open>cmd/sandboxd/main.go\<close>): every command after its flags.  \<open>CommandLine\<close>: the flag sets of both programs and \<open>main\<close> from the arguments to the
    exit status, what it does with VMs whatever its arguments, and that flags reach the run they were written for.  \<open>ExampleClient\<close> (\<open>main.go\<close>): the example, and what the daemon makes of it.
  \<^item> This theory: what spans the command line, the boot image, the guest's init and the daemon's configuration.

  \<^bold>\<open>Errors and results.\<close>  Code on files returns an error or a value with the state (\<open>io\<close>); errors keep the branch of the source they come
  from, not their text.  Code that may wait for ever returns an option, \<open>None\<close> when it does not return; the
  theorems on such code say when it returns (\<open>Acquire_returns\<close>, \<open>PrepareImage_returns\<close>, \<open>guest_results_reach_host\<close>, \<open>slow_batch_lost\<close>) or hold for each return.  The ext4 library may also
  panic.  A VM whose start fails counts as not started.

  \<^bold>\<open>Bounds.\<close>  Path resolution follows at most 40 symbolic links, as Linux does, and then fails with \<open>ELOOP\<close>.  Temporary names are
  tried 10000 times, as in Go.  Removing a directory of the ext4 library recurses with fuel, since nothing is known of the library; too
  little fuel is the result \<open>DFuel\<close>, never success, so that the theorems hold for any fuel.  Waiting loops are partial functions.
  The JSON scanner has twice the length of its text as fuel, which \<open>readValue_fuel\<close> shows to be enough.  Sizes and durations that the source computes in 64 bits wrap around.

  \<^bold>\<open>Parameters.\<close>  Not under \<open>src/\<close>, and so arguments of the definitions: the codecs of gzip and tar, and that of JSON except for the
  batch request (what they deliver); the registry; the HTTP transport (what is delivered or lost, and when) and the framework's decoding; the clock; the floating-point
  product in a duration with a fraction; the Firecracker SDK with its VMs (a record of answers);
  the ext4 library (a record of operations); what a command in the guest does to files; the effect of \<open>mount\<close> and the
  answers of \<open>wait4\<close> and \<open>flock\<close>; the directories of \<open>PATH\<close>; the order in which Go ranges over a map.

  \<^bold>\<open>Not modelled.\<close>  The texts of errors and of usage and the formats in which JSON and durations are printed, which no later step of the
  program reads; the schema checks of the HTTP framework, its recovery from panics and the listeners, which are third-party or standard-library code behind
  one call; the read and write timeouts of the agent's HTTP server; the argument list that the SDK makes of its options; scripts, images and
  generated documents, which are not Go code.  Requests to the daemon are
  served one after the other, except in \<open>RootfsProtocol\<close>.
\<close>

section \<open>The boot image and the guest's init\<close>

text \<open>An init whose mounts all succeed; mounting over a directory is not shown in the file system below it.\<close>

definition mounting_env :: guest_env where
  "mounting_env = \<lparr>ge_mount = (\<lambda>c s. (None, s)), ge_start = True, ge_agentPID = 1, ge_wait = (\<lambda>_. NoChildren)\<rparr>"

definition file_is :: "os \<Rightarrow> string list \<Rightarrow> string \<Rightarrow> uint32 \<Rightarrow> bool" where
  "file_is fs p bytes mode = (case ent fs p of
       Some (RegE i) \<Rightarrow> (case inodes fs i of Some d \<Rightarrow> contents d = bytes \<and> perm (iattr d) = mode | None \<Rightarrow> False)
     | _ \<Rightarrow> False)"


section \<open>Serving\<close>

text \<open>
  \<open>sandboxd serve\<close> gives up before listening exactly when the configuration file does not load; otherwise it serves
  the configuration that was loaded, which is complete and has positive limits.
\<close>

theorem serve_runs_loaded_config:
  "case serve merge ends arch path s of
     ((st, None), s') \<Rightarrow> st = 1 \<and> (\<exists>e. fst (LoadConfig merge path s) = Inl e)
   | ((st, Some srv), s') \<Rightarrow> fst (LoadConfig merge path s) = Inr (as_Config srv) \<and> positive_limits (cf_Limits (as_Config srv)) \<and>
       st = (case ends srv of ListenFailed \<Rightarrow> 1 | ServerClosed \<Rightarrow> 0 | Signalled done \<Rightarrow> if done then 0 else 1)"
  using loaded_config_starts [where merge = merge and path = path and s = s and arch = arch]
  by (auto simp: serve_def serverFor_def andThen_def wrap_def ret_def throw_def split: prod.splits sum.splits)

end
